(* ===== verification/Prelude.thy ===== *)
theory Prelude
  imports "HOL-Library.Word" "HOL-Library.Monad_Syntax" "HOL-Library.Char_ord"
    "HOL-Library.List_Lexorder"
begin

unbundle bit_operations_syntax

text \<open>
  Shared ground of the development: the machine types of the program (x86-64 Linux, LP64),
  the memory primitives of libc on a bounded buffer, and the generic facts on lists, options
  and words that the component theories use.

  A computation that may abort (a failed \<^verbatim>\<open>assert\<close>) or touch memory outside an object has an
  \<open>option\<close> result: \<open>None\<close> is the abort or the undefined access. Error \<^emph>\<open>returns\<close> of the
  program are ordinary values.
\<close>

section \<open>Machine types\<close>

type_synonym byte = "8 word"
type_synonym u32 = "32 word"
type_synonym u64 = "64 word"

text \<open>\<^verbatim>\<open>size_t\<close>, \<^verbatim>\<open>nlink_t\<close>, \<^verbatim>\<open>fsblkcnt_t\<close> are unsigned; \<^verbatim>\<open>off_t\<close>, \<^verbatim>\<open>ssize_t\<close> and
  \<^verbatim>\<open>blkcnt_t\<close> are the same 64 bits read in two's complement (\<open>sint\<close>).\<close>

type_synonym size_t = u64
type_synonym off_t = u64
type_synonym ino_t = u64
type_synonym mode_t = u32

section \<open>Collections of facts\<close>

named_theorems inode_simps \<open>selectors and updates of inode records\<close>
named_theorems bound_simps \<open>word arithmetic moved to natural numbers\<close>
named_theorems handler_defs \<open>definitions of the request handlers\<close>

section \<open>Lists\<close>

text \<open>\<open>blit k xs ys\<close> overwrites \<open>ys\<close> with \<open>xs\<close> from position \<open>k\<close> on.\<close>

definition blit :: "nat \<Rightarrow> 'a list \<Rightarrow> 'a list \<Rightarrow> 'a list" where
  "blit k xs ys = take k ys @ xs @ drop (k + length xs) ys"

lemma length_blit [simp]: "k + length xs \<le> length ys \<Longrightarrow> length (blit k xs ys) = length ys"
  by (simp add: blit_def)

lemma nth_blit:
  assumes "k + length xs \<le> length ys" "i < length ys"
  shows "blit k xs ys ! i = (if k \<le> i \<and> i < k + length xs then xs ! (i - k) else ys ! i)"
  using assms by (auto simp: blit_def nth_append min_def)

lemma blit_Nil [simp]: "blit k [] ys = ys"
  by (simp add: blit_def)

lemma take_blit_le [simp]: "n \<le> k \<Longrightarrow> k \<le> length ys \<Longrightarrow> take n (blit k xs ys) = take n ys"
  by (simp add: blit_def)

section \<open>Ordered maps\<close>

text \<open>
  \<^verbatim>\<open>std::map\<close> as the association list its iterators visit: keys strictly increasing.
  \<open>map_put\<close> is \<^verbatim>\<open>m[k] = v\<close> (insert or overwrite), \<open>map_erase\<close> is \<^verbatim>\<open>m.erase(m.find(k))\<close>.
\<close>

fun map_put :: "'k::linorder \<Rightarrow> 'v \<Rightarrow> ('k \<times> 'v) list \<Rightarrow> ('k \<times> 'v) list" where
  "map_put k v [] = [(k, v)]"
| "map_put k v ((k', v') # r) =
     (if k = k' then (k, v) # r
      else if k < k' then (k, v) # (k', v') # r
      else (k', v') # map_put k v r)"

definition map_erase :: "'k \<Rightarrow> ('k \<times> 'v) list \<Rightarrow> ('k \<times> 'v) list" where
  "map_erase k xs = filter (\<lambda>p. fst p \<noteq> k) xs"

abbreviation map_sorted :: "('k::linorder \<times> 'v) list \<Rightarrow> bool" where
  "map_sorted xs \<equiv> sorted_wrt (<) (map fst xs)"

lemma map_of_map_put [simp]: "map_of (map_put k v xs) = (map_of xs)(k \<mapsto> v)"
  by (induction k v xs rule: map_put.induct) (auto simp: fun_eq_iff)

lemma fst_set_map_put [simp]: "fst ` set (map_put k v xs) = insert k (fst ` set xs)"
  by (induction k v xs rule: map_put.induct) auto

lemma map_sorted_map_put [simp]: "map_sorted xs \<Longrightarrow> map_sorted (map_put k v xs)"
proof (induction k v xs rule: map_put.induct)
  case (2 k v k' v' r)
  then show ?case
    using fst_set_map_put [of k v r] by (auto simp: image_iff)
qed simp

lemma map_of_map_erase [simp]: "map_of (map_erase k xs) = (map_of xs)(k := None)"
  by (induction xs) (auto simp: map_erase_def fun_eq_iff)

lemma map_sorted_map_erase [simp]: "map_sorted xs \<Longrightarrow> map_sorted (map_erase k xs)"
  by (induction xs) (auto simp: map_erase_def)

section \<open>Memory primitives on one buffer\<close>

text \<open>
  \<open>memset_at k c n buf\<close> is \<^verbatim>\<open>memset(buf + k, c, n)\<close> and \<open>memcpy_at k src buf\<close> is
  \<^verbatim>\<open>memcpy(buf + k, src, |src|)\<close> (also \<^verbatim>\<open>memmove\<close>: source and destination never overlap
  here). Both are undefined when the range leaves the buffer.
\<close>

definition memset_at :: "nat \<Rightarrow> byte \<Rightarrow> nat \<Rightarrow> byte list \<Rightarrow> byte list option" where
  "memset_at k c n buf =
     (if k + n \<le> length buf then Some (blit k (replicate n c) buf) else None)"

definition memcpy_at :: "nat \<Rightarrow> byte list \<Rightarrow> byte list \<Rightarrow> byte list option" where
  "memcpy_at k src buf =
     (if k + length src \<le> length buf then Some (blit k src buf) else None)"

text \<open>Reading \<open>n\<close> bytes from offset \<open>k\<close> of a buffer.\<close>

definition mem_read :: "nat \<Rightarrow> nat \<Rightarrow> byte list \<Rightarrow> byte list option" where
  "mem_read k n buf = (if k + n \<le> length buf then Some (take n (drop k buf)) else None)"

section \<open>Words\<close>

lemma unat_less_64 [simp]: "unat (x :: u64) < 18446744073709551616"
  using unsigned_less [where w = x, where ?'a = nat] by simp

lemma unat_add_64 [bound_simps]:
  "unat (a :: u64) + unat b < 2 ^ 64 \<Longrightarrow> unat (a + b) = unat a + unat b"
  by (simp add: unat_word_ariths)

lemma unat_diff_64 [bound_simps]:
  "b \<le> (a :: u64) \<Longrightarrow> unat (a - b) = unat a - unat b"
  by (rule unat_sub)

lemma unat_mult_64 [bound_simps]:
  "unat (a :: u64) * unat b < 2 ^ 64 \<Longrightarrow> unat (a * b) = unat a * unat b"
  by (simp add: unat_word_ariths)

lemma unat_div_64 [bound_simps]: "unat ((a :: u64) div b) = unat a div unat b"
  by (rule unat_div)

lemma unat_mod_64 [bound_simps]: "unat ((a :: u64) mod b) = unat a mod unat b"
  by (rule unat_mod)

lemma unat_of_nat_64 [bound_simps]: "n < 2 ^ 64 \<Longrightarrow> unat (of_nat n :: u64) = n"
  by (simp add: unat_of_nat take_bit_nat_eq_self)

lemma sint_nonneg_64: "unat (x :: u64) < 2 ^ 63 \<Longrightarrow> sint x = int (unat x)"
proof -
  assume a: "unat x < 2 ^ 63"
  have u: "uint x = int (unat x)" by (rule uint_nat)
  have "int (unat x) < int (2 ^ 63)" using a by (simp only: of_nat_less_iff)
  then have "uint x < 2 ^ 63" by simp
  moreover have "- (2 ^ 63) \<le> uint x"
    by (rule order_trans [OF _ uint_ge_0]) simp
  ultimately have "signed_take_bit 63 (uint x) = uint x"
    by (intro signed_take_bit_int_eq_self)
  then show ?thesis by (simp add: sint_uint)
qed

lemma mod_64_32_minus_1:
  "((x :: int) mod 18446744073709551616 - 1) mod 4294967296 = (x - 1) mod 4294967296"
proof -
  have "(x mod 18446744073709551616 - 1) mod 4294967296 =
      (x mod 18446744073709551616 mod 4294967296 - 1) mod 4294967296"
    by (rule mod_diff_left_eq [symmetric])
  also have "x mod 18446744073709551616 mod 4294967296 = x mod 4294967296"
    by (rule mod_mod_cancel) simp
  also have "(x mod 4294967296 - 1) mod 4294967296 = (x - 1) mod 4294967296"
    by (rule mod_diff_left_eq)
  finally show ?thesis .
qed

lemma ucast_minus_1: "(ucast (x - 1 :: u64) :: u32) = ucast x - 1"
  by (transfer, simp add: take_bit_eq_mod mod_simps mod_mod_cancel mod_diff_eq mod_64_32_minus_1)

lemma unat_ucast_up: "unat (ucast (n :: u32) :: u64) = unat n"
proof -
  have "unat n < 2 ^ 32" using unsigned_less [of n] by simp
  then show ?thesis by (simp add: unsigned_ucast_eq take_bit_nat_eq_self)
qed

lemma ucast_up_minus_1: "n \<noteq> 0 \<Longrightarrow> ucast (n - 1 :: u32) = (ucast n - 1 :: u64)"
  unfolding word_unat_eq_iff unat_ucast_up
  by (subst unat_diff_64) (simp_all add: unat_ucast_up unat_minus_one word_le_nat_alt unat_gt_0 Suc_le_eq)

lemma sint_minus_1: "0 < sint (n :: u32) \<Longrightarrow> sint (n - 1) = sint n - 1"
proof -
  assume a: "0 < sint n"
  have "sint n < 2 ^ 31" using sint_lt [of n] by simp
  with a have "signed_take_bit 31 (sint n - 1) = sint n - 1" by (intro signed_take_bit_int_eq_self) simp_all
  then show ?thesis by (simp add: sint_word_ariths)
qed

end
