(* ===== verification/Fuse_Types.thy ===== *)
theory Fuse_Types
  imports Prelude
begin

text \<open>
  The C data types the file system shares with libfuse and the kernel: \<^verbatim>\<open>struct stat\<close>,
  \<^verbatim>\<open>struct fuse_entry_param\<close>, \<^verbatim>\<open>struct statvfs\<close> (fields and widths of x86-64 Linux), error
  numbers, file mode bits, the flags of \<^verbatim>\<open>setattr\<close> and \<^verbatim>\<open>setxattr\<close>, and the replies that a
  handler hands to libfuse. Every \<^verbatim>\<open>fuse_reply_*\<close> call is a value of type \<open>reply\<close>: what the
  library then does with it is outside the model.
\<close>

section \<open>Error numbers\<close>

abbreviation ENOENT :: int where "ENOENT \<equiv> 2"
abbreviation EIO :: int where "EIO \<equiv> 5"
abbreviation E2BIG :: int where "E2BIG \<equiv> 7"
abbreviation EBADF :: int where "EBADF \<equiv> 9"
abbreviation ENOMEM :: int where "ENOMEM \<equiv> 12"
abbreviation EACCES :: int where "EACCES \<equiv> 13"
abbreviation EEXIST :: int where "EEXIST \<equiv> 17"
abbreviation ENOTDIR :: int where "ENOTDIR \<equiv> 20"
abbreviation EISDIR :: int where "EISDIR \<equiv> 21"
abbreviation EINVAL :: int where "EINVAL \<equiv> 22"
abbreviation ENOSPC :: int where "ENOSPC \<equiv> 28"
abbreviation ERANGE :: int where "ERANGE \<equiv> 34"
abbreviation ENOSYS :: int where "ENOSYS \<equiv> 38"
abbreviation ENOTEMPTY :: int where "ENOTEMPTY \<equiv> 39"
abbreviation ENODATA :: int where "ENODATA \<equiv> 61"
abbreviation EPROTO :: int where "EPROTO \<equiv> 71"
abbreviation EMSGSIZE :: int where "EMSGSIZE \<equiv> 90"

section \<open>File modes\<close>

abbreviation S_IFMT :: mode_t where "S_IFMT \<equiv> 0xF000"
abbreviation S_IFSOCK :: mode_t where "S_IFSOCK \<equiv> 0xC000"
abbreviation S_IFLNK :: mode_t where "S_IFLNK \<equiv> 0xA000"
abbreviation S_IFREG :: mode_t where "S_IFREG \<equiv> 0x8000"
abbreviation S_IFBLK :: mode_t where "S_IFBLK \<equiv> 0x6000"
abbreviation S_IFDIR :: mode_t where "S_IFDIR \<equiv> 0x4000"
abbreviation S_IFCHR :: mode_t where "S_IFCHR \<equiv> 0x2000"
abbreviation S_IFIFO :: mode_t where "S_IFIFO \<equiv> 0x1000"

abbreviation S_ISREG :: "mode_t \<Rightarrow> bool" where "S_ISREG m \<equiv> m AND S_IFMT = S_IFREG"
abbreviation S_ISDIR :: "mode_t \<Rightarrow> bool" where "S_ISDIR m \<equiv> m AND S_IFMT = S_IFDIR"
abbreviation S_ISLNK :: "mode_t \<Rightarrow> bool" where "S_ISLNK m \<equiv> m AND S_IFMT = S_IFLNK"
abbreviation S_ISCHR :: "mode_t \<Rightarrow> bool" where "S_ISCHR m \<equiv> m AND S_IFMT = S_IFCHR"
abbreviation S_ISBLK :: "mode_t \<Rightarrow> bool" where "S_ISBLK m \<equiv> m AND S_IFMT = S_IFBLK"
abbreviation S_ISFIFO :: "mode_t \<Rightarrow> bool" where "S_ISFIFO m \<equiv> m AND S_IFMT = S_IFIFO"
abbreviation S_ISSOCK :: "mode_t \<Rightarrow> bool" where "S_ISSOCK m \<equiv> m AND S_IFMT = S_IFSOCK"

section \<open>Flags\<close>

abbreviation FUSE_SET_ATTR_MODE :: u32 where "FUSE_SET_ATTR_MODE \<equiv> 1"
abbreviation FUSE_SET_ATTR_UID :: u32 where "FUSE_SET_ATTR_UID \<equiv> 2"
abbreviation FUSE_SET_ATTR_GID :: u32 where "FUSE_SET_ATTR_GID \<equiv> 4"
abbreviation FUSE_SET_ATTR_SIZE :: u32 where "FUSE_SET_ATTR_SIZE \<equiv> 8"
abbreviation FUSE_SET_ATTR_ATIME :: u32 where "FUSE_SET_ATTR_ATIME \<equiv> 16"
abbreviation FUSE_SET_ATTR_MTIME :: u32 where "FUSE_SET_ATTR_MTIME \<equiv> 32"
abbreviation FUSE_SET_ATTR_CTIME :: u32 where "FUSE_SET_ATTR_CTIME \<equiv> 1024"

abbreviation XATTR_CREATE :: u32 where "XATTR_CREATE \<equiv> 1"
abbreviation XATTR_REPLACE :: u32 where "XATTR_REPLACE \<equiv> 2"

section \<open>Structures\<close>

record timespec =
  tv_sec :: u64
  tv_nsec :: u64

record stat =
  st_dev :: u64
  st_ino :: ino_t
  st_nlink :: u64
  st_mode :: mode_t
  st_uid :: u32
  st_gid :: u32
  st_rdev :: u64
  st_size :: off_t
  st_blksize :: u64
  st_blocks :: u64
  st_atim :: timespec
  st_mtim :: timespec
  st_ctim :: timespec

text \<open>The two timeouts are C doubles, kept as their IEEE-754 bit patterns.\<close>

record fuse_entry_param =
  e_ino :: ino_t
  e_generation :: u64
  e_attr :: stat
  e_attr_timeout :: u64
  e_entry_timeout :: u64

abbreviation double_one :: u64 where "double_one \<equiv> 0x3FF0000000000000"

definition zero_timespec :: timespec where
  "zero_timespec = \<lparr>tv_sec = 0, tv_nsec = 0\<rparr>"

definition zero_stat :: stat where
  "zero_stat = \<lparr>st_dev = 0, st_ino = 0, st_nlink = 0, st_mode = 0, st_uid = 0, st_gid = 0,
     st_rdev = 0, st_size = 0, st_blksize = 0, st_blocks = 0,
     st_atim = zero_timespec, st_mtim = zero_timespec, st_ctim = zero_timespec\<rparr>"

definition zero_entry_param :: fuse_entry_param where
  "zero_entry_param = \<lparr>e_ino = 0, e_generation = 0, e_attr = zero_stat,
     e_attr_timeout = 0, e_entry_timeout = 0\<rparr>"

record statvfs =
  f_bsize :: u64
  f_frsize :: u64
  f_blocks :: u64
  f_bfree :: u64
  f_bavail :: u64
  f_files :: u64
  f_ffree :: u64
  f_favail :: u64
  f_fsid :: u64
  f_flag :: u64
  f_namemax :: u64

definition zero_statvfs :: statvfs where
  "zero_statvfs = \<lparr>f_bsize = 0, f_frsize = 0, f_blocks = 0, f_bfree = 0, f_bavail = 0,
     f_files = 0, f_ffree = 0, f_favail = 0, f_fsid = 0, f_flag = 0, f_namemax = 0\<rparr>"

text \<open>The caller's identity, \<^verbatim>\<open>struct fuse_ctx\<close>.\<close>

record fuse_ctx =
  ctx_uid :: u32
  ctx_gid :: u32

section \<open>What the code takes from its environment\<close>

text \<open>
  One record for everything a call reads from outside the program: the clock, whether an
  allocation of a given size succeeds, whether \<^verbatim>\<open>operator new\<close> succeeds, the bytes that freshly
  allocated memory holds (by index), what an uninitialised \<^verbatim>\<open>m_fuseEntryParam\<close> holds, and
  whether \<^verbatim>\<open>realloc\<close> extends a block in place.
\<close>

record env =
  env_now :: timespec
  env_alloc :: "size_t \<Rightarrow> bool"
  env_new :: bool
  env_junk :: "nat \<Rightarrow> byte"
  env_param :: fuse_entry_param
  env_inplace :: bool

text \<open>\<^verbatim>\<open>realloc\<close> on a buffer owned by one object: \<open>None\<close> is the null pointer.\<close>

definition realloc_buf :: "env \<Rightarrow> byte list \<Rightarrow> size_t \<Rightarrow> byte list option" where
  "realloc_buf e buf n =
     (if env_alloc e n
      then Some (take (unat n) buf @ map (env_junk e) [length buf..<unat n]) else None)"

lemma length_realloc_buf:
  "realloc_buf e buf n = Some b \<Longrightarrow> length b = unat n"
  by (auto simp: realloc_buf_def split: if_splits)

lemma take_realloc_buf:
  "realloc_buf e buf n = Some b \<Longrightarrow> k \<le> length buf \<Longrightarrow> k \<le> unat n \<Longrightarrow> take k b = take k buf"
  by (auto simp: realloc_buf_def split: if_splits)

section \<open>Replies\<close>

text \<open>One directory entry as \<^verbatim>\<open>fuse_add_direntry\<close> puts it into the reply buffer.\<close>

record dirent =
  d_name :: string
  d_stat :: stat
  d_off :: off_t

datatype reply =
    ReplyErr int
  | ReplyNone
  | ReplyEntry fuse_entry_param
  | ReplyCreate fuse_entry_param
  | ReplyAttr stat
  | ReplyOpen
  | ReplyBuf "byte list"
  | ReplyDirents "dirent list"
  | ReplyWrite size_t
  | ReplyXattr size_t
  | ReplyReadlink string
  | ReplyStatfs statvfs
  | ReplyIoctl

end
