(* ===== verification/Block_Account.thy ===== *)
theory Block_Account
  imports Fuse_Types
begin

text \<open>
  Block arithmetic (\<^verbatim>\<open>util.hpp\<close>) and the capacity bookkeeping of \<^verbatim>\<open>FuseRamFs::m_stbuf\<close>
  (\<^verbatim>\<open>fuse_cpp_ramfs.hpp\<close>): free blocks, free inodes and the test whether an object may grow.
  All counters are 64-bit and wrap around, as in the code.
\<close>

section \<open>Rounding\<close>

definition round_up :: "size_t \<Rightarrow> size_t \<Rightarrow> size_t" where
  "round_up value unit = (value + unit - 1) div unit * unit"

definition get_nblocks :: "size_t \<Rightarrow> size_t \<Rightarrow> size_t" where
  "get_nblocks sz blocksize = (sz + blocksize - 1) div blocksize"

definition BufBlockSize :: size_t where
  "BufBlockSize = 512"

text \<open>The number of 512-byte blocks an object of \<open>n\<close> bytes needs, on natural numbers.\<close>

definition blocks_for :: "nat \<Rightarrow> nat" where
  "blocks_for n = (n + 511) div 512"

lemma blocks_for_0 [simp]: "blocks_for 0 = 0"
  by (simp add: blocks_for_def)

lemma blocks_for_bracket: "n \<le> 512 * blocks_for n \<and> 512 * blocks_for n \<le> n + 511"
proof -
  have "512 * ((n + 511) div 512) + (n + 511) mod 512 = n + 511"
    by (rule mult_div_mod_eq)
  moreover have "(n + 511) mod 512 < 512" by simp
  ultimately show ?thesis unfolding blocks_for_def by linarith
qed

lemma blocks_for_ge: "n \<le> 512 * blocks_for n"
  using blocks_for_bracket by blast

lemma blocks_for_bound: "512 * blocks_for n \<le> n + 511"
  using blocks_for_bracket by blast

lemma blocks_for_least: "n \<le> 512 * k \<Longrightarrow> blocks_for n \<le> k"
  using blocks_for_bound [of n] by linarith

lemma blocks_for_mono: "m \<le> n \<Longrightarrow> blocks_for m \<le> blocks_for n"
  unfolding blocks_for_def by (intro div_le_mono) simp

lemma blocks_for_div_mod: "blocks_for n = n div 512 + (if n mod 512 \<noteq> 0 then 1 else 0)"
proof -
  let ?r = "n mod 512"
  have "?r < 512" by simp
  then have r: "(?r + 511) div 512 = (if ?r \<noteq> 0 then 1 else 0)"
    by (auto intro!: div_nat_eqI)
  have n: "n + 511 = (?r + 511) + 512 * (n div 512)"
    by simp
  have "blocks_for n = ((?r + 511) + 512 * (n div 512)) div 512"
    unfolding blocks_for_def by (subst n) (rule refl)
  also have "\<dots> = n div 512 + (?r + 511) div 512"
    by (subst div_mult_self2) simp_all
  finally show ?thesis by (simp only: r)
qed

lemma blocks_for_small: "n < 2 ^ 63 \<Longrightarrow> 512 * blocks_for n < 2 ^ 64"
  using blocks_for_bound [of n] by simp

lemma blocks_for_less: "n < 2 ^ 63 \<Longrightarrow> blocks_for n < 2 ^ 64"
  using blocks_for_small [of n] by simp

lemma unat_get_nblocks [bound_simps]:
  assumes "unat sz < 2 ^ 63"
  shows "unat (get_nblocks sz BufBlockSize) = blocks_for (unat sz)"
proof -
  have "unat (sz + 511) = unat sz + 511"
    using assms by (subst unat_add_64) simp_all
  moreover have "sz + 512 - 1 = sz + 511" by simp
  ultimately show ?thesis
    by (simp only: get_nblocks_def BufBlockSize_def blocks_for_def unat_div_64) simp
qed

section \<open>Counters\<close>

definition UpdateUsedBlocks :: "u64 \<Rightarrow> statvfs \<Rightarrow> statvfs" where
  "UpdateUsedBlocks blocksAdded sb =
     sb\<lparr>f_bfree := f_bfree sb - blocksAdded, f_bavail := f_bavail sb - blocksAdded\<rparr>"

definition UpdateUsedInodes :: "u64 \<Rightarrow> statvfs \<Rightarrow> statvfs" where
  "UpdateUsedInodes inodesAdded sb =
     sb\<lparr>f_ffree := f_ffree sb - inodesAdded, f_favail := f_favail sb - inodesAdded\<rparr>"

definition FsStat :: "statvfs \<Rightarrow> statvfs" where
  "FsStat sb = sb"

definition GetFreeInodes :: "statvfs \<Rightarrow> u64" where
  "GetFreeInodes sb = f_ffree sb"

text \<open>
  \<^verbatim>\<open>CheckHasSpaceFor(inode, incSize)\<close>; \<open>usage\<close> is the pair of \<^verbatim>\<open>UsedBlocks()\<close> and \<^verbatim>\<open>Size()\<close> of
  the inode, \<open>None\<close> for the null pointer. \<open>incSize\<close> is signed.
\<close>

definition CheckHasSpaceFor :: "(u64 \<times> u64) option \<Rightarrow> u64 \<Rightarrow> statvfs \<Rightarrow> bool" where
  "CheckHasSpaceFor usage incSize sb =
     (if sint incSize \<le> 0 then True
      else
        let (oldBlocks, newSize) =
              (case usage of
                 Some (blocks, sz) \<Rightarrow> (blocks, sz + incSize)
               | None \<Rightarrow> (0, incSize));
            newBlocks = get_nblocks newSize BufBlockSize
        in if newBlocks \<le> oldBlocks then True
           else f_bfree sb \<ge> newBlocks - oldBlocks)"

lemma UpdateUsedBlocks_simps [simp]:
  "f_bfree (UpdateUsedBlocks d sb) = f_bfree sb - d"
  "f_bavail (UpdateUsedBlocks d sb) = f_bavail sb - d"
  "f_ffree (UpdateUsedBlocks d sb) = f_ffree sb"
  "f_favail (UpdateUsedBlocks d sb) = f_favail sb"
  "f_files (UpdateUsedBlocks d sb) = f_files sb"
  "f_blocks (UpdateUsedBlocks d sb) = f_blocks sb"
  by (simp_all add: UpdateUsedBlocks_def)

lemma UpdateUsedInodes_simps [simp]:
  "f_bfree (UpdateUsedInodes d sb) = f_bfree sb"
  "f_bavail (UpdateUsedInodes d sb) = f_bavail sb"
  "f_ffree (UpdateUsedInodes d sb) = f_ffree sb - d"
  "f_favail (UpdateUsedInodes d sb) = f_favail sb - d"
  "f_files (UpdateUsedInodes d sb) = f_files sb"
  "f_blocks (UpdateUsedInodes d sb) = f_blocks sb"
  by (simp_all add: UpdateUsedInodes_def)

lemma UpdateUsedBlocks_add:
  "UpdateUsedBlocks a (UpdateUsedBlocks b sb) = UpdateUsedBlocks (a + b) sb"
  by (simp add: UpdateUsedBlocks_def algebra_simps)

lemma UpdateUsedBlocks_0 [simp]: "UpdateUsedBlocks 0 sb = sb"
  by (simp add: UpdateUsedBlocks_def)

text \<open>
  The test is exact on growth that stays below \<open>2 ^ 63\<close> bytes: it succeeds iff the object
  needs no further block or the missing blocks are free.
\<close>

lemma CheckHasSpaceFor_iff:
  assumes inc: "0 < unat inc" and tot: "unat sz + unat inc < 2 ^ 63"
  shows "CheckHasSpaceFor (Some (blocks, sz)) inc sb \<longleftrightarrow>
    blocks_for (unat sz + unat inc) \<le> unat blocks + unat (f_bfree sb)"
proof -
  have i: "sint inc = int (unat inc)" using tot by (intro sint_nonneg_64) simp
  have pos: "\<not> sint inc \<le> 0" using inc unfolding i by linarith
  have s: "unat (sz + inc) = unat sz + unat inc"
    using tot by (intro unat_add_64) simp
  let ?n = "get_nblocks (sz + inc) BufBlockSize"
  have n: "unat ?n = blocks_for (unat sz + unat inc)"
    using tot by (simp add: unat_get_nblocks s)
  show ?thesis
  proof (cases "?n \<le> blocks")
    case True
    then have "unat ?n \<le> unat blocks" by (simp add: word_le_nat_alt)
    with True pos show ?thesis by (simp add: CheckHasSpaceFor_def n)
  next
    case False
    then have "unat (?n - blocks) = unat ?n - unat blocks"
      by (intro unat_diff_64) simp
    with False pos show ?thesis
      by (auto simp: CheckHasSpaceFor_def n word_le_nat_alt Let_def)
  qed
qed

lemma CheckHasSpaceFor_shrink: "sint inc \<le> 0 \<Longrightarrow> CheckHasSpaceFor u inc sb"
  by (simp add: CheckHasSpaceFor_def)

end
