(* ===== verification/Inode.thy ===== *)
theory Inode
  imports Block_Account
begin

text \<open>
  The base class \<^verbatim>\<open>Inode\<close> (\<^verbatim>\<open>inode.hpp\<close>, \<^verbatim>\<open>inode.cpp\<close>): its fields, the attribute and reference
  counter operations, access checks and extended attributes. The fields of the four
  subclasses are the payload \<open>m_obj\<close>; a \<^verbatim>\<open>dynamic_cast\<close> is a match on it.

  Extended attribute values live in a heap of their own, addressed by the pointers that
  \<open>m_xattr\<close> stores: the copy constructor of \<^verbatim>\<open>Inode\<close> copies the pointers, so two inodes may
  share a value. File buffers are owned by one object and are kept by value.
\<close>

section \<open>The xattr heap\<close>

type_synonym ptr = nat

record heap =
  h_mem :: "ptr \<Rightarrow> byte list option"
  h_next :: ptr

abbreviation (input) nullptr :: ptr where "nullptr \<equiv> 0"

definition empty_heap :: heap where
  "empty_heap = \<lparr>h_mem = Map.empty, h_next = 1\<rparr>"

text \<open>
  \<^verbatim>\<open>realloc(p, n)\<close>: \<open>None\<close> when \<open>p\<close> is dangling. On success the old block is extended in
  place or moved to a fresh address, as the environment decides; the null pointer is returned
  and nothing changes when the allocation fails.
\<close>

definition heap_realloc :: "env \<Rightarrow> ptr \<Rightarrow> size_t \<Rightarrow> heap \<Rightarrow> (ptr \<times> heap) option" where
  "heap_realloc e p n h =
     (case (if p = nullptr then Some [] else h_mem h p) of
        None \<Rightarrow> None
      | Some old \<Rightarrow>
          (case realloc_buf e old n of
             None \<Rightarrow> Some (nullptr, h)
           | Some new \<Rightarrow>
               if p \<noteq> nullptr \<and> env_inplace e
               then Some (p, h\<lparr>h_mem := (h_mem h)(p \<mapsto> new)\<rparr>)
               else Some (h_next h,
                 h\<lparr>h_mem := (h_mem h)(p := None, h_next h \<mapsto> new), h_next := Suc (h_next h)\<rparr>)))"

section \<open>State\<close>

datatype SpecialInodeTypes =
    SPECIAL_INODE_TYPE_NO_BLOCK
  | SPECIAL_INODE_CHAR_DEV
  | SPECIAL_INODE_BLOCK_DEV
  | SPECIAL_INODE_FIFO
  | SPECIAL_INODE_SOCK

datatype inode_obj =
    File "byte list"
  | Directory "(string \<times> ino_t) list"
  | SymLink string
  | SpecialInode SpecialInodeTypes

record Inode =
  m_markedForDeletion :: bool
  m_nlookup :: u64
  m_fuseEntryParam :: fuse_entry_param
  m_xattr :: "(string \<times> (ptr \<times> size_t)) list"
  m_obj :: inode_obj

text \<open>\<^verbatim>\<open>m_fuseEntryParam.attr\<close> and assignments to its fields.\<close>

abbreviation i_attr :: "Inode \<Rightarrow> stat" where
  "i_attr i \<equiv> e_attr (m_fuseEntryParam i)"

definition upd_attr :: "(stat \<Rightarrow> stat) \<Rightarrow> Inode \<Rightarrow> Inode" where
  "upd_attr g i = i\<lparr>m_fuseEntryParam := (m_fuseEntryParam i)\<lparr>e_attr := g (i_attr i)\<rparr>\<rparr>"

lemma upd_attr_simps [simp]:
  "i_attr (upd_attr g i) = g (i_attr i)"
  "m_markedForDeletion (upd_attr g i) = m_markedForDeletion i"
  "m_nlookup (upd_attr g i) = m_nlookup i"
  "m_xattr (upd_attr g i) = m_xattr i"
  "m_obj (upd_attr g i) = m_obj i"
  "e_ino (m_fuseEntryParam (upd_attr g i)) = e_ino (m_fuseEntryParam i)"
  by (simp_all add: upd_attr_def)

text \<open>Both change times are set to the clock: \<^verbatim>\<open>clock_gettime(&st_ctim); st_mtim = st_ctim\<close>.\<close>

definition touch_cm :: "env \<Rightarrow> stat \<Rightarrow> stat" where
  "touch_cm e a = a\<lparr>st_ctim := env_now e, st_mtim := env_now e\<rparr>"

lemma touch_cm_simps [simp]:
  "st_ino (touch_cm e a) = st_ino a" "st_nlink (touch_cm e a) = st_nlink a"
  "st_mode (touch_cm e a) = st_mode a" "st_size (touch_cm e a) = st_size a"
  "st_blocks (touch_cm e a) = st_blocks a" "st_blksize (touch_cm e a) = st_blksize a"
  "st_uid (touch_cm e a) = st_uid a" "st_gid (touch_cm e a) = st_gid a"
  by (simp_all add: touch_cm_def)

section \<open>Construction, link and lookup counters\<close>

text \<open>The constructor leaves \<^verbatim>\<open>m_fuseEntryParam\<close> uninitialised; \<open>junk\<close> is what it holds.\<close>

definition new_Inode :: "fuse_entry_param \<Rightarrow> inode_obj \<Rightarrow> Inode" where
  "new_Inode junk obj = \<lparr>m_markedForDeletion = False, m_nlookup = 0, m_fuseEntryParam = junk,
     m_xattr = [], m_obj = obj\<rparr>"

definition Inode_Initialize ::
    "env \<Rightarrow> ino_t \<Rightarrow> mode_t \<Rightarrow> u64 \<Rightarrow> u32 \<Rightarrow> u32 \<Rightarrow> Inode \<Rightarrow> Inode" where
  "Inode_Initialize e ino mode nlink gid uid i =
     i\<lparr>m_fuseEntryParam := zero_entry_param
         \<lparr>e_ino := ino,
          e_attr_timeout := double_one,
          e_entry_timeout := double_one,
          e_attr := zero_stat
            \<lparr>st_ino := ino, st_mode := mode, st_gid := gid, st_uid := uid, st_nlink := nlink,
             st_blksize := BufBlockSize,
             st_atim := env_now e, st_ctim := env_now e, st_mtim := env_now e\<rparr>\<rparr>\<rparr>"

definition IncrementLinkCount :: "Inode \<Rightarrow> Inode" where
  "IncrementLinkCount i = upd_attr (\<lambda>a. a\<lparr>st_nlink := st_nlink a + 1\<rparr>) i"

definition DecrementLinkCount :: "Inode \<Rightarrow> Inode" where
  "DecrementLinkCount i = upd_attr (\<lambda>a. a\<lparr>st_nlink := st_nlink a - 1\<rparr>) i"

text \<open>\<^verbatim>\<open>int NumLinks()\<close> narrows the 64-bit counter to a 32-bit \<^verbatim>\<open>int\<close>.\<close>

definition NumLinks :: "Inode \<Rightarrow> int" where
  "NumLinks i = sint (ucast (st_nlink (i_attr i)) :: u32)"

definition IsActive :: "Inode \<Rightarrow> bool" where
  "IsActive i = (st_nlink (i_attr i) + m_nlookup i > 0)"

definition HasNoLinks :: "Inode \<Rightarrow> bool" where
  "HasNoLinks i = (st_nlink (i_attr i) = 0)"

definition UsedBlocks :: "Inode \<Rightarrow> u64" where
  "UsedBlocks i = st_blocks (i_attr i)"

definition Size :: "Inode \<Rightarrow> u64" where
  "Size i = st_size (i_attr i)"

definition GetAttr :: "Inode \<Rightarrow> stat" where
  "GetAttr i = i_attr i"

definition GetMode :: "Inode \<Rightarrow> mode_t" where
  "GetMode i = st_mode (i_attr i)"

definition GetIno :: "Inode \<Rightarrow> ino_t" where
  "GetIno i = st_ino (i_attr i)"

definition Forgotten :: "Inode \<Rightarrow> bool" where
  "Forgotten i = (m_nlookup i = 0)"

text \<open>The pair \<^verbatim>\<open>CheckHasSpaceFor\<close> reads from an inode.\<close>

abbreviation usage_of :: "Inode \<Rightarrow> u64 \<times> u64" where
  "usage_of i \<equiv> (UsedBlocks i, Size i)"

section \<open>Attribute replies\<close>

definition Inode_ReplyEntry :: "Inode \<Rightarrow> reply \<times> Inode" where
  "Inode_ReplyEntry i = (ReplyEntry (m_fuseEntryParam i), i\<lparr>m_nlookup := m_nlookup i + 1\<rparr>)"

definition Inode_ReplyCreate :: "Inode \<Rightarrow> reply \<times> Inode" where
  "Inode_ReplyCreate i = (ReplyCreate (m_fuseEntryParam i), i\<lparr>m_nlookup := m_nlookup i + 1\<rparr>)"

definition Inode_ReplyAttr :: "Inode \<Rightarrow> reply" where
  "Inode_ReplyAttr i = ReplyAttr (i_attr i)"

text \<open>\<^verbatim>\<open>to_set & flag\<close> as a condition.\<close>

abbreviation flag_set :: "u32 \<Rightarrow> u32 \<Rightarrow> bool" where
  "flag_set w f \<equiv> w AND f \<noteq> 0"

definition Inode_ReplySetAttr :: "env \<Rightarrow> stat \<Rightarrow> u32 \<Rightarrow> Inode \<Rightarrow> reply \<times> Inode" where
  "Inode_ReplySetAttr e a to_set i =
     (let s = i_attr i;
          s = (if flag_set to_set FUSE_SET_ATTR_MODE then s\<lparr>st_mode := st_mode a\<rparr> else s);
          s = (if flag_set to_set FUSE_SET_ATTR_UID then s\<lparr>st_uid := st_uid a\<rparr> else s);
          s = (if flag_set to_set FUSE_SET_ATTR_GID then s\<lparr>st_gid := st_gid a\<rparr> else s);
          s = (if flag_set to_set FUSE_SET_ATTR_SIZE
               then touch_cm e (s\<lparr>st_size := st_size a\<rparr>) else s);
          s = (if flag_set to_set FUSE_SET_ATTR_ATIME then s\<lparr>st_atim := st_atim a\<rparr> else s);
          s = (if flag_set to_set FUSE_SET_ATTR_MTIME then s\<lparr>st_mtim := st_mtim a\<rparr> else s);
          s = (if flag_set to_set FUSE_SET_ATTR_CTIME then s\<lparr>st_ctim := st_ctim a\<rparr> else s);
          s = s\<lparr>st_ctim := env_now e\<rparr>
      in (ReplyAttr s, upd_attr (\<lambda>_. s) i))"

definition Inode_Forget :: "u64 \<Rightarrow> Inode \<Rightarrow> reply \<times> Inode" where
  "Inode_Forget nlookup i = (ReplyNone, i\<lparr>m_nlookup := m_nlookup i - nlookup\<rparr>)"

definition Inode_ReplyAccess :: "u32 \<Rightarrow> u32 \<Rightarrow> u32 \<Rightarrow> Inode \<Rightarrow> reply" where
  "Inode_ReplyAccess msk gid uid i =
     (let a = i_attr i; m3 = push_bit 3 msk; m6 = push_bit 3 m3 in
      if msk = 0 then ReplyErr 0
      else if st_mode a AND msk = msk then ReplyErr 0
      else if st_mode a AND m3 = m3 \<and> gid = st_gid a then ReplyErr 0
      else if uid = st_uid a \<and> st_mode a AND m6 = m6 then ReplyErr 0
      else ReplyErr EACCES)"

section \<open>Extended attributes\<close>

text \<open>
  \<^verbatim>\<open>SetXAttrAndReply\<close>. The value and its size are the byte list \<open>value\<close>. \<^verbatim>\<open>m_xattr[name]\<close>
  inserts the pair (null, 0) for a new name, and the insertion stays when the allocation
  fails.
\<close>

definition Inode_SetXAttrAndReply ::
    "env \<Rightarrow> string \<Rightarrow> byte list \<Rightarrow> u32 \<Rightarrow> u32 \<Rightarrow> heap \<times> Inode \<Rightarrow> (reply \<times> heap \<times> Inode) option" where
  "Inode_SetXAttrAndReply e name value flags position = (\<lambda>(h, i).
     let old = map_of (m_xattr i) name in
     if old \<noteq> None \<and> flag_set flags XATTR_CREATE then Some (ReplyErr EEXIST, h, i)
     else if old = None \<and> flag_set flags XATTR_REPLACE then Some (ReplyErr ENODATA, h, i)
     else
       let newExtent = of_nat (length value) + ucast position;
           (p, sz) = (case old of None \<Rightarrow> (nullptr, 0) | Some v \<Rightarrow> v);
           put = (\<lambda>v. i\<lparr>m_xattr := map_put name v (m_xattr i)\<rparr>)
       in do {
         (p', sz', h') \<leftarrow>
           (if sz < newExtent
            then do { (q, h') \<leftarrow> heap_realloc e p newExtent h; Some (q, newExtent, h') }
            else Some (p, sz, h));
         if sz < newExtent \<and> p' = nullptr then Some (ReplyErr E2BIG, h', put (p, sz))
         else if p' = nullptr
         then (if value = [] then Some (ReplyErr 0, h', put (p', sz')) else None)
         else do {
           b \<leftarrow> h_mem h' p';
           b' \<leftarrow> memcpy_at (unat position) value b;
           Some (ReplyErr 0, h'\<lparr>h_mem := (h_mem h')(p' \<mapsto> b')\<rparr>, put (p', sz'))
         }
       })"

definition Inode_GetXAttrAndReply ::
    "string \<Rightarrow> size_t \<Rightarrow> u32 \<Rightarrow> heap \<times> Inode \<Rightarrow> reply option" where
  "Inode_GetXAttrAndReply name sz position = (\<lambda>(h, i).
     case map_of (m_xattr i) name of
       None \<Rightarrow> Some (ReplyErr ENODATA)
     | Some (p, len) \<Rightarrow>
         if sz = 0 then Some (ReplyXattr len)
         else if len > sz + ucast position then Some (ReplyErr ERANGE)
         else if p = nullptr then (if len = 0 then Some (ReplyBuf []) else None)
         else do {
           b \<leftarrow> h_mem h p;
           out \<leftarrow> mem_read (unat position) (unat len) b;
           Some (ReplyBuf out)
         })"

text \<open>The bytes of a name.\<close>

definition bytes_of_string :: "string \<Rightarrow> byte list" where
  "bytes_of_string s = map of_char s"

definition xattr_list_size :: "(string \<times> 'v) list \<Rightarrow> size_t" where
  "xattr_list_size xs = foldl (\<lambda>acc x. acc + (of_nat (length (fst x)) + 1)) 0 xs"

definition xattr_list_bytes :: "(string \<times> 'v) list \<Rightarrow> byte list" where
  "xattr_list_bytes xs = concat (map (\<lambda>x. bytes_of_string (fst x) @ [0]) xs)"

definition Inode_ListXAttrAndReply :: "env \<Rightarrow> size_t \<Rightarrow> Inode \<Rightarrow> reply option" where
  "Inode_ListXAttrAndReply e sz i =
     (let listSize = xattr_list_size (m_xattr i) in
      if sz = 0 then Some (ReplyXattr listSize)
      else if sz < listSize then Some (ReplyErr ERANGE)
      else if \<not> env_alloc e listSize then Some (ReplyErr ENOMEM)
      else if length (xattr_list_bytes (m_xattr i)) \<le> unat listSize
      then Some (ReplyBuf (xattr_list_bytes (m_xattr i))) else None)"

definition Inode_RemoveXAttrAndReply :: "string \<Rightarrow> Inode \<Rightarrow> reply \<times> Inode" where
  "Inode_RemoveXAttrAndReply name i =
     (case map_of (m_xattr i) name of
        None \<Rightarrow> (ReplyErr ENODATA, i)
      | Some _ \<Rightarrow> (ReplyErr 0, i\<lparr>m_xattr := map_erase name (m_xattr i)\<rparr>))"

end
