(* ===== verification/File.thy ===== *)
theory File
  imports Inode
begin

text \<open>
  Regular files (\<^verbatim>\<open>file.hpp\<close>, \<^verbatim>\<open>file.cpp\<close>): truncation, writing and reading a block-sized
  buffer, and the copy constructor. The abstract file is a byte list; the concrete operations
  refine it, never leave the buffer, and keep the block count in step with the global free
  block counter.
\<close>

section \<open>Operations\<close>

definition new_File :: "fuse_entry_param \<Rightarrow> Inode" where
  "new_File junk = new_Inode junk (File [])"

text \<open>
  \<^verbatim>\<open>File(const File &)\<close>: a fresh buffer of \<^verbatim>\<open>st_blocks * BufBlockSize\<close> bytes is filled from the
  source; a failed allocation ends the process.
\<close>

definition File_copy :: "env \<Rightarrow> Inode \<Rightarrow> Inode option" where
  "File_copy e i =
     (case m_obj i of
        File buf \<Rightarrow>
          (let bufsize = st_blocks (i_attr i) * BufBlockSize in
           if env_alloc e bufsize
           then do { b \<leftarrow> mem_read 0 (unat bufsize) buf; Some (i\<lparr>m_obj := File b\<rparr>) }
           else None)
      | _ \<Rightarrow> None)"

definition File_FileTruncate ::
    "env \<Rightarrow> size_t \<Rightarrow> statvfs \<times> Inode \<Rightarrow> (int \<times> statvfs \<times> Inode) option" where
  "File_FileTruncate e newSize = (\<lambda>(sb, i).
     case m_obj i of
       File buf \<Rightarrow>
         (let newBlocks = get_nblocks newSize BufBlockSize;
              oldBlocks = UsedBlocks i;
              oldSize = Size i
          in
          if \<not> CheckHasSpaceFor (Some (usage_of i)) (newSize - oldSize) sb
          then Some (- ENOSPC, sb, i)
          else
            case (if newBlocks \<noteq> oldBlocks
                  then (if newBlocks = 0 then Some []
                        else realloc_buf e buf (newBlocks * BufBlockSize))
                  else Some buf) of
              None \<Rightarrow> Some (EINVAL, sb, i)
            | Some newbuf \<Rightarrow> do {
                b \<leftarrow> (if newSize > oldSize
                     then memset_at (unat oldSize) 0 (unat (newSize - oldSize)) newbuf
                     else Some newbuf);
                Some (0, UpdateUsedBlocks (newBlocks - oldBlocks) sb,
                  upd_attr (\<lambda>a. touch_cm e (a\<lparr>st_blocks := newBlocks, st_size := newSize\<rparr>))
                    (i\<lparr>m_obj := File b\<rparr>))
              })
     | _ \<Rightarrow> None)"

text \<open>The block count that \<^verbatim>\<open>WriteAndReply\<close> computes by division and remainder.\<close>

definition write_blocks :: "size_t \<Rightarrow> size_t" where
  "write_blocks newSize =
     newSize div BufBlockSize + (if newSize mod BufBlockSize \<noteq> 0 then 1 else 0)"

text \<open>The data and its size are the byte list \<open>data\<close>.\<close>

definition File_WriteAndReply ::
    "env \<Rightarrow> byte list \<Rightarrow> off_t \<Rightarrow> statvfs \<times> Inode \<Rightarrow> (reply \<times> statvfs \<times> Inode) option" where
  "File_WriteAndReply e data off = (\<lambda>(sb, i).
     case m_obj i of
       File buf \<Rightarrow>
         (let sz = of_nat (length data);
              newSize = off + sz;
              oldSize = Size i;
              originalCapacity = BufBlockSize * UsedBlocks i;
              newBlocks = write_blocks newSize
          in
          if newSize > originalCapacity \<and>
             \<not> CheckHasSpaceFor (Some (usage_of i)) (newSize - Size i) sb
          then Some (ReplyErr ENOSPC, sb, i)
          else
            case (if newSize > originalCapacity
                  then realloc_buf e buf (newBlocks * BufBlockSize) else Some buf) of
              None \<Rightarrow> Some (ReplyWrite 0, sb, i)
            | Some newbuf \<Rightarrow> do {
                b1 \<leftarrow> (if off > oldSize
                      then memset_at (unat oldSize) 0 (unat (off - oldSize)) newbuf
                      else Some newbuf);
                b2 \<leftarrow> memcpy_at (unat off) data b1;
                let sb' = (if newSize > originalCapacity
                           then UpdateUsedBlocks (newBlocks - UsedBlocks i) sb else sb);
                let i1 = i\<lparr>m_obj := File b2\<rparr>;
                let i2 = (if newSize > oldSize
                          then upd_attr (\<lambda>a. a\<lparr>st_blocks := newBlocks, st_size := newSize\<rparr>) i1
                          else i1);
                Some (ReplyWrite sz, sb', upd_attr (touch_cm e) i2)
              })
     | _ \<Rightarrow> None)"

definition File_ReadAndReply ::
    "env \<Rightarrow> size_t \<Rightarrow> off_t \<Rightarrow> Inode \<Rightarrow> (reply \<times> Inode) option" where
  "File_ReadAndReply e sz off i =
     (case m_obj i of
        File buf \<Rightarrow>
          (let fsize = st_size (i_attr i) in
           if sint off > sint fsize then Some (ReplyBuf [], i)
           else
             let bytesRead = (if off + sz > fsize then fsize - off else sz) in
             do {
               out \<leftarrow> mem_read (unat off) (unat bytesRead) buf;
               Some (ReplyBuf out, upd_attr (\<lambda>a. a\<lparr>st_atim := env_now e\<rparr>) i)
             })
      | _ \<Rightarrow> None)"

section \<open>The abstract file\<close>

definition spec_write :: "nat \<Rightarrow> byte list \<Rightarrow> byte list \<Rightarrow> byte list" where
  "spec_write off d c =
     (let c' = c @ replicate (off - length c) 0
      in take off c' @ d @ drop (off + length d) c')"

definition spec_truncate :: "nat \<Rightarrow> byte list \<Rightarrow> byte list" where
  "spec_truncate n c = take n c @ replicate (n - length c) 0"

definition spec_read :: "nat \<Rightarrow> nat \<Rightarrow> byte list \<Rightarrow> byte list" where
  "spec_read off n c = take n (drop off c)"

lemma length_spec_write [simp]:
  "length (spec_write off d c) = max (length c) (off + length d)"
  by (simp add: spec_write_def Let_def)

lemma length_spec_truncate [simp]: "length (spec_truncate n c) = n"
  by (simp add: spec_truncate_def)

lemma nth_spec_write:
  "k < length (spec_write off d c) \<Longrightarrow>
   spec_write off d c ! k =
     (if off \<le> k \<and> k < off + length d then d ! (k - off)
      else if k < length c then c ! k else 0)"
  by (auto simp: spec_write_def Let_def nth_append min_def)

lemma nth_spec_truncate:
  "k < n \<Longrightarrow> spec_truncate n c ! k = (if k < length c then c ! k else 0)"
  by (auto simp: spec_truncate_def nth_append)

section \<open>Representation\<close>

definition file_ok :: "Inode \<Rightarrow> bool" where
  "file_ok i =
     (case m_obj i of
        File buf \<Rightarrow>
          length buf = 512 * unat (UsedBlocks i) \<and>
          unat (UsedBlocks i) = blocks_for (unat (Size i)) \<and>
          unat (Size i) < 2 ^ 63
      | _ \<Rightarrow> False)"

definition file_data :: "Inode \<Rightarrow> byte list" where
  "file_data i = (case m_obj i of File buf \<Rightarrow> take (unat (Size i)) buf | _ \<Rightarrow> [])"

lemma file_okE:
  assumes "file_ok i"
  obtains buf where "m_obj i = File buf" "length buf = 512 * unat (UsedBlocks i)"
    "unat (UsedBlocks i) = blocks_for (unat (Size i))" "unat (Size i) < 2 ^ 63"
    "unat (Size i) \<le> length buf" "file_data i = take (unat (Size i)) buf"
  using assms blocks_for_ge
  by (cases "m_obj i") (auto simp: file_ok_def file_data_def)

lemma length_file_data: "file_ok i \<Longrightarrow> length (file_data i) = unat (Size i)"
  by (erule file_okE) simp

section \<open>Refinement\<close>

text \<open>The list part: filling the hole and then the data implements \<open>spec_write\<close>.\<close>

lemma blit_refines_write:
  assumes "n \<le> length b" "off + length d \<le> length b"
  shows "take (max n (off + length d))
           (blit off d (if off > n then blit n (replicate (off - n) 0) b else b)) =
         spec_write off d (take n b)"
  using assms
  by (intro nth_equalityI) (auto simp: nth_blit nth_spec_write)

lemma blit_refines_truncate:
  assumes "n \<le> length b" "m \<le> length b"
  shows "take m (if n < m then blit n (replicate (m - n) 0) b else b) =
         spec_truncate m (take n b)"
  using assms
  by (intro nth_equalityI) (auto simp: nth_blit nth_spec_truncate)

lemma unat_write_blocks:
  assumes "unat s < 2 ^ 63"
  shows "unat (write_blocks s) = blocks_for (unat s)"
proof -
  let ?q = "unat s div 512" and ?r = "unat s mod 512"
  have q: "unat (s div BufBlockSize) = ?q" and r: "unat (s mod BufBlockSize) = ?r"
    by (simp_all add: BufBlockSize_def unat_div_64 unat_mod_64)
  have z: "s mod BufBlockSize = 0 \<longleftrightarrow> ?r = 0"
    using r by (metis unat_0_iff)
  have b: "blocks_for (unat s) = ?q + (if ?r \<noteq> 0 then 1 else 0)"
    by (rule blocks_for_div_mod)
  have "?q < 2 ^ 63" using assms by simp
  then show ?thesis
    by (auto simp: write_blocks_def z b q unat_add_64)
qed

text \<open>Fields that file operations leave alone.\<close>

definition same_identity :: "Inode \<Rightarrow> Inode \<Rightarrow> bool" where
  "same_identity i j \<longleftrightarrow>
     m_nlookup j = m_nlookup i \<and> m_xattr j = m_xattr i \<and>
     m_markedForDeletion j = m_markedForDeletion i \<and>
     st_ino (i_attr j) = st_ino (i_attr i) \<and> st_mode (i_attr j) = st_mode (i_attr i) \<and>
     st_nlink (i_attr j) = st_nlink (i_attr i) \<and> st_uid (i_attr j) = st_uid (i_attr i) \<and>
     st_gid (i_attr j) = st_gid (i_attr i)"

text \<open>What the size and block words of a write are on natural numbers.\<close>

lemma write_words:
  fixes off :: off_t
  assumes ok: "file_ok i" and bound: "unat off + length d < 2 ^ 63"
  shows "unat (off + of_nat (length d)) = unat off + length d"
    and "unat (BufBlockSize * UsedBlocks i) = 512 * blocks_for (unat (Size i))"
proof -
  show "unat (off + of_nat (length d)) = unat off + length d"
    using bound by (subst unat_add_64) (simp_all add: unat_of_nat_64)
  from ok have b: "unat (UsedBlocks i) = blocks_for (unat (Size i))" and s: "unat (Size i) < 2 ^ 63"
    by (auto elim: file_okE)
  have "512 * blocks_for (unat (Size i)) < 2 ^ 64" using s by (rule blocks_for_small)
  with b show "unat (BufBlockSize * UsedBlocks i) = 512 * blocks_for (unat (Size i))"
    by (subst unat_mult_64) (simp_all add: BufBlockSize_def)
qed

lemma blocks_for_within:
  "m \<le> n \<Longrightarrow> n \<le> 512 * blocks_for m \<Longrightarrow> blocks_for n = blocks_for m"
  using blocks_for_least [of n] blocks_for_mono [of m n] by (simp add: antisym)

lemma file_write_error:
  assumes ok: "file_ok i" and bound: "unat off + length d < 2 ^ 63"
    and grow: "512 * blocks_for (unat (Size i)) < unat off + length d"
    and full: "\<not> CheckHasSpaceFor (Some (usage_of i)) (off + of_nat (length d) - Size i) sb"
  shows "File_WriteAndReply e d off (sb, i) = Some (ReplyErr ENOSPC, sb, i)"
  using ok grow full write_words [OF ok bound]
  by (auto elim!: file_okE simp: File_WriteAndReply_def word_less_nat_alt)

text \<open>The buffer a write works on: long enough, and unchanged below the old size.\<close>

lemma write_buffer:
  fixes off :: off_t
  assumes ok: "file_ok i" and obj: "m_obj i = File buf" and bound: "unat off + length d < 2 ^ 63"
    and room: "unat off + length d \<le> 512 * blocks_for (unat (Size i)) \<or>
      env_alloc e (of_nat (512 * blocks_for (unat off + length d)))"
  obtains b where
    "(if BufBlockSize * UsedBlocks i < off + of_nat (length d)
      then realloc_buf e buf (write_blocks (off + of_nat (length d)) * BufBlockSize)
      else Some buf) = Some b"
    "length b = 512 * blocks_for (max (unat (Size i)) (unat off + length d))"
    "take (unat (Size i)) b = file_data i"
proof -
  let ?S = "unat (Size i)" and ?n = "unat off + length d"
  let ?nb = "write_blocks (off + of_nat (length d)) * BufBlockSize"
  from ok obj have len: "length buf = 512 * blocks_for ?S" and dat: "file_data i = take ?S buf"
    by (auto elim: file_okE)
  note w = write_words [OF ok bound]
  have "unat (write_blocks (off + of_nat (length d))) = blocks_for ?n"
    using bound by (simp add: unat_write_blocks w)
  then have nbs: "unat ?nb = 512 * blocks_for ?n"
    using blocks_for_small [OF bound] by (subst unat_mult_64) (simp_all add: BufBlockSize_def)
  have S: "?S \<le> 512 * blocks_for ?S" by (rule blocks_for_ge)
  show ?thesis
  proof (cases "512 * blocks_for ?S < ?n")
    case True
    have "of_nat (512 * blocks_for ?n) = ?nb"
      using arg_cong [OF nbs, of "of_nat :: nat \<Rightarrow> u64"] by simp
    with True room obtain b where b: "realloc_buf e buf ?nb = Some b"
      by (auto simp: realloc_buf_def)
    have "length b = 512 * blocks_for (max ?S ?n)"
      using length_realloc_buf [OF b] nbs True S by (simp add: max_def)
    moreover have "take ?S b = file_data i"
      using take_realloc_buf [OF b, of ?S] S True blocks_for_ge [of ?n] by (simp add: len nbs dat)
    ultimately show ?thesis using that [of b] b True w by (simp add: word_less_nat_alt)
  next
    case False
    then have "blocks_for (max ?S ?n) = blocks_for ?S"
      using blocks_for_within [of ?S ?n] by (auto simp: max_def)
    with that [of buf] False show ?thesis by (simp add: word_less_nat_alt w len dat)
  qed
qed

text \<open>Filling the hole and copying the data, on the buffer.\<close>

lemma write_copy:
  fixes off :: off_t
  assumes fits: "max (unat (Size i)) (unat off + length d) \<le> length b"
    and dat: "take (unat (Size i)) b = file_data i"
  obtains b1 b2 where
    "(if Size i < off then memset_at (unat (Size i)) 0 (unat (off - Size i)) b else Some b) = Some b1"
    "memcpy_at (unat off) d b1 = Some b2" "length b2 = length b"
    "take (max (unat (Size i)) (unat off + length d)) b2 = spec_write (unat off) d (file_data i)"
proof -
  let ?S = "unat (Size i)"
  let ?b1 = "if ?S < unat off then blit ?S (replicate (unat off - ?S) 0) b else b"
  let ?b2 = "blit (unat off) d ?b1"
  have l: "length ?b1 = length b" using fits by auto
  have "(if Size i < off then memset_at ?S 0 (unat (off - Size i)) b else Some b) = Some ?b1"
    using fits by (auto simp: memset_at_def word_less_nat_alt unat_diff_64 word_le_nat_alt)
  moreover have "memcpy_at (unat off) d ?b1 = Some ?b2" using fits l by (simp add: memcpy_at_def)
  moreover have "length ?b2 = length b" using fits l by simp
  moreover have "take (max ?S (unat off + length d)) ?b2 = spec_write (unat off) d (file_data i)"
    using blit_refines_write [of ?S b "unat off" d] fits dat by simp
  ultimately show ?thesis by (rule that)
qed

text \<open>The blocks charged to the file system are the blocks the file gained.\<close>

lemma write_account:
  fixes off :: off_t
  assumes ok: "file_ok i" and bound: "unat off + length d < 2 ^ 63"
    and B': "UsedBlocks i' = (if Size i < off + of_nat (length d) then write_blocks (off + of_nat (length d)) else UsedBlocks i)"
  shows "unat (UsedBlocks i') = blocks_for (max (unat (Size i)) (unat off + length d))"
    "(if BufBlockSize * UsedBlocks i < off + of_nat (length d)
      then UpdateUsedBlocks (write_blocks (off + of_nat (length d)) - UsedBlocks i) sb else sb) =
     UpdateUsedBlocks (UsedBlocks i' - UsedBlocks i) sb"
proof -
  let ?S = "unat (Size i)" and ?n = "unat off + length d" and ?new = "off + of_nat (length d)"
  note w = write_words [OF ok bound]
  have blk: "unat (UsedBlocks i) = blocks_for ?S" using ok by (auto elim: file_okE)
  have wb: "unat (write_blocks ?new) = blocks_for ?n" using bound by (simp add: unat_write_blocks w)
  show u: "unat (UsedBlocks i') = blocks_for (max ?S ?n)"
    using wb blk by (auto simp: B' w word_less_nat_alt max_def)
  show "(if BufBlockSize * UsedBlocks i < ?new then UpdateUsedBlocks (write_blocks ?new - UsedBlocks i) sb else sb) =
     UpdateUsedBlocks (UsedBlocks i' - UsedBlocks i) sb"
  proof (cases "512 * blocks_for ?S < ?n")
    case True
    with blocks_for_ge [of ?S] have "Size i < ?new" by (simp add: word_less_nat_alt w)
    with True show ?thesis by (simp add: word_less_nat_alt w B')
  next
    case False
    then have "UsedBlocks i' = UsedBlocks i"
      using u blk blocks_for_within [of ?S ?n] unfolding word_unat_eq_iff by (auto simp: max_def)
    with False show ?thesis by (simp add: word_less_nat_alt w)
  qed
qed

lemma file_write_ok:
  assumes ok: "file_ok i" and bound: "unat off + length d < 2 ^ 63"
    and room: "unat off + length d \<le> 512 * blocks_for (unat (Size i)) \<or>
      CheckHasSpaceFor (Some (usage_of i)) (off + of_nat (length d) - Size i) sb \<and>
      env_alloc e (of_nat (512 * blocks_for (unat off + length d)))"
  obtains sb' i' where
    "File_WriteAndReply e d off (sb, i) = Some (ReplyWrite (of_nat (length d)), sb', i')"
    "file_ok i'" "file_data i' = spec_write (unat off) d (file_data i)"
    "sb' = UpdateUsedBlocks (UsedBlocks i' - UsedBlocks i) sb" "same_identity i i'"
proof -
  let ?S = "unat (Size i)" and ?n = "unat off + length d"
  let ?new = "off + of_nat (length d)"
  from ok obtain buf where obj: "m_obj i = File buf" and sz: "?S < 2 ^ 63" by (auto elim: file_okE)
  from ok obj bound room obtain b where
    src: "(if BufBlockSize * UsedBlocks i < ?new
      then realloc_buf e buf (write_blocks ?new * BufBlockSize) else Some buf) = Some b"
    and blen: "length b = 512 * blocks_for (max ?S ?n)" and bdat: "take ?S b = file_data i"
    using write_buffer [OF ok obj bound] by blast
  note w = write_words [OF ok bound]
  have room': "\<not> (BufBlockSize * UsedBlocks i < ?new \<and>
      \<not> CheckHasSpaceFor (Some (usage_of i)) (?new - Size i) sb)"
    using room by (auto simp: word_less_nat_alt w)
  have fits: "max ?S ?n \<le> length b" using blen blocks_for_ge by simp
  obtain b1 b2 where hole: "(if Size i < off then memset_at ?S 0 (unat (off - Size i)) b else Some b) = Some b1"
    and data: "memcpy_at (unat off) d b1 = Some b2" and b2: "length b2 = length b"
      "take (max ?S ?n) b2 = spec_write (unat off) d (file_data i)"
    by (rule write_copy [OF fits bdat])
  define i' where "i' = upd_attr (touch_cm e) (if Size i < ?new
     then upd_attr (\<lambda>a. a\<lparr>st_blocks := write_blocks ?new, st_size := ?new\<rparr>) (i\<lparr>m_obj := File b2\<rparr>)
     else i\<lparr>m_obj := File b2\<rparr>)"
  have run: "File_WriteAndReply e d off (sb, i) = Some (ReplyWrite (of_nat (length d)),
      if BufBlockSize * UsedBlocks i < ?new then UpdateUsedBlocks (write_blocks ?new - UsedBlocks i) sb else sb, i')"
    by (simp only: File_WriteAndReply_def Let_def prod.case obj inode_obj.case
        if_not_P [OF room'] src hole data option.case Option.bind.simps i'_def)
  have S': "unat (Size i') = max ?S ?n" by (auto simp: i'_def Size_def w word_less_nat_alt)
  have "UsedBlocks i' = (if Size i < ?new then write_blocks ?new else UsedBlocks i)"
    by (simp add: i'_def UsedBlocks_def Size_def)
  note acc = write_account [OF ok bound this]
  have obj': "m_obj i' = File b2" by (simp add: i'_def)
  have "file_ok i'" using sz bound fits b2 by (simp add: file_ok_def obj' acc(1) S' blen)
  moreover have "file_data i' = spec_write (unat off) d (file_data i)" by (simp add: file_data_def obj' S' b2)
  moreover have "same_identity i i'" by (simp add: same_identity_def i'_def)
  ultimately show ?thesis using that [OF run _ _ acc(2)] by simp
qed

text \<open>Truncation, on the same pattern.\<close>

lemma truncate_buffer:
  assumes ok: "file_ok i" and obj: "m_obj i = File buf" and bound: "unat n < 2 ^ 63"
    and room: "blocks_for (unat n) = blocks_for (unat (Size i)) \<or> blocks_for (unat n) = 0 \<or>
      env_alloc e (of_nat (512 * blocks_for (unat n)))"
  obtains b where
    "(if get_nblocks n BufBlockSize \<noteq> UsedBlocks i
      then (if get_nblocks n BufBlockSize = 0 then Some []
            else realloc_buf e buf (get_nblocks n BufBlockSize * BufBlockSize))
      else Some buf) = Some b"
    "length b = 512 * blocks_for (unat n)"
    "take (min (unat n) (unat (Size i))) b = take (unat n) (file_data i)"
proof -
  let ?S = "unat (Size i)" and ?nb = "get_nblocks n BufBlockSize"
  from ok obj have len: "length buf = 512 * blocks_for ?S" and dat: "file_data i = take ?S buf"
    and blk: "unat (UsedBlocks i) = blocks_for ?S"
    by (auto elim: file_okE)
  have nb: "unat ?nb = blocks_for (unat n)" using bound by (rule unat_get_nblocks)
  have nbs: "unat (?nb * BufBlockSize) = 512 * blocks_for (unat n)"
    using blocks_for_small [OF bound] nb by (subst unat_mult_64) (simp_all add: BufBlockSize_def)
  have same: "?nb = UsedBlocks i \<longleftrightarrow> blocks_for (unat n) = blocks_for ?S"
    and zero: "?nb = 0 \<longleftrightarrow> blocks_for (unat n) = 0"
    using nb blk by (simp_all add: word_unat_eq_iff)
  consider (same) "blocks_for (unat n) = blocks_for ?S"
    | (zero) "blocks_for (unat n) \<noteq> blocks_for ?S" "blocks_for (unat n) = 0"
    | (move) "blocks_for (unat n) \<noteq> blocks_for ?S" "blocks_for (unat n) \<noteq> 0"
    by blast
  then show ?thesis
  proof cases
    case same
    with that [of buf] show ?thesis by (simp add: \<open>(?nb = UsedBlocks i) = _\<close> len dat min.commute)
  next
    case zero
    then have "unat n = 0" using blocks_for_ge [of "unat n"] by simp
    with that [of "[]"] zero show ?thesis
      by (simp add: \<open>(?nb = UsedBlocks i) = _\<close> \<open>(?nb = 0) = _\<close>)
  next
    case move
    have "of_nat (512 * blocks_for (unat n)) = ?nb * BufBlockSize"
      using arg_cong [OF nbs, of "of_nat :: nat \<Rightarrow> u64"] by simp
    with move room obtain b where b: "realloc_buf e buf (?nb * BufBlockSize) = Some b"
      by (auto simp: realloc_buf_def)
    have "take (min (unat n) ?S) b = take (unat n) (file_data i)"
      using take_realloc_buf [OF b, of "min (unat n) ?S"] blocks_for_ge [of "unat n"]
        blocks_for_ge [of ?S] by (simp add: len nbs dat)
    with that [of b] b move length_realloc_buf [OF b] nbs show ?thesis
      by (simp add: \<open>(?nb = UsedBlocks i) = _\<close> \<open>(?nb = 0) = _\<close>)
  qed
qed

lemma file_truncate_ok:
  assumes ok: "file_ok i" and bound: "unat n < 2 ^ 63"
    and space: "CheckHasSpaceFor (Some (usage_of i)) (n - Size i) sb"
    and room: "blocks_for (unat n) = blocks_for (unat (Size i)) \<or> blocks_for (unat n) = 0 \<or>
      env_alloc e (of_nat (512 * blocks_for (unat n)))"
  obtains sb' i' where
    "File_FileTruncate e n (sb, i) = Some (0, sb', i')"
    "file_ok i'" "file_data i' = spec_truncate (unat n) (file_data i)"
    "sb' = UpdateUsedBlocks (UsedBlocks i' - UsedBlocks i) sb" "same_identity i i'"
proof -
  let ?S = "unat (Size i)" and ?nb = "get_nblocks n BufBlockSize"
  from ok obtain buf where obj: "m_obj i = File buf" by (auto elim: file_okE)
  from truncate_buffer [OF ok obj bound room] obtain b where
    src: "(if ?nb \<noteq> UsedBlocks i then (if ?nb = 0 then Some []
            else realloc_buf e buf (?nb * BufBlockSize)) else Some buf) = Some b"
    and len: "length b = 512 * blocks_for (unat n)"
    and dat: "take (min (unat n) ?S) b = take (unat n) (file_data i)"
    by blast
  have fits: "unat n \<le> length b" using len blocks_for_ge by simp
  let ?b = "if ?S < unat n then blit ?S (replicate (unat n - ?S) 0) b else b"
  have fill: "(if Size i < n then memset_at ?S 0 (unat (n - Size i)) b else Some b) = Some ?b"
    using fits by (auto simp: memset_at_def word_less_nat_alt unat_diff_64 word_le_nat_alt)
  define i' where "i' = upd_attr (\<lambda>a. touch_cm e (a\<lparr>st_blocks := ?nb, st_size := n\<rparr>))
    (i\<lparr>m_obj := File ?b\<rparr>)"
  have run: "File_FileTruncate e n (sb, i) = Some (0, UpdateUsedBlocks (?nb - UsedBlocks i) sb, i')"
    by (simp only: File_FileTruncate_def Let_def prod.case obj inode_obj.case
        if_not_P [OF not_not [THEN iffD2, OF space]] src fill option.case Option.bind.simps i'_def)
  have f: "Size i' = n" "UsedBlocks i' = ?nb" "m_obj i' = File ?b"
    by (simp_all add: i'_def Size_def UsedBlocks_def)
  have ok': "file_ok i'"
    using bound len fits by (auto simp: file_ok_def f unat_get_nblocks)
  have dat': "file_data i' = spec_truncate (unat n) (file_data i)"
  proof (intro nth_equalityI)
    show "length (file_data i') = length (spec_truncate (unat n) (file_data i))"
      using ok' by (simp add: length_file_data f)
    fix k assume "k < length (file_data i')"
    then have k: "k < unat n" using ok' by (simp add: length_file_data f)
    have old: "k < ?S \<Longrightarrow> b ! k = file_data i ! k"
      using arg_cong [OF dat, of "\<lambda>xs. xs ! k"] k by simp
    show "file_data i' ! k = spec_truncate (unat n) (file_data i) ! k"
      using k fits old ok
      by (auto simp: file_data_def [of i'] f nth_blit nth_spec_truncate length_file_data)
  qed
  have id: "same_identity i i'" by (simp add: same_identity_def i'_def)
  have sb': "UpdateUsedBlocks (?nb - UsedBlocks i) sb = UpdateUsedBlocks (UsedBlocks i' - UsedBlocks i) sb"
    by (simp add: f)
  from that [OF run ok' dat' sb' id] show ?thesis .
qed

lemma file_read_ok:
  assumes ok: "file_ok i" and bound: "unat off + unat n < 2 ^ 63"
  shows "\<exists>i'. File_ReadAndReply e n off i =
      Some (ReplyBuf (spec_read (unat off) (unat n) (file_data i)), i') \<and>
    file_ok i' \<and> file_data i' = file_data i \<and> same_identity i i'"
proof -
  let ?S = "unat (Size i)"
  from ok obtain buf where obj: "m_obj i = File buf" and sz: "?S < 2 ^ 63"
    and le: "?S \<le> length buf" and dat: "file_data i = take ?S buf"
    by (rule file_okE)
  have so: "sint off = int (unat off)" and ss: "sint (Size i) = int ?S"
    using bound sz by (intro sint_nonneg_64, simp)+
  have ge: "sint (st_size (i_attr i)) < sint off \<longleftrightarrow> ?S < unat off"
    using so ss unfolding Size_def by (metis of_nat_less_iff)
  show ?thesis
  proof (cases "?S < unat off")
    case True
    then show ?thesis
      using ok ge by (simp add: File_ReadAndReply_def obj dat spec_read_def same_identity_def)
  next
    case False
    let ?i' = "upd_attr (\<lambda>a. a\<lparr>st_atim := env_now e\<rparr>) i"
    let ?m = "if off + n > Size i then Size i - off else n"
    have sum: "unat (off + n) = unat off + unat n" using bound by (intro unat_add_64) simp
    have m: "unat ?m = min (unat n) (?S - unat off)"
      using False by (auto simp: word_less_nat_alt sum unat_diff_64 word_le_nat_alt)
    have rd: "mem_read (unat off) (unat ?m) buf =
        Some (spec_read (unat off) (unat n) (file_data i))"
      using False le by (auto simp: mem_read_def m spec_read_def dat min_def drop_take)
    have "File_ReadAndReply e n off i =
        Some (ReplyBuf (spec_read (unat off) (unat n) (file_data i)), ?i')"
      using rd ge False unfolding Size_def by (simp add: File_ReadAndReply_def obj Let_def)
    moreover have "file_ok ?i' \<and> file_data ?i' = file_data i \<and> same_identity i ?i'"
      using ok obj by (simp add: file_ok_def file_data_def Size_def UsedBlocks_def same_identity_def)
    ultimately show ?thesis by blast
  qed
qed

lemma file_copy_ok:
  assumes "file_ok i" and "env_alloc e (st_blocks (i_attr i) * BufBlockSize)"
  shows "File_copy e i = Some i"
proof -
  from assms(1) obtain buf where obj: "m_obj i = File buf"
    and len: "length buf = 512 * unat (UsedBlocks i)"
    and b: "unat (UsedBlocks i) = blocks_for (unat (Size i))" and s: "unat (Size i) < 2 ^ 63"
    by (rule file_okE)
  have "unat (st_blocks (i_attr i) * BufBlockSize) = length buf"
    using blocks_for_small [OF s] b len
    by (subst unat_mult_64) (simp_all add: BufBlockSize_def UsedBlocks_def)
  then show ?thesis using assms(2) obj by (simp add: File_copy_def mem_read_def)
qed

lemma file_write_no_memory:
  assumes ok: "file_ok i" and bound: "unat off + length d < 2 ^ 63"
    and grow: "512 * blocks_for (unat (Size i)) < unat off + length d"
    and space: "CheckHasSpaceFor (Some (usage_of i)) (off + of_nat (length d) - Size i) sb"
    and mem: "\<not> env_alloc e (of_nat (512 * blocks_for (unat off + length d)))"
  shows "File_WriteAndReply e d off (sb, i) = Some (ReplyWrite 0, sb, i)"
proof -
  let ?nb = "write_blocks (off + of_nat (length d))"
  note w = write_words [OF ok bound]
  have "unat ?nb = blocks_for (unat off + length d)"
    using bound by (simp add: unat_write_blocks w)
  then have "unat (?nb * BufBlockSize) = 512 * blocks_for (unat off + length d)"
    using blocks_for_small [OF bound] by (subst unat_mult_64) (simp_all add: BufBlockSize_def)
  from arg_cong [OF this, of "of_nat :: nat \<Rightarrow> u64"] mem
  have "realloc_buf e buf (?nb * BufBlockSize) = None" for buf
    by (simp add: realloc_buf_def)
  with ok grow space w show ?thesis
    by (auto elim!: file_okE simp: File_WriteAndReply_def word_less_nat_alt)
qed

section \<open>Interface: a byte file\<close>

text \<open>
  What a client of a file may rely on. \<open>wr\<close>, \<open>tr\<close> and \<open>rd\<close> relate a file to the result of a
  successful write, truncation or read.
\<close>

locale byte_file =
  fixes invar :: "'f \<Rightarrow> bool" and content :: "'f \<Rightarrow> byte list"
    and wr :: "nat \<Rightarrow> byte list \<Rightarrow> 'f \<Rightarrow> 'f \<Rightarrow> bool"
    and tr :: "nat \<Rightarrow> 'f \<Rightarrow> 'f \<Rightarrow> bool"
    and rd :: "nat \<Rightarrow> nat \<Rightarrow> 'f \<Rightarrow> byte list \<Rightarrow> bool"
  assumes wr_content: "invar f \<Longrightarrow> wr off d f f' \<Longrightarrow> content f' = spec_write off d (content f)"
    and wr_invar: "invar f \<Longrightarrow> wr off d f f' \<Longrightarrow> invar f'"
    and tr_content: "invar f \<Longrightarrow> tr n f f' \<Longrightarrow> content f' = spec_truncate n (content f)"
    and tr_invar: "invar f \<Longrightarrow> tr n f f' \<Longrightarrow> invar f'"
    and rd_content: "invar f \<Longrightarrow> rd off n f out \<Longrightarrow> out = spec_read off n (content f)"
begin

lemma read_after_write:
  assumes "invar f" "wr off d f f'" "rd off (length d) f' out"
  shows "out = d"
proof -
  have "out = spec_read off (length d) (spec_write off d (content f))"
    using assms wr_content wr_invar rd_content by metis
  then show ?thesis by (simp add: spec_read_def spec_write_def Let_def)
qed

lemma read_before_write_range:
  assumes "invar f" "wr off d f f'" "k + n \<le> off" "k + n \<le> length (content f)"
    "rd k n f out" "rd k n f' out'"
  shows "out' = out"
proof -
  have o: "out = spec_read k n (content f)"
    and o': "out' = spec_read k n (spec_write off d (content f))"
    using assms wr_content wr_invar rd_content by metis+
  from assms(3,4) show ?thesis
    unfolding o o' by (intro nth_equalityI) (auto simp: spec_read_def nth_spec_write)
qed

lemma hole_reads_zero:
  assumes "invar f" "wr off d f f'" "length (content f) \<le> k" "k + n \<le> off" "rd k n f' out"
  shows "out = replicate n 0"
proof -
  have o: "out = spec_read k n (spec_write off d (content f))"
    using assms wr_content wr_invar rd_content by metis
  from assms(3,4) show ?thesis
    unfolding o by (intro nth_equalityI) (auto simp: spec_read_def nth_spec_write)
qed

lemma shrink_then_grow_reads_zero:
  assumes "invar f" "tr m f f'" "tr n f' f''" "m \<le> n" "rd m (n - m) f'' out"
  shows "out = replicate (n - m) 0"
proof -
  have f'': "invar f''" using assms tr_invar by metis
  have "content f'' = spec_truncate n (spec_truncate m (content f))"
    using assms tr_content tr_invar by metis
  with f'' assms(5) have o: "out = spec_read m (n - m) (spec_truncate n (spec_truncate m (content f)))"
    using rd_content by metis
  from assms(4) show ?thesis
    unfolding o by (intro nth_equalityI) (auto simp: spec_read_def nth_spec_truncate)
qed

end

text \<open>Successful calls of the three operations of \<^verbatim>\<open>File\<close>, on in-range arguments.\<close>

definition file_wrote :: "nat \<Rightarrow> byte list \<Rightarrow> Inode \<Rightarrow> Inode \<Rightarrow> bool" where
  "file_wrote off d i i' \<longleftrightarrow> off + length d < 2 ^ 63 \<and> d \<noteq> [] \<and>
     (\<exists>e sb sb'. File_WriteAndReply e d (of_nat off) (sb, i) =
        Some (ReplyWrite (of_nat (length d)), sb', i'))"

definition file_truncated :: "nat \<Rightarrow> Inode \<Rightarrow> Inode \<Rightarrow> bool" where
  "file_truncated n i i' \<longleftrightarrow> n < 2 ^ 63 \<and>
     (\<exists>e sb sb'. File_FileTruncate e (of_nat n) (sb, i) = Some (0, sb', i'))"

definition file_has_read :: "nat \<Rightarrow> nat \<Rightarrow> Inode \<Rightarrow> byte list \<Rightarrow> bool" where
  "file_has_read off n i out \<longleftrightarrow> off + n < 2 ^ 63 \<and>
     (\<exists>e i'. File_ReadAndReply e (of_nat n) (of_nat off) i = Some (ReplyBuf out, i'))"

lemma file_truncate_fails:
  assumes "file_ok i" "unat n < 2 ^ 63"
    "\<not> (blocks_for (unat n) = blocks_for (unat (Size i)) \<or> blocks_for (unat n) = 0 \<or>
      env_alloc e (of_nat (512 * blocks_for (unat n))))"
    "CheckHasSpaceFor (Some (usage_of i)) (n - Size i) sb"
  shows "File_FileTruncate e n (sb, i) = Some (EINVAL, sb, i)"
proof -
  let ?nb = "get_nblocks n BufBlockSize"
  have nb: "unat ?nb = blocks_for (unat n)" using assms(2) by (rule unat_get_nblocks)
  have "unat (?nb * BufBlockSize) = 512 * blocks_for (unat n)"
    using blocks_for_small [OF assms(2)] nb by (subst unat_mult_64) (simp_all add: BufBlockSize_def)
  from arg_cong [OF this, of "of_nat :: nat \<Rightarrow> u64"] assms(3)
  have "realloc_buf e buf (?nb * BufBlockSize) = None" for buf
    by (simp add: realloc_buf_def)
  moreover have "?nb \<noteq> UsedBlocks i" "?nb \<noteq> 0"
    using assms(1,3) nb by (auto elim!: file_okE simp: word_unat_eq_iff)
  ultimately show ?thesis
    using assms(1,4) by (auto elim!: file_okE simp: File_FileTruncate_def)
qed

lemma file_truncate_no_space:
  "file_ok i \<Longrightarrow> \<not> CheckHasSpaceFor (Some (usage_of i)) (n - Size i) sb \<Longrightarrow>
   File_FileTruncate e n (sb, i) = Some (- ENOSPC, sb, i)"
  by (auto elim!: file_okE simp: File_FileTruncate_def)

lemma file_wroteD:
  assumes ok: "file_ok i" and wrote: "file_wrote off d i i'"
  shows "file_ok i' \<and> file_data i' = spec_write off d (file_data i)"
proof -
  from wrote obtain e sb sb' where b: "off + length d < 2 ^ 63" and d: "d \<noteq> []"
    and run: "File_WriteAndReply e d (of_nat off) (sb, i) =
        Some (ReplyWrite (of_nat (length d)), sb', i')"
    by (auto simp: file_wrote_def)
  have o: "unat (of_nat off :: u64) = off" using b by (simp add: unat_of_nat_64)
  have b': "unat (of_nat off :: u64) + length d < 2 ^ 63" using b by (simp only: o)
  have nz: "(of_nat (length d) :: u64) \<noteq> 0"
    using b d unat_of_nat_64 [of "length d"] by (auto simp: word_unat_eq_iff)
  show ?thesis
  proof (cases "off + length d \<le> 512 * blocks_for (unat (Size i)) \<or>
      CheckHasSpaceFor (Some (usage_of i)) (of_nat off + of_nat (length d) - Size i) sb \<and>
      env_alloc e (of_nat (512 * blocks_for (off + length d)))")
    case True
    from file_write_ok [OF ok b', of sb e, unfolded o, OF True] obtain sb1 i1 where
      "File_WriteAndReply e d (of_nat off) (sb, i) = Some (ReplyWrite (of_nat (length d)), sb1, i1)"
      "file_ok i1" "file_data i1 = spec_write off d (file_data i)" by blast
    with run show ?thesis by simp
  next
    case False
    then have grow: "512 * blocks_for (unat (Size i)) < off + length d" by simp
    show ?thesis
    proof (cases "CheckHasSpaceFor (Some (usage_of i)) (of_nat off + of_nat (length d) - Size i) sb")
      case True
      with False have "\<not> env_alloc e (of_nat (512 * blocks_for (off + length d)))" by simp
      from file_write_no_memory [OF ok b', unfolded o, OF grow True this] run nz show ?thesis by simp
    next
      case False
      from file_write_error [OF ok b', unfolded o, OF grow False, of e] run show ?thesis by simp
    qed
  qed
qed

lemma file_truncatedD:
  assumes ok: "file_ok i" and truncated: "file_truncated n i i'"
  shows "file_ok i' \<and> file_data i' = spec_truncate n (file_data i)"
proof -
  from truncated obtain e sb sb' where b: "n < 2 ^ 63"
    and run: "File_FileTruncate e (of_nat n) (sb, i) = Some (0, sb', i')"
    by (auto simp: file_truncated_def)
  have o: "unat (of_nat n :: u64) = n" using b by (simp add: unat_of_nat_64)
  have b': "unat (of_nat n :: u64) < 2 ^ 63" using b by (simp only: o)
  have space: "CheckHasSpaceFor (Some (usage_of i)) (of_nat n - Size i) sb"
    using run file_truncate_no_space [OF ok, of "of_nat n" sb e] by (cases) auto
  have room: "blocks_for n = blocks_for (unat (Size i)) \<or> blocks_for n = 0 \<or>
      env_alloc e (of_nat (512 * blocks_for n))"
    using run file_truncate_fails [OF ok b', of e sb, unfolded o] space by fastforce
  from file_truncate_ok [OF ok b' space, of e, unfolded o, OF room] obtain sb1 i1 where
    "File_FileTruncate e (of_nat n) (sb, i) = Some (0, sb1, i1)"
    "file_ok i1" "file_data i1 = spec_truncate n (file_data i)" by blast
  with run show ?thesis by simp
qed

lemma file_has_readD:
  assumes ok: "file_ok i" and r: "file_has_read off n i out"
  shows "out = spec_read off n (file_data i)"
proof -
  from r obtain e i' where b: "off + n < 2 ^ 63"
    and run: "File_ReadAndReply e (of_nat n) (of_nat off) i = Some (ReplyBuf out, i')"
    by (auto simp: file_has_read_def)
  have o: "unat (of_nat off :: u64) = off" "unat (of_nat n :: u64) = n"
    using b by (simp_all add: unat_of_nat_64)
  have "unat (of_nat off :: u64) + unat (of_nat n :: u64) < 2 ^ 63" using b by (simp only: o)
  from file_read_ok [OF ok this, of e] run show ?thesis by (auto simp: o)
qed

interpretation fs_file: byte_file file_ok file_data file_wrote file_truncated file_has_read
  by unfold_locales (blast dest: file_wroteD file_truncatedD file_has_readD)+

end
