(* ===== verification/Directory.thy ===== *)
theory Directory
  imports Inode
begin

text \<open>
  Directories (\<^verbatim>\<open>directory.hpp\<close>, \<^verbatim>\<open>directory.cpp\<close>): a vector of (name, inode number) pairs with
  linear search, and the size bookkeeping that charges every entry to the directory and to the
  free block counter. The \<^verbatim>\<open>_X\<close> methods of the class are the \<open>X_nolock\<close> definitions here; the
  methods that take the lock first are separate definitions, as in the source. Listing a
  directory (\<^verbatim>\<open>PrepareReaddir\<close>) is in its own theory.
\<close>

section \<open>Operations\<close>

text \<open>Object sizes of the libstdc++ ABI on x86-64.\<close>

definition sizeof_vector :: u64 where "sizeof_vector = 24"
definition sizeof_Rb_tree_node_base :: u64 where "sizeof_Rb_tree_node_base = 32"
definition sizeof_fuse_ino_t :: u64 where "sizeof_fuse_ino_t = 8"
definition sizeof_string :: u64 where "sizeof_string = 32"

definition INO_NOTFOUND :: ino_t where "INO_NOTFOUND = 0"

type_synonym children = "(string \<times> ino_t) list"

definition new_Directory :: "fuse_entry_param \<Rightarrow> Inode" where
  "new_Directory junk = new_Inode junk (Directory [])"

text \<open>The copy constructor copies the base class and the vector.\<close>

definition Directory_copy :: "Inode \<Rightarrow> Inode option" where
  "Directory_copy i = (case m_obj i of Directory _ \<Rightarrow> Some i | _ \<Rightarrow> None)"

definition m_children :: "Inode \<Rightarrow> children" where
  "m_children i = (case m_obj i of Directory ch \<Rightarrow> ch | _ \<Rightarrow> [])"

definition set_children :: "children \<Rightarrow> Inode \<Rightarrow> Inode" where
  "set_children ch i = i\<lparr>m_obj := Directory ch\<rparr>"

definition elem_size :: "string \<Rightarrow> u64" where
  "elem_size name =
     sizeof_Rb_tree_node_base + sizeof_fuse_ino_t + sizeof_string + of_nat (length name)"

text \<open>\<open>None\<close> is the failed assertion.\<close>

definition Directory_UpdateSize :: "u64 \<Rightarrow> statvfs \<times> Inode \<Rightarrow> (statvfs \<times> Inode) option" where
  "Directory_UpdateSize delta = (\<lambda>(sb, i).
     if sint delta < 0 \<and> sint (- delta) > sint (st_size (i_attr i)) then None
     else
       let oldBlocks = st_blocks (i_attr i);
           newSize = st_size (i_attr i) + delta;
           newBlocks = get_nblocks newSize BufBlockSize;
           i1 = upd_attr (\<lambda>a. a\<lparr>st_size := newSize\<rparr>) i
       in if newBlocks \<noteq> oldBlocks
          then Some (UpdateUsedBlocks (newBlocks - oldBlocks) sb,
                     upd_attr (\<lambda>a. a\<lparr>st_blocks := newBlocks\<rparr>) i1)
          else Some (sb, i1))"

definition Directory_Initialize ::
    "env \<Rightarrow> ino_t \<Rightarrow> mode_t \<Rightarrow> u64 \<Rightarrow> u32 \<Rightarrow> u32 \<Rightarrow> statvfs \<times> Inode \<Rightarrow> (statvfs \<times> Inode) option" where
  "Directory_Initialize e ino mode nlink gid uid = (\<lambda>(sb, i).
     Directory_UpdateSize sizeof_vector (sb, Inode_Initialize e ino mode nlink gid uid i))"

text \<open>\<^verbatim>\<open>find\<close> returns the position of the first entry of that name, the length if there is none.\<close>

primrec Directory_find :: "string \<Rightarrow> children \<Rightarrow> nat" where
  "Directory_find name [] = 0"
| "Directory_find name (c # cs) = (if fst c = name then 0 else Suc (Directory_find name cs))"

definition ChildInodeNumberWithName_nolock :: "string \<Rightarrow> Inode \<Rightarrow> ino_t" where
  "ChildInodeNumberWithName_nolock name i =
     (let child = Directory_find name (m_children i) in
      if child = length (m_children i) then INO_NOTFOUND else snd (m_children i ! child))"

definition ChildInodeNumberWithName :: "string \<Rightarrow> Inode \<Rightarrow> ino_t" where
  "ChildInodeNumberWithName name i = ChildInodeNumberWithName_nolock name i"

definition AddChild_nolock ::
    "string \<Rightarrow> ino_t \<Rightarrow> statvfs \<times> Inode \<Rightarrow> (int \<times> statvfs \<times> Inode) option" where
  "AddChild_nolock name ino = (\<lambda>(sb, i).
     if Directory_find name (m_children i) \<noteq> length (m_children i) then Some (- EEXIST, sb, i)
     else if \<not> CheckHasSpaceFor (Some (usage_of i)) (elem_size name) sb
     then Some (- ENOSPC, sb, i)
     else do {
       (sb', i') \<leftarrow> Directory_UpdateSize (elem_size name)
                     (sb, set_children (m_children i @ [(name, ino)]) i);
       Some (0, sb', i')
     })"

definition AddChild :: "string \<Rightarrow> ino_t \<Rightarrow> statvfs \<times> Inode \<Rightarrow> (int \<times> statvfs \<times> Inode) option" where
  "AddChild name ino s = AddChild_nolock name ino s"

definition UpdateChild_nolock :: "env \<Rightarrow> string \<Rightarrow> ino_t \<Rightarrow> Inode \<Rightarrow> int \<times> Inode" where
  "UpdateChild_nolock e name ino i =
     (let child = Directory_find name (m_children i) in
      if child = length (m_children i) then (- ENOENT, i)
      else (0, upd_attr (touch_cm e)
        (set_children ((m_children i)[child := (fst (m_children i ! child), ino)]) i)))"

definition UpdateChild :: "env \<Rightarrow> string \<Rightarrow> ino_t \<Rightarrow> Inode \<Rightarrow> int \<times> Inode" where
  "UpdateChild e name ino i = UpdateChild_nolock e name ino i"

definition RemoveChild_nolock ::
    "env \<Rightarrow> string \<Rightarrow> statvfs \<times> Inode \<Rightarrow> (int \<times> statvfs \<times> Inode) option" where
  "RemoveChild_nolock e name = (\<lambda>(sb, i).
     let child = Directory_find name (m_children i) in
     if child = length (m_children i) then Some (- ENOENT, sb, i)
     else do {
       (sb', i') \<leftarrow> Directory_UpdateSize (- elem_size name)
         (sb, set_children (take child (m_children i) @ drop (Suc child) (m_children i)) i);
       Some (0, sb', upd_attr (touch_cm e) i')
     })"

definition RemoveChild ::
    "env \<Rightarrow> string \<Rightarrow> statvfs \<times> Inode \<Rightarrow> (int \<times> statvfs \<times> Inode) option" where
  "RemoveChild e name s = RemoveChild_nolock e name s"

definition Directory_WriteAndReply :: "byte list \<Rightarrow> off_t \<Rightarrow> Inode \<Rightarrow> reply" where
  "Directory_WriteAndReply buf off i = ReplyErr EISDIR"

definition Directory_ReadAndReply :: "size_t \<Rightarrow> off_t \<Rightarrow> Inode \<Rightarrow> reply" where
  "Directory_ReadAndReply sz off i = ReplyErr EISDIR"

text \<open>
  \<^verbatim>\<open>IsEmpty\<close> asks the inode table (\<open>get\<close>, \<^verbatim>\<open>FuseRamFs::GetInode\<close>) about every entry but the
  two dot entries.
\<close>

definition Directory_IsEmpty :: "(ino_t \<Rightarrow> Inode option) \<Rightarrow> Inode \<Rightarrow> bool" where
  "Directory_IsEmpty get i =
     list_all (\<lambda>(name, ino). name = ''.'' \<or> name = ''..'' \<or>
        (case get ino of None \<Rightarrow> True | Some entry \<Rightarrow> HasNoLinks entry)) (m_children i)"

section \<open>Search and the entry map\<close>

lemma Directory_find_le: "Directory_find name ch \<le> length ch"
  by (induction ch) auto

lemma Directory_find_none: "Directory_find name ch = length ch \<longleftrightarrow> name \<notin> fst ` set ch"
  by (induction ch) auto

lemma Directory_find_map_of:
  "Directory_find name ch \<noteq> length ch \<Longrightarrow>
   map_of ch name = Some (snd (ch ! Directory_find name ch)) \<and>
   fst (ch ! Directory_find name ch) = name"
  by (induction ch) auto

lemma Directory_find_erase:
  "Directory_find name ch \<noteq> length ch \<Longrightarrow> distinct (map fst ch) \<Longrightarrow>
   take (Directory_find name ch) ch @ drop (Suc (Directory_find name ch)) ch =
   filter (\<lambda>c. fst c \<noteq> name) ch"
proof (induction ch)
  case (Cons c cs)
  show ?case
  proof (cases "fst c = name")
    case True
    with Cons.prems have "name \<notin> fst ` set cs" by simp
    then have "\<forall>x \<in> set cs. fst x \<noteq> name" by (metis imageI)
    with True show ?thesis by simp
  next
    case False
    with Cons show ?thesis by simp
  qed
qed simp

definition dir_lookup :: "Inode \<Rightarrow> string \<Rightarrow> ino_t option" where
  "dir_lookup i = map_of (m_children i)"

lemma ChildInodeNumberWithName_lookup:
  "ChildInodeNumberWithName name i = (case dir_lookup i name of None \<Rightarrow> INO_NOTFOUND | Some n \<Rightarrow> n)"
proof (cases "Directory_find name (m_children i) = length (m_children i)")
  case True
  then have "map_of (m_children i) name = None"
    by (simp add: Directory_find_none map_of_eq_None_iff)
  with True show ?thesis
    by (simp add: ChildInodeNumberWithName_def ChildInodeNumberWithName_nolock_def dir_lookup_def)
next
  case False
  with Directory_find_map_of [OF False] show ?thesis
    by (simp add: ChildInodeNumberWithName_def ChildInodeNumberWithName_nolock_def dir_lookup_def)
qed

section \<open>Representation invariant\<close>

text \<open>What the entries of a directory weigh, on natural numbers.\<close>

definition dir_bytes :: "children \<Rightarrow> nat" where
  "dir_bytes ch = 24 + sum_list (map (\<lambda>c. 72 + length (fst c)) ch)"

lemma dir_bytes_simps [simp]:
  "dir_bytes [] = 24"
  "dir_bytes (ch @ [(name, ino)]) = dir_bytes ch + (72 + length name)"
  by (simp_all add: dir_bytes_def)

definition dir_ok :: "Inode \<Rightarrow> bool" where
  "dir_ok i =
     (case m_obj i of
        Directory ch \<Rightarrow>
          distinct (map fst ch) \<and> dir_bytes ch < 2 ^ 63 \<and>
          unat (Size i) = dir_bytes ch \<and> unat (UsedBlocks i) = blocks_for (dir_bytes ch)
      | _ \<Rightarrow> False)"

lemma dir_okE:
  assumes "dir_ok i"
  obtains "m_obj i = Directory (m_children i)" "distinct (map fst (m_children i))"
    "dir_bytes (m_children i) < 2 ^ 63" "unat (Size i) = dir_bytes (m_children i)"
    "unat (UsedBlocks i) = blocks_for (dir_bytes (m_children i))"
  using assms by (cases "m_obj i") (auto simp: dir_ok_def m_children_def)

section \<open>Size bookkeeping\<close>

lemma Directory_UpdateSize_eq:
  assumes "\<not> (sint delta < 0 \<and> sint (- delta) > sint (st_size (i_attr i)))"
  shows "Directory_UpdateSize delta (sb, i) =
    Some (UpdateUsedBlocks (get_nblocks (Size i + delta) BufBlockSize - UsedBlocks i) sb,
      upd_attr (\<lambda>a. a\<lparr>st_size := Size i + delta,
        st_blocks := get_nblocks (Size i + delta) BufBlockSize\<rparr>) i)"
proof (cases "get_nblocks (Size i + delta) BufBlockSize = UsedBlocks i")
  case True
  then have "upd_attr (\<lambda>a. a\<lparr>st_size := Size i + delta, st_blocks := UsedBlocks i\<rparr>) i =
      upd_attr (\<lambda>a. a\<lparr>st_size := Size i + delta\<rparr>) i"
    by (simp add: upd_attr_def UsedBlocks_def)
  with True assms show ?thesis
    by (simp add: Directory_UpdateSize_def Size_def UsedBlocks_def)
next
  case False
  with assms show ?thesis
    by (simp add: Directory_UpdateSize_def Size_def UsedBlocks_def upd_attr_def Let_def)
qed

lemma UpdateSize_grow:
  assumes "unat (Size i) + unat delta < 2 ^ 63"
  obtains sb' i' where "Directory_UpdateSize delta (sb, i) = Some (sb', i')"
    "i' = upd_attr (\<lambda>a. a\<lparr>st_size := Size i + delta,
        st_blocks := get_nblocks (Size i + delta) BufBlockSize\<rparr>) i"
    "unat (Size i') = unat (Size i) + unat delta" "unat (UsedBlocks i') = blocks_for (unat (Size i'))"
    "sb' = UpdateUsedBlocks (UsedBlocks i' - UsedBlocks i) sb"
proof -
  have "sint delta = int (unat delta)" using assms by (intro sint_nonneg_64) simp
  then have pos: "\<not> sint delta < 0" by linarith
  have s: "unat (Size i + delta) = unat (Size i) + unat delta"
    using assms by (intro unat_add_64) simp
  have "unat (get_nblocks (Size i + delta) BufBlockSize) = blocks_for (unat (Size i + delta))"
    using assms by (intro unat_get_nblocks) (simp only: s)
  with s pos that [OF Directory_UpdateSize_eq [of delta i sb] refl] show ?thesis
    by (simp add: Size_def UsedBlocks_def)
qed

lemma UpdateSize_shrink:
  assumes le: "unat delta \<le> unat (Size i)" and size: "unat (Size i) < 2 ^ 63"
  obtains sb' i' where "Directory_UpdateSize (- delta) (sb, i) = Some (sb', i')"
    "i' = upd_attr (\<lambda>a. a\<lparr>st_size := Size i + - delta,
        st_blocks := get_nblocks (Size i + - delta) BufBlockSize\<rparr>) i"
    "unat (Size i') = unat (Size i) - unat delta" "unat (UsedBlocks i') = blocks_for (unat (Size i'))"
    "sb' = UpdateUsedBlocks (UsedBlocks i' - UsedBlocks i) sb"
proof -
  have "sint delta = int (unat delta)" "sint (Size i) = int (unat (Size i))"
    by (rule sint_nonneg_64, use assms in linarith)+
  then have "sint (- (- delta)) \<le> sint (Size i)"
    using le by (simp only: minus_minus of_nat_le_iff)
  then have ok: "\<not> (sint (- delta) < 0 \<and> sint (- (- delta)) > sint (st_size (i_attr i)))"
    by (simp add: Size_def)
  have s: "unat (Size i + - delta) = unat (Size i) - unat delta"
    using le by (simp add: unat_diff_64 word_le_nat_alt)
  have "unat (get_nblocks (Size i + - delta) BufBlockSize) = blocks_for (unat (Size i + - delta))"
    using size by (intro unat_get_nblocks) (simp only: s)
  with s that [OF Directory_UpdateSize_eq [OF ok, of sb] refl] show ?thesis
    by (simp add: Size_def UsedBlocks_def)
qed

lemma unat_elem_size:
  "length name < 2 ^ 63 \<Longrightarrow> unat (elem_size name) = 72 + length name"
  unfolding elem_size_def sizeof_Rb_tree_node_base_def sizeof_fuse_ino_t_def sizeof_string_def
  by (subst unat_add_64) (simp_all add: unat_of_nat_64)

lemma children_simps [simp]:
  "m_children (set_children ch i) = ch"
  "m_children (upd_attr g i) = m_children i"
  "Size (set_children ch i) = Size i" "UsedBlocks (set_children ch i) = UsedBlocks i"
  "i_attr (set_children ch i) = i_attr i"
  "m_obj (set_children ch i) = Directory ch"
  "m_nlookup (set_children ch i) = m_nlookup i"
  "m_xattr (set_children ch i) = m_xattr i"
  by (simp_all add: m_children_def set_children_def Size_def UsedBlocks_def)

section \<open>Correctness of the entry operations\<close>

lemma dir_bytes_filter:
  assumes "distinct (map fst ch)" "name \<in> fst ` set ch"
  shows "dir_bytes (filter (\<lambda>c. fst c \<noteq> name) ch) + (72 + length name) = dir_bytes ch"
  using assms
proof (induction ch)
  case (Cons c cs)
  show ?case
  proof (cases "fst c = name")
    case True
    with Cons.prems have "name \<notin> fst ` set cs" by simp
    then have "filter (\<lambda>c. fst c \<noteq> name) cs = cs"
      by (intro filter_True) (metis imageI)
    with True show ?thesis by (simp add: dir_bytes_def)
  next
    case False
    with Cons show ?thesis by (auto simp: dir_bytes_def)
  qed
qed simp

lemma AddChild_exists:
  "name \<in> dom (dir_lookup i) \<Longrightarrow> AddChild name ino (sb, i) = Some (- EEXIST, sb, i)"
  by (simp add: AddChild_def AddChild_nolock_def Directory_find_none dir_lookup_def dom_map_of_conv_image_fst)

lemma AddChild_no_space:
  "name \<notin> dom (dir_lookup i) \<Longrightarrow> \<not> CheckHasSpaceFor (Some (usage_of i)) (elem_size name) sb \<Longrightarrow>
   AddChild name ino (sb, i) = Some (- ENOSPC, sb, i)"
  by (simp add: AddChild_def AddChild_nolock_def Directory_find_none dir_lookup_def dom_map_of_conv_image_fst)

lemma AddChild_ok:
  assumes ok: "dir_ok i" and new: "name \<notin> dom (dir_lookup i)"
    and space: "CheckHasSpaceFor (Some (usage_of i)) (elem_size name) sb"
    and fits: "dir_bytes (m_children i) + 72 + length name < 2 ^ 63"
  obtains sb' i' where "AddChild name ino (sb, i) = Some (0, sb', i')" "dir_ok i'"
    "m_children i' = m_children i @ [(name, ino)]"
    "sb' = UpdateUsedBlocks (UsedBlocks i' - UsedBlocks i) sb"
    "i_attr i' = (i_attr i)\<lparr>st_size := Size i', st_blocks := UsedBlocks i'\<rparr>"
    "m_nlookup i' = m_nlookup i" "m_xattr i' = m_xattr i"
proof -
  let ?j = "set_children (m_children i @ [(name, ino)]) i"
  from ok have s: "unat (Size i) = dir_bytes (m_children i)" and d: "distinct (map fst (m_children i))"
    by (auto elim: dir_okE)
  have "length name < 2 ^ 63" using fits by linarith
  then have el: "unat (elem_size name) = 72 + length name" by (rule unat_elem_size)
  have "unat (Size ?j) + unat (elem_size name) < 2 ^ 63" using fits s el by simp
  from UpdateSize_grow [OF this, of sb] obtain sb' i' where
    run: "Directory_UpdateSize (elem_size name) (sb, ?j) = Some (sb', i')"
    and i': "i' = upd_attr (\<lambda>a. a\<lparr>st_size := Size ?j + elem_size name,
        st_blocks := get_nblocks (Size ?j + elem_size name) BufBlockSize\<rparr>) ?j"
    and S: "unat (Size i') = unat (Size ?j) + unat (elem_size name)"
    and B: "unat (UsedBlocks i') = blocks_for (unat (Size i'))"
    and sb': "sb' = UpdateUsedBlocks (UsedBlocks i' - UsedBlocks ?j) sb"
    by blast
  have n: "name \<notin> fst ` set (m_children i)"
    using new by (simp add: dir_lookup_def dom_map_of_conv_image_fst)
  then have add: "AddChild name ino (sb, i) = Some (0, sb', i')"
    using space run by (simp add: AddChild_def AddChild_nolock_def Directory_find_none)
  have "dir_ok i'"
    unfolding dir_ok_def using d n fits S B s el by (simp add: i')
  then show ?thesis
    using that [OF add] sb' by (simp add: i' Size_def UsedBlocks_def)
qed

lemma RemoveChild_missing:
  "name \<notin> dom (dir_lookup i) \<Longrightarrow> RemoveChild e name (sb, i) = Some (- ENOENT, sb, i)"
  by (simp add: RemoveChild_def RemoveChild_nolock_def Directory_find_none dir_lookup_def
      dom_map_of_conv_image_fst)

lemma RemoveChild_ok:
  assumes ok: "dir_ok i" and ex: "name \<in> dom (dir_lookup i)"
  obtains sb' i' where "RemoveChild e name (sb, i) = Some (0, sb', i')" "dir_ok i'"
    "m_children i' = filter (\<lambda>c. fst c \<noteq> name) (m_children i)"
    "sb' = UpdateUsedBlocks (UsedBlocks i' - UsedBlocks i) sb"
    "i_attr i' = touch_cm e ((i_attr i)\<lparr>st_size := Size i', st_blocks := UsedBlocks i'\<rparr>)"
    "m_nlookup i' = m_nlookup i" "m_xattr i' = m_xattr i"
proof -
  let ?ch = "filter (\<lambda>c. fst c \<noteq> name) (m_children i)"
  let ?j = "set_children ?ch i"
  from ok have s: "unat (Size i) = dir_bytes (m_children i)" and d: "distinct (map fst (m_children i))"
    and b: "dir_bytes (m_children i) < 2 ^ 63"
    by (auto elim: dir_okE)
  have n: "name \<in> fst ` set (m_children i)"
    using ex by (simp add: dir_lookup_def dom_map_of_conv_image_fst)
  then have f: "Directory_find name (m_children i) \<noteq> length (m_children i)"
    by (simp add: Directory_find_none)
  note db = dir_bytes_filter [OF d n]
  have "length name < 2 ^ 63" using b db by linarith
  then have el: "unat (elem_size name) = 72 + length name" by (rule unat_elem_size)
  have "unat (elem_size name) \<le> unat (Size ?j)" "unat (Size ?j) < 2 ^ 63"
    using el s db b by simp_all
  from UpdateSize_shrink [OF this, of sb] obtain sb' i' where
    run: "Directory_UpdateSize (- elem_size name) (sb, ?j) = Some (sb', i')"
    and i': "i' = upd_attr (\<lambda>a. a\<lparr>st_size := Size ?j + - elem_size name,
        st_blocks := get_nblocks (Size ?j + - elem_size name) BufBlockSize\<rparr>) ?j"
    and S: "unat (Size i') = unat (Size ?j) - unat (elem_size name)"
    and B: "unat (UsedBlocks i') = blocks_for (unat (Size i'))"
    and sb': "sb' = UpdateUsedBlocks (UsedBlocks i' - UsedBlocks ?j) sb"
    by blast
  let ?i = "upd_attr (touch_cm e) i'"
  have rem: "RemoveChild e name (sb, i) = Some (0, sb', ?i)"
    using f run by (simp add: RemoveChild_def RemoveChild_nolock_def Directory_find_erase [OF f d])
  have sz: "Size ?i = Size i'" "UsedBlocks ?i = UsedBlocks i'" by (simp_all add: Size_def UsedBlocks_def)
  have o: "m_obj i' = Directory ?ch" by (simp add: i')
  have "unat (Size i') = dir_bytes ?ch" using S el s db by simp
  then have "dir_ok ?i"
    unfolding dir_ok_def using d b B db o by (simp add: sz distinct_map_filter)
  then show ?thesis
    using that [OF rem] sb' by (simp add: i' Size_def UsedBlocks_def)
qed

lemma map_of_list_update:
  assumes "distinct (map fst ch)" "k < length ch"
  shows "map_of (ch[k := (fst (ch ! k), v)]) = (map_of ch)(fst (ch ! k) \<mapsto> v)"
  using assms
proof (induction ch arbitrary: k)
  case (Cons c cs)
  show ?case
  proof (cases k)
    case 0
    then show ?thesis by (cases c) (simp add: fun_eq_iff)
  next
    case (Suc j)
    have "fst (cs ! j) \<in> fst ` set cs" using Suc Cons.prems by simp
    moreover have "fst c \<notin> fst ` set cs" using Cons.prems by simp
    ultimately have "fst c \<noteq> fst (cs ! j)" by metis
    then show ?thesis
      using Suc Cons by (cases c) (auto simp: fun_eq_iff)
  qed
qed simp

lemma map_fst_list_update: "k < length ch \<Longrightarrow> map fst (ch[k := (fst (ch ! k), v)]) = map fst ch"
  by (simp add: map_update list_update_same_conv)

lemma dir_bytes_map_fst: "map fst ch = map fst ch' \<Longrightarrow> dir_bytes ch = dir_bytes ch'"
proof -
  assume a: "map fst ch = map fst ch'"
  have e: "dir_bytes c = 24 + sum_list (map (\<lambda>n. 72 + length n) (map fst c))" for c :: children
    by (simp add: dir_bytes_def comp_def)
  show ?thesis unfolding e a by (rule refl)
qed

lemma UpdateChild_missing:
  "name \<notin> dom (dir_lookup i) \<Longrightarrow> UpdateChild e name ino i = (- ENOENT, i)"
  by (simp add: UpdateChild_def UpdateChild_nolock_def Directory_find_none dir_lookup_def
      dom_map_of_conv_image_fst)

lemma UpdateChild_ok:
  assumes ok: "dir_ok i" and ex: "name \<in> dom (dir_lookup i)"
  obtains i' where "UpdateChild e name ino i = (0, i')" "dir_ok i'"
    "dir_lookup i' = (dir_lookup i)(name \<mapsto> ino)" "map fst (m_children i') = map fst (m_children i)"
    "i_attr i' = touch_cm e (i_attr i)" "m_nlookup i' = m_nlookup i" "m_xattr i' = m_xattr i"
proof -
  let ?k = "Directory_find name (m_children i)"
  let ?ch = "(m_children i)[?k := (fst (m_children i ! ?k), ino)]"
  let ?i = "upd_attr (touch_cm e) (set_children ?ch i)"
  have f: "?k \<noteq> length (m_children i)"
    using ex by (simp add: Directory_find_none dir_lookup_def dom_map_of_conv_image_fst)
  then have k: "?k < length (m_children i)" using Directory_find_le [of name "m_children i"] by simp
  have nm: "fst (m_children i ! ?k) = name" using Directory_find_map_of [OF f] by simp
  have m: "map fst ?ch = map fst (m_children i)" using k by (rule map_fst_list_update)
  have run: "UpdateChild e name ino i = (0, ?i)"
    using f by (simp add: UpdateChild_def UpdateChild_nolock_def Let_def)
  have sz: "Size ?i = Size i" "UsedBlocks ?i = UsedBlocks i" by (simp_all add: Size_def UsedBlocks_def)
  from ok have d: "distinct (map fst (m_children i))" by (rule dir_okE)
  from ok have "dir_ok ?i"
    by (rule dir_okE) (simp add: dir_ok_def sz m dir_bytes_map_fst [OF m])
  moreover have "dir_lookup ?i = (dir_lookup i)(name \<mapsto> ino)"
    using map_of_list_update [OF d k, of ino] nm by (simp add: dir_lookup_def)
  ultimately show ?thesis using that [OF run] m by simp
qed

lemma map_of_filter_fst: "map_of (filter (\<lambda>c. fst c \<noteq> k) xs) = (map_of xs)(k := None)"
  using map_of_map_erase [of k xs] by (simp add: map_erase_def)

section \<open>Interface: a directory as a map from names to inode numbers\<close>

locale name_map =
  fixes invar :: "'d \<Rightarrow> bool" and entries :: "'d \<Rightarrow> string \<Rightarrow> ino_t option"
    and added :: "string \<Rightarrow> ino_t \<Rightarrow> 'd \<Rightarrow> 'd \<Rightarrow> bool"
    and repointed :: "string \<Rightarrow> ino_t \<Rightarrow> 'd \<Rightarrow> 'd \<Rightarrow> bool"
    and removed :: "string \<Rightarrow> 'd \<Rightarrow> 'd \<Rightarrow> bool"
  assumes added_entries:
      "invar d \<Longrightarrow> added n k d d' \<Longrightarrow> n \<notin> dom (entries d) \<and> entries d' = (entries d)(n \<mapsto> k)"
    and added_invar: "invar d \<Longrightarrow> added n k d d' \<Longrightarrow> invar d'"
    and repointed_entries:
      "invar d \<Longrightarrow> repointed n k d d' \<Longrightarrow> n \<in> dom (entries d) \<and> entries d' = (entries d)(n \<mapsto> k)"
    and repointed_invar: "invar d \<Longrightarrow> repointed n k d d' \<Longrightarrow> invar d'"
    and removed_entries:
      "invar d \<Longrightarrow> removed n d d' \<Longrightarrow> n \<in> dom (entries d) \<and> entries d' = (entries d)(n := None)"
    and removed_invar: "invar d \<Longrightarrow> removed n d d' \<Longrightarrow> invar d'"
begin

lemma add_then_remove:
  assumes "invar d" "added n k d d'" "removed n d' d''"
  shows "entries d'' = entries d"
proof -
  have a: "entries d n = None" "entries d' = (entries d)(n \<mapsto> k)"
    using added_entries [OF assms(1,2)] by (simp_all add: domIff)
  have "invar d'" using added_invar assms by blast
  then have "entries d'' = (entries d')(n := None)" using removed_entries assms(3) by blast
  with a show ?thesis by (auto simp: fun_eq_iff)
qed

text \<open>Moving an entry to a free name inside one directory, and replacing an entry by another.\<close>

lemma move_entry:
  assumes "invar d" "entries d n = Some k" "added m k d d'" "removed n d' d''"
  shows "entries d'' = (entries d)(n := None, m \<mapsto> k)"
proof -
  have a: "m \<notin> dom (entries d)" "entries d' = (entries d)(m \<mapsto> k)"
    using added_entries [OF assms(1,3)] by auto
  have "invar d'" using added_invar assms by blast
  then have "entries d'' = (entries d')(n := None)" using removed_entries assms(4) by blast
  with a assms(2) show ?thesis by (auto simp: fun_eq_iff)
qed

lemma replace_entry:
  assumes "invar d" "entries d n = Some k" "n \<noteq> m" "repointed m k d d'" "removed n d' d''"
  shows "entries d'' = (entries d)(n := None, m \<mapsto> k)"
proof -
  have a: "entries d' = (entries d)(m \<mapsto> k)" and i: "invar d'"
    using repointed_entries [OF assms(1,4)] repointed_invar assms by blast+
  have "entries d'' = (entries d')(n := None)" using removed_entries [OF i assms(5)] by blast
  with a assms(3) show ?thesis by (auto simp: fun_eq_iff)
qed

end

definition child_added :: "string \<Rightarrow> ino_t \<Rightarrow> Inode \<Rightarrow> Inode \<Rightarrow> bool" where
  "child_added name ino i i' \<longleftrightarrow> dir_bytes (m_children i) + 72 + length name < 2 ^ 63 \<and>
     (\<exists>sb sb'. AddChild name ino (sb, i) = Some (0, sb', i'))"

definition child_updated :: "string \<Rightarrow> ino_t \<Rightarrow> Inode \<Rightarrow> Inode \<Rightarrow> bool" where
  "child_updated name ino i i' \<longleftrightarrow> (\<exists>e. UpdateChild e name ino i = (0, i'))"

definition child_removed :: "string \<Rightarrow> Inode \<Rightarrow> Inode \<Rightarrow> bool" where
  "child_removed name i i' \<longleftrightarrow> (\<exists>e sb sb'. RemoveChild e name (sb, i) = Some (0, sb', i'))"

lemma map_of_snoc: "k \<notin> fst ` set xs \<Longrightarrow> map_of (xs @ [(k, v)]) = (map_of xs)(k \<mapsto> v)"
  by (induction xs) (auto simp: fun_eq_iff)

lemma child_addedD:
  assumes ok: "dir_ok i" and "child_added name ino i i'"
  shows "dir_ok i' \<and> name \<notin> dom (dir_lookup i) \<and> dir_lookup i' = (dir_lookup i)(name \<mapsto> ino)"
proof -
  from assms(2) obtain sb sb' where fits: "dir_bytes (m_children i) + 72 + length name < 2 ^ 63"
    and run: "AddChild name ino (sb, i) = Some (0, sb', i')" by (auto simp: child_added_def)
  have new: "name \<notin> dom (dir_lookup i)" using run AddChild_exists [of name i ino sb] by auto
  have space: "CheckHasSpaceFor (Some (usage_of i)) (elem_size name) sb"
    using run AddChild_no_space [OF new, of sb ino] by (cases) auto
  from AddChild_ok [OF ok new space fits, of ino] obtain sb1 i1 where
    "AddChild name ino (sb, i) = Some (0, sb1, i1)" "dir_ok i1"
    "m_children i1 = m_children i @ [(name, ino)]" by blast
  with run new show ?thesis
    by (auto simp: dir_lookup_def dom_map_of_conv_image_fst map_of_snoc simp del: map_of_append)
qed

lemma child_updatedD:
  assumes ok: "dir_ok i" and "child_updated name ino i i'"
  shows "dir_ok i' \<and> name \<in> dom (dir_lookup i) \<and> dir_lookup i' = (dir_lookup i)(name \<mapsto> ino)"
proof -
  from assms(2) obtain e where run: "UpdateChild e name ino i = (0, i')"
    by (auto simp: child_updated_def)
  have ex: "name \<in> dom (dir_lookup i)" using run UpdateChild_missing [of name i e ino] by auto
  from UpdateChild_ok [OF ok ex, of e ino] run show ?thesis
    using ex by (metis Pair_inject)
qed

lemma child_removedD:
  assumes ok: "dir_ok i" and "child_removed name i i'"
  shows "dir_ok i' \<and> name \<in> dom (dir_lookup i) \<and> dir_lookup i' = (dir_lookup i)(name := None)"
proof -
  from assms(2) obtain e sb sb' where run: "RemoveChild e name (sb, i) = Some (0, sb', i')"
    by (auto simp: child_removed_def)
  have ex: "name \<in> dom (dir_lookup i)" using run RemoveChild_missing [of name i e sb] by auto
  from RemoveChild_ok [OF ok ex, of e sb] obtain sb1 i1 where
    "RemoveChild e name (sb, i) = Some (0, sb1, i1)" "dir_ok i1"
    "m_children i1 = filter (\<lambda>c. fst c \<noteq> name) (m_children i)" by blast
  with run ex show ?thesis by (simp add: dir_lookup_def map_of_filter_fst)
qed

interpretation fs_dir: name_map dir_ok dir_lookup child_added child_updated child_removed
  by unfold_locales (blast dest: child_addedD child_updatedD child_removedD)+

end
