(* ===== verification/Leaf_Inodes.thy ===== *)
theory Leaf_Inodes
  imports File Directory
begin

text \<open>
  Symbolic links (\<^verbatim>\<open>symlink.hpp\<close>, \<^verbatim>\<open>symlink.cpp\<close>) and special inodes (\<^verbatim>\<open>special_inode.hpp\<close>,
  \<^verbatim>\<open>special_inode.cpp\<close>), and the virtual methods of \<^verbatim>\<open>Inode\<close> dispatched over the four
  subclasses.
\<close>

section \<open>Symbolic links\<close>

definition new_SymLink :: "fuse_entry_param \<Rightarrow> string \<Rightarrow> Inode" where
  "new_SymLink junk link = new_Inode junk (SymLink link)"

definition SymLink_copy :: "Inode \<Rightarrow> Inode option" where
  "SymLink_copy i = (case m_obj i of SymLink _ \<Rightarrow> Some i | _ \<Rightarrow> None)"

definition SymLink_WriteAndReply :: "byte list \<Rightarrow> off_t \<Rightarrow> Inode \<Rightarrow> reply" where
  "SymLink_WriteAndReply buf off i = ReplyErr EISDIR"

definition SymLink_ReadAndReply :: "size_t \<Rightarrow> off_t \<Rightarrow> Inode \<Rightarrow> reply" where
  "SymLink_ReadAndReply sz off i = ReplyErr EISDIR"

definition m_link :: "Inode \<Rightarrow> string" where
  "m_link i = (case m_obj i of SymLink link \<Rightarrow> link | _ \<Rightarrow> [])"

definition SymLink_Initialize ::
    "env \<Rightarrow> ino_t \<Rightarrow> mode_t \<Rightarrow> u64 \<Rightarrow> u32 \<Rightarrow> u32 \<Rightarrow> Inode \<Rightarrow> Inode" where
  "SymLink_Initialize e ino mode nlink gid uid i =
     (let i1 = Inode_Initialize e ino mode nlink gid uid i;
          i2 = upd_attr (\<lambda>a. a\<lparr>st_size := of_nat (length (m_link i))\<rparr>) i1;
          i3 = upd_attr (\<lambda>a. a\<lparr>st_blocks := st_size a div st_blksize a\<rparr>) i2
      in if st_blksize (i_attr i3) * st_blocks (i_attr i3) < st_size (i_attr i3)
         then upd_attr (\<lambda>a. a\<lparr>st_blocks := st_blocks a + 1\<rparr>) i3 else i3)"

section \<open>Special inodes\<close>

definition new_SpecialInode :: "fuse_entry_param \<Rightarrow> SpecialInodeTypes \<Rightarrow> u64 \<Rightarrow> Inode" where
  "new_SpecialInode junk type dev =
     (let i = upd_attr (\<lambda>a. a\<lparr>st_dev := dev\<rparr>) (new_Inode junk (SpecialInode type))
      in if type = SPECIAL_INODE_TYPE_NO_BLOCK then upd_attr (\<lambda>_. zero_stat) i else i)"

definition SpecialInode_copy :: "Inode \<Rightarrow> Inode option" where
  "SpecialInode_copy i = (case m_obj i of SpecialInode _ \<Rightarrow> Some i | _ \<Rightarrow> None)"

definition SpecialInode_Type :: "Inode \<Rightarrow> SpecialInodeTypes option" where
  "SpecialInode_Type i = (case m_obj i of SpecialInode t \<Rightarrow> Some t | _ \<Rightarrow> None)"

definition SpecialInode_WriteAndReply :: "byte list \<Rightarrow> off_t \<Rightarrow> Inode \<Rightarrow> reply" where
  "SpecialInode_WriteAndReply buf off i = ReplyErr ENOENT"

definition SpecialInode_ReadAndReply :: "size_t \<Rightarrow> off_t \<Rightarrow> Inode \<Rightarrow> reply" where
  "SpecialInode_ReadAndReply sz off i = ReplyErr ENOENT"

section \<open>Virtual methods\<close>

definition Initialize ::
    "env \<Rightarrow> ino_t \<Rightarrow> mode_t \<Rightarrow> u64 \<Rightarrow> u32 \<Rightarrow> u32 \<Rightarrow> statvfs \<times> Inode \<Rightarrow> (statvfs \<times> Inode) option" where
  "Initialize e ino mode nlink gid uid = (\<lambda>(sb, i).
     case m_obj i of
       Directory _ \<Rightarrow> Directory_Initialize e ino mode nlink gid uid (sb, i)
     | SymLink _ \<Rightarrow> Some (sb, SymLink_Initialize e ino mode nlink gid uid i)
     | _ \<Rightarrow> Some (sb, Inode_Initialize e ino mode nlink gid uid i))"

definition WriteAndReply ::
    "env \<Rightarrow> byte list \<Rightarrow> off_t \<Rightarrow> statvfs \<times> Inode \<Rightarrow> (reply \<times> statvfs \<times> Inode) option" where
  "WriteAndReply e data off = (\<lambda>(sb, i).
     case m_obj i of
       File _ \<Rightarrow> File_WriteAndReply e data off (sb, i)
     | Directory _ \<Rightarrow> Some (Directory_WriteAndReply data off i, sb, i)
     | SymLink _ \<Rightarrow> Some (SymLink_WriteAndReply data off i, sb, i)
     | SpecialInode _ \<Rightarrow> Some (SpecialInode_WriteAndReply data off i, sb, i))"

definition ReadAndReply :: "env \<Rightarrow> size_t \<Rightarrow> off_t \<Rightarrow> Inode \<Rightarrow> (reply \<times> Inode) option" where
  "ReadAndReply e sz off i =
     (case m_obj i of
        File _ \<Rightarrow> File_ReadAndReply e sz off i
      | Directory _ \<Rightarrow> Some (Directory_ReadAndReply sz off i, i)
      | SymLink _ \<Rightarrow> Some (SymLink_ReadAndReply sz off i, i)
      | SpecialInode _ \<Rightarrow> Some (SpecialInode_ReadAndReply sz off i, i))"

section \<open>Well-formed inodes\<close>

text \<open>The dynamic class agrees with the file type bits of the mode.\<close>

definition mode_matches :: "Inode \<Rightarrow> bool" where
  "mode_matches i =
     (let m = GetMode i in
      case m_obj i of
        File _ \<Rightarrow> S_ISREG m
      | Directory _ \<Rightarrow> S_ISDIR m
      | SymLink _ \<Rightarrow> S_ISLNK m
      | SpecialInode _ \<Rightarrow> \<not> S_ISREG m \<and> \<not> S_ISDIR m \<and> \<not> S_ISLNK m)"

text \<open>The class invariant of each subclass.\<close>

definition inode_ok :: "Inode \<Rightarrow> bool" where
  "inode_ok i =
     (mode_matches i \<and> map_sorted (m_xattr i) \<and>
      (case m_obj i of
         File _ \<Rightarrow> file_ok i
       | Directory _ \<Rightarrow> dir_ok i
       | SymLink link \<Rightarrow> Size i = of_nat (length link)
       | SpecialInode _ \<Rightarrow> True))"

lemma SymLink_Initialize_blocks:
  assumes "length (m_link i) < 2 ^ 63"
  shows "unat (UsedBlocks (SymLink_Initialize e ino mode nlink gid uid i)) =
    blocks_for (length (m_link i))"
proof -
  let ?n = "length (m_link i)"
  let ?s = "of_nat ?n :: u64"
  have s: "unat ?s = ?n" using assms by (simp add: unat_of_nat_64)
  have q: "unat (?s div 512) = ?n div 512" by (simp add: unat_div_64 s)
  have "512 * (?n div 512) \<le> ?n" by simp
  then have m: "unat (512 * (?s div 512)) = 512 * (?n div 512)"
    using assms by (subst unat_mult_64) (simp_all add: q)
  have less: "512 * (?s div 512) < ?s \<longleftrightarrow> ?n mod 512 \<noteq> 0"
    unfolding word_less_nat_alt m s by (metis mult_div_mod_eq add_cancel_right_right
        le_add1 nat_less_le)
  have one: "unat (?s div 512 + 1) = ?n div 512 + 1"
    using assms by (subst unat_add_64) (simp_all add: q)
  show ?thesis
    using less one q
    by (auto simp: SymLink_Initialize_def Inode_Initialize_def UsedBlocks_def BufBlockSize_def
        zero_entry_param_def zero_stat_def blocks_for_div_mod Let_def)
qed

end
