(* ===== verification/Ram_Fs.thy ===== *)
theory Ram_Fs
  imports Leaf_Inodes
begin

text \<open>
  The global state of \<^verbatim>\<open>FuseRamFs\<close> (\<^verbatim>\<open>fuse_cpp_ramfs.hpp\<close>, \<^verbatim>\<open>fuse_cpp_ramfs.cpp\<close>): the inode
  table, the queue of reusable inode numbers, the capacity counters, the directory listings
  in progress and the pool of checkpointed states; then the table operations, inode
  registration, the constructor, \<^verbatim>\<open>FuseInit\<close> and \<^verbatim>\<open>do_create_node\<close>.

  An object is reached through the table, as the code reaches it through a pointer it got from
  the table: two inode numbers that are equal name one object. An operation on an object reads
  the slot, and writes it back.
\<close>

section \<open>State\<close>

record ReadDirCtx =
  rd_cookie :: off_t
  rd_it :: nat
  rd_children :: children

text \<open>\<^verbatim>\<open>verifs2_state\<close>: a saved inode table, queue and \<^verbatim>\<open>statvfs\<close>.\<close>

type_synonym verifs2_state = "Inode option list \<times> ino_t list \<times> statvfs"

record fs =
  Inodes :: "Inode option list"
  DeletedInodes :: "ino_t list"
  m_stbuf :: statvfs
  xheap :: heap
  readdirStates :: "(off_t \<times> ReadDirCtx) list"
  state_pool :: "(u64 \<times> verifs2_state) list"

section \<open>The inode table\<close>

definition GetInode :: "ino_t \<Rightarrow> fs \<Rightarrow> Inode option" where
  "GetInode ino s = (if unat ino < length (Inodes s) then Inodes s ! unat ino else None)"

text \<open>Writing an object back to its slot.\<close>

definition put_inode :: "ino_t \<Rightarrow> Inode \<Rightarrow> fs \<Rightarrow> fs" where
  "put_inode ino i s = s\<lparr>Inodes := (Inodes s)[unat ino := Some i]\<rparr>"

definition DeleteInode :: "ino_t \<Rightarrow> fs \<Rightarrow> fs" where
  "DeleteInode ino s =
     s\<lparr>Inodes := (Inodes s)[unat ino := None], DeletedInodes := DeletedInodes s @ [ino]\<rparr>"

definition AddInode :: "Inode \<Rightarrow> fs \<Rightarrow> ino_t \<times> fs" where
  "AddInode i s = (of_nat (length (Inodes s)), s\<lparr>Inodes := Inodes s @ [Some i]\<rparr>)"

definition UpdateInode :: "ino_t \<Rightarrow> Inode \<Rightarrow> fs \<Rightarrow> fs" where
  "UpdateInode ino i s = put_inode ino i s"

text \<open>\<^verbatim>\<open>front()\<close> and \<^verbatim>\<open>pop()\<close> on an empty queue are undefined.\<close>

definition PopOneDeletedInode :: "fs \<Rightarrow> (ino_t \<times> fs) option" where
  "PopOneDeletedInode s =
     (case DeletedInodes s of [] \<Rightarrow> None | ino # rest \<Rightarrow> Some (ino, s\<lparr>DeletedInodes := rest\<rparr>))"

text \<open>An operation on one object together with the counters.\<close>

definition on_inode ::
    "ino_t \<Rightarrow> (statvfs \<times> Inode \<Rightarrow> ('r \<times> statvfs \<times> Inode) option) \<Rightarrow> fs \<Rightarrow> ('r \<times> fs) option" where
  "on_inode ino f s = do {
     i \<leftarrow> GetInode ino s;
     (r, sb, i') \<leftarrow> f (m_stbuf s, i);
     Some (r, (put_inode ino i' s)\<lparr>m_stbuf := sb\<rparr>)
   }"

definition modify_inode :: "ino_t \<Rightarrow> (Inode \<Rightarrow> Inode) \<Rightarrow> fs \<Rightarrow> fs option" where
  "modify_inode ino g s = do { i \<leftarrow> GetInode ino s; Some (put_inode ino (g i) s) }"

definition RegisterInode ::
    "env \<Rightarrow> Inode \<Rightarrow> mode_t \<Rightarrow> u64 \<Rightarrow> u32 \<Rightarrow> u32 \<Rightarrow> fs \<Rightarrow> (ino_t \<times> fs) option" where
  "RegisterInode e i mode nlink gid uid s = do {
     (ino, s1) \<leftarrow> (if DeletedInodes s = [] then Some (AddInode i s)
                   else do { (ino, s') \<leftarrow> PopOneDeletedInode s; Some (ino, UpdateInode ino i s') });
     let s2 = s1\<lparr>m_stbuf := UpdateUsedInodes 1 (m_stbuf s1)\<rparr>;
     (sb, i') \<leftarrow> Initialize e ino mode nlink gid uid (m_stbuf s2, i);
     let s3 = (put_inode ino i' s2)\<lparr>m_stbuf := sb\<rparr>;
     Some (ino, s3\<lparr>m_stbuf := UpdateUsedBlocks (UsedBlocks i') (m_stbuf s3)\<rparr>)
   }"

section \<open>Construction and mounting\<close>

definition kTotalBlocks :: u64 where "kTotalBlocks = 8388608"
definition kTotalInodes :: u64 where "kTotalInodes = 1048576"
definition kFilesystemId :: u64 where "kFilesystemId = 0xc13f944870434d8f"
definition kMaxFilenameLength :: u64 where "kMaxFilenameLength = 1024"

definition FuseRamFs_new :: "u64 \<Rightarrow> u64 \<Rightarrow> fs" where
  "FuseRamFs_new blocks inodes =
     (let blocks = (if blocks \<le> 0 then kTotalBlocks else blocks);
          inodes = (if inodes \<le> 0 then kTotalInodes else inodes)
      in \<lparr>Inodes = [], DeletedInodes = [],
          m_stbuf = \<lparr>f_bsize = BufBlockSize, f_frsize = BufBlockSize, f_blocks = blocks,
            f_bfree = blocks, f_bavail = blocks, f_files = inodes, f_ffree = inodes,
            f_favail = inodes, f_fsid = kFilesystemId, f_flag = 0,
            f_namemax = kMaxFilenameLength\<rparr>,
          xheap = empty_heap, readdirStates = [], state_pool = []\<rparr>)"

text \<open>
  \<^verbatim>\<open>FuseInit\<close> for a process with the given umask, gid and uid. A failing \<^verbatim>\<open>new\<close> throws out of
  the call.
\<close>

definition FuseInit :: "env \<Rightarrow> mode_t \<Rightarrow> u32 \<Rightarrow> u32 \<Rightarrow> fs \<Rightarrow> fs option" where
  "FuseInit e umask gid uid s =
     (let sb = m_stbuf s;
          s0 = s\<lparr>m_stbuf := sb\<lparr>f_bfree := f_blocks sb, f_bavail := f_blocks sb,
                 f_ffree := f_files sb, f_favail := f_files sb, f_flag := 0\<rparr>\<rparr>
      in if \<not> env_new e then None
      else do {
        (_, s1) \<leftarrow> RegisterInode e
                   (new_SpecialInode (env_param e) SPECIAL_INODE_TYPE_NO_BLOCK 0) 0 0 gid uid s0;
        (rootno, s2) \<leftarrow> RegisterInode e (new_Directory (env_param e))
                        (S_IFDIR OR (0x1FF AND NOT umask)) 2 gid uid s1;
        (_, s3) \<leftarrow> on_inode rootno (AddChild ''.'' rootno) s2;
        (_, s4) \<leftarrow> on_inode rootno (AddChild ''..'' rootno) s3;
        Some s4
      })"

text \<open>\<^verbatim>\<open>FuseDestroy\<close> deletes every object; the table keeps the dangling pointers.\<close>

definition FuseDestroy :: "fs \<Rightarrow> Inode list" where
  "FuseDestroy s = List.map_filter id (Inodes s)"

section \<open>Creating a node\<close>

text \<open>The object \<^verbatim>\<open>do_create_node\<close> allocates for a mode, with its link count, or the error.\<close>

definition create_object ::
    "env \<Rightarrow> mode_t \<Rightarrow> u64 \<Rightarrow> string option \<Rightarrow> int + (Inode \<times> u64)" where
  "create_object e mode dev symlink =
     (let obj = (\<lambda>i links. if env_new e then Inr (i, links) else Inl (- ENOSPC));
          junk = env_param e
      in if S_ISREG mode then obj (new_File junk) 1
         else if S_ISDIR mode then obj (new_Directory junk) 2
         else if S_ISCHR mode then obj (new_SpecialInode junk SPECIAL_INODE_CHAR_DEV dev) 1
         else if S_ISBLK mode then obj (new_SpecialInode junk SPECIAL_INODE_BLOCK_DEV dev) 1
         else if S_ISFIFO mode then obj (new_SpecialInode junk SPECIAL_INODE_FIFO 0) 1
         else if S_ISSOCK mode then obj (new_SpecialInode junk SPECIAL_INODE_SOCK 0) 1
         else if S_ISLNK mode then
           (case symlink of None \<Rightarrow> Inl (- EINVAL) | Some link \<Rightarrow> obj (new_SymLink junk link) 1)
         else Inl (- EINVAL))"

text \<open>
  \<^verbatim>\<open>do_create_node\<close>; the parent is given by its inode number. The result is the inode number as
  a signed \<^verbatim>\<open>long\<close>, or a negative error.
\<close>

definition do_create_node ::
    "env \<Rightarrow> fuse_ctx \<Rightarrow> ino_t \<Rightarrow> string \<Rightarrow> mode_t \<Rightarrow> u64 \<Rightarrow> string option \<Rightarrow> fs \<Rightarrow> (int \<times> fs) option" where
  "do_create_node e ctx parent name mode dev symlink s =
     (case create_object e mode dev symlink of
        Inl err \<Rightarrow> Some (err, s)
      | Inr (new_node, links) \<Rightarrow>
          if GetFreeInodes (m_stbuf s) \<le> 0 then Some (- ENOSPC, s)
          else do {
            (ino, s1) \<leftarrow> RegisterInode e new_node mode links (ctx_gid ctx) (ctx_uid ctx) s;
            s2 \<leftarrow> (if S_ISDIR mode then do {
                     (_, s') \<leftarrow> on_inode ino (AddChild ''.'' ino) s1;
                     p \<leftarrow> GetInode parent s';
                     (_, s'') \<leftarrow> on_inode ino (AddChild ''..'' (GetIno p)) s';
                     Some s''
                   } else Some s1);
            (ret, s3) \<leftarrow> on_inode parent (AddChild name ino) s2;
            if ret < 0 then do {
              node \<leftarrow> GetInode ino s3;
              let sb = UpdateUsedBlocks (UsedBlocks node) (UpdateUsedInodes (-1) (m_stbuf s3));
              Some (ret, DeleteInode ino (s3\<lparr>m_stbuf := sb\<rparr>))
            }
            else do {
              s4 \<leftarrow> (if S_ISDIR mode then modify_inode parent IncrementLinkCount s3 else Some s3);
              Some (sint ino, s4)
            }
          })"

end
