(* ===== verification/Handlers.thy ===== *)
theory Handlers
  imports Ram_Fs
begin

text \<open>
  The request handlers \<^verbatim>\<open>FuseRamFs::Fuse*\<close> of \<^verbatim>\<open>fuse_cpp_ramfs.cpp\<close>, except directory listing
  and the ioctls, which have theories of their own. A handler maps the state to the list of
  replies it sends and the new state; \<open>None\<close> is an abort or an undefined access. Requests are
  served one at a time (\<^verbatim>\<open>main\<close> runs \<^verbatim>\<open>fuse_session_loop\<close>, not its multi-threaded variant),
  so the locks the handlers take are not part of these definitions; \<^verbatim>\<open>Locking\<close> models them.
\<close>

type_synonym outcome = "(reply list \<times> fs) option"

section \<open>Common steps\<close>

definition fuse_reply_err :: "int \<Rightarrow> fs \<Rightarrow> outcome" where
  "fuse_reply_err n s = Some ([ReplyErr n], s)"

text \<open>\<^verbatim>\<open>inode == nullptr || inode->HasNoLinks()\<close> is the negation of \<open>live\<close> having a value.\<close>

definition live :: "ino_t \<Rightarrow> fs \<Rightarrow> Inode option" where
  "live ino s = (case GetInode ino s of None \<Rightarrow> None | Some i \<Rightarrow> if HasNoLinks i then None else Some i)"

text \<open>\<^verbatim>\<open>dynamic_cast<T *>(inode) != nullptr\<close>.\<close>

definition is_File :: "Inode \<Rightarrow> bool" where
  "is_File i = (case m_obj i of File _ \<Rightarrow> True | _ \<Rightarrow> False)"

definition is_Directory :: "Inode \<Rightarrow> bool" where
  "is_Directory i = (case m_obj i of Directory _ \<Rightarrow> True | _ \<Rightarrow> False)"

definition is_SymLink :: "Inode \<Rightarrow> bool" where
  "is_SymLink i = (case m_obj i of SymLink _ \<Rightarrow> True | _ \<Rightarrow> False)"

text \<open>\<^verbatim>\<open>GetInode(ino)->ReplyEntry(req)\<close> and \<^verbatim>\<open>ReplyCreate\<close>: undefined on the null pointer.\<close>

definition reply_entry :: "ino_t \<Rightarrow> fs \<Rightarrow> outcome" where
  "reply_entry ino s = do {
     i \<leftarrow> GetInode ino s;
     let (r, i') = Inode_ReplyEntry i;
     Some ([r], put_inode ino i' s)
   }"

definition reply_create :: "ino_t \<Rightarrow> fs \<Rightarrow> outcome" where
  "reply_create ino s = do {
     i \<leftarrow> GetInode ino s;
     let (r, i') = Inode_ReplyCreate i;
     Some ([r], put_inode ino i' s)
   }"

section \<open>Lookup and attributes\<close>

definition FuseLookup :: "ino_t \<Rightarrow> string \<Rightarrow> fs \<Rightarrow> outcome" where
  "FuseLookup parent name s =
     (case live parent s of
        None \<Rightarrow> fuse_reply_err ENOENT s
      | Some dir \<Rightarrow>
          if \<not> is_Directory dir then fuse_reply_err ENOTDIR s
          else
            let ino = ChildInodeNumberWithName name dir in
            if ino = INO_NOTFOUND then fuse_reply_err ENOENT s
            else (case live ino s of
                    None \<Rightarrow> fuse_reply_err ENOENT s
                  | Some _ \<Rightarrow> reply_entry ino s))"

definition FuseGetAttr :: "ino_t \<Rightarrow> fs \<Rightarrow> outcome" where
  "FuseGetAttr ino s =
     (case live ino s of
        None \<Rightarrow> fuse_reply_err ENOENT s
      | Some i \<Rightarrow> Some ([Inode_ReplyAttr i], s))"

definition FuseSetAttr :: "env \<Rightarrow> ino_t \<Rightarrow> stat \<Rightarrow> u32 \<Rightarrow> fs \<Rightarrow> outcome" where
  "FuseSetAttr e ino a to_set s =
     (case live ino s of
        None \<Rightarrow> fuse_reply_err ENOENT s
      | Some i \<Rightarrow>
          if flag_set to_set FUSE_SET_ATTR_SIZE then
            if \<not> is_File i then
              (if S_ISDIR (GetMode i) then fuse_reply_err EISDIR s else fuse_reply_err EINVAL s)
            else do {
              (ret, s') \<leftarrow> on_inode ino (File_FileTruncate e (st_size a)) s;
              if ret = 0 then do { i' \<leftarrow> GetInode ino s'; Some ([Inode_ReplyAttr i'], s') }
              else fuse_reply_err ret s'
            }
          else
            let (r, i') = Inode_ReplySetAttr e a to_set i in Some ([r], put_inode ino i' s))"

definition FuseAccess :: "fuse_ctx \<Rightarrow> ino_t \<Rightarrow> u32 \<Rightarrow> fs \<Rightarrow> outcome" where
  "FuseAccess ctx ino msk s =
     (case live ino s of
        None \<Rightarrow> fuse_reply_err ENOENT s
      | Some i \<Rightarrow> Some ([Inode_ReplyAccess msk (ctx_gid ctx) (ctx_uid ctx) i], s))"

definition FuseStatfs :: "fs \<Rightarrow> outcome" where
  "FuseStatfs s = Some ([ReplyStatfs (FsStat (m_stbuf s))], s)"

section \<open>Opening and closing\<close>

definition FuseOpenDir :: "ino_t \<Rightarrow> fs \<Rightarrow> outcome" where
  "FuseOpenDir ino s =
     (case live ino s of
        None \<Rightarrow> fuse_reply_err ENOENT s
      | Some i \<Rightarrow> if is_File i then fuse_reply_err ENOTDIR s else Some ([ReplyOpen], s))"

definition FuseReleaseDir :: "ino_t \<Rightarrow> fs \<Rightarrow> outcome" where
  "FuseReleaseDir ino s =
     (case live ino s of
        None \<Rightarrow> fuse_reply_err ENOENT s
      | Some i \<Rightarrow> if is_File i then fuse_reply_err ENOTDIR s else fuse_reply_err 0 s)"

definition FuseOpen :: "ino_t \<Rightarrow> fs \<Rightarrow> outcome" where
  "FuseOpen ino s =
     (case live ino s of
        None \<Rightarrow> fuse_reply_err ENOENT s
      | Some i \<Rightarrow> if is_Directory i then fuse_reply_err EISDIR s else Some ([ReplyOpen], s))"

definition FuseRelease :: "ino_t \<Rightarrow> fs \<Rightarrow> outcome" where
  "FuseRelease ino s =
     (case live ino s of
        None \<Rightarrow> fuse_reply_err ENOENT s
      | Some i \<Rightarrow> if is_Directory i then fuse_reply_err EISDIR s else fuse_reply_err 0 s)"

definition FuseFsync :: "ino_t \<Rightarrow> fs \<Rightarrow> outcome" where
  "FuseFsync ino s =
     (case GetInode ino s of None \<Rightarrow> fuse_reply_err ENOENT s | Some _ \<Rightarrow> fuse_reply_err 0 s)"

definition FuseFsyncDir :: "ino_t \<Rightarrow> fs \<Rightarrow> outcome" where
  "FuseFsyncDir ino s =
     (case live ino s of
        None \<Rightarrow> fuse_reply_err ENOENT s
      | Some i \<Rightarrow> if \<not> is_Directory i then fuse_reply_err ENOTDIR s else fuse_reply_err 0 s)"

definition FuseFlush :: "ino_t \<Rightarrow> fs \<Rightarrow> outcome" where
  "FuseFlush ino s = fuse_reply_err 0 s"

definition FuseGetLock :: "ino_t \<Rightarrow> fs \<Rightarrow> outcome" where
  "FuseGetLock ino s = Some ([], s)"

section \<open>Creating\<close>

definition FuseMknod ::
    "env \<Rightarrow> fuse_ctx \<Rightarrow> ino_t \<Rightarrow> string \<Rightarrow> mode_t \<Rightarrow> u64 \<Rightarrow> fs \<Rightarrow> outcome" where
  "FuseMknod e ctx parent name mode rdev s =
     (case live parent s of
        None \<Rightarrow> fuse_reply_err ENOENT s
      | Some p \<Rightarrow>
          if \<not> is_Directory p then fuse_reply_err ENOTDIR s
          else if GetFreeInodes (m_stbuf s) \<le> 0 then fuse_reply_err ENOSPC s
          else if ChildInodeNumberWithName name p \<noteq> INO_NOTFOUND then fuse_reply_err EEXIST s
          else do {
            (ino, s') \<leftarrow> do_create_node e ctx parent name mode rdev None s;
            if ino > 0 then reply_entry (word_of_int ino) s' else fuse_reply_err (- ino) s'
          })"

definition FuseMkdir :: "env \<Rightarrow> fuse_ctx \<Rightarrow> ino_t \<Rightarrow> string \<Rightarrow> mode_t \<Rightarrow> fs \<Rightarrow> outcome" where
  "FuseMkdir e ctx parent name mode s =
     (case live parent s of
        None \<Rightarrow> fuse_reply_err ENOENT s
      | Some p \<Rightarrow>
          if \<not> is_Directory p then fuse_reply_err ENOTDIR s
          else if GetFreeInodes (m_stbuf s) \<le> 0 then fuse_reply_err ENOSPC s
          else if ChildInodeNumberWithName name p \<noteq> INO_NOTFOUND then fuse_reply_err EEXIST s
          else do {
            (ino, s') \<leftarrow> do_create_node e ctx parent name (mode OR S_IFDIR) 0 None s;
            if ino > 0 then reply_entry (word_of_int ino) s' else fuse_reply_err (- ino) s'
          })"

definition FuseCreate :: "env \<Rightarrow> fuse_ctx \<Rightarrow> ino_t \<Rightarrow> string \<Rightarrow> mode_t \<Rightarrow> fs \<Rightarrow> outcome" where
  "FuseCreate e ctx parent name mode s =
     (case live parent s of
        None \<Rightarrow> fuse_reply_err ENOENT s
      | Some p \<Rightarrow>
          if \<not> is_Directory p then fuse_reply_err ENOTDIR s
          else do {
            (ino, s') \<leftarrow> do_create_node e ctx parent name (mode OR S_IFREG) 0 None s;
            if ino > 0 then reply_create (word_of_int ino) s' else fuse_reply_err (- ino) s'
          })"

text \<open>
  \<^verbatim>\<open>FuseSymlink\<close> does not return after the two out-of-space replies, so it may send several.
\<close>

definition PATH_MAX :: nat where "PATH_MAX = 4096"

definition FuseSymlink :: "env \<Rightarrow> fuse_ctx \<Rightarrow> string \<Rightarrow> ino_t \<Rightarrow> string \<Rightarrow> fs \<Rightarrow> outcome" where
  "FuseSymlink e ctx link parent name s =
     (case live parent s of
        None \<Rightarrow> fuse_reply_err ENOENT s
      | Some dir \<Rightarrow>
          if \<not> is_Directory dir then fuse_reply_err ENOTDIR s
          else
            let r1 = (if \<not> CheckHasSpaceFor None (of_nat (min (length name) PATH_MAX)) (m_stbuf s)
                      then [ReplyErr ENOSPC] else []);
                r2 = (if GetFreeInodes (m_stbuf s) \<le> 0 then [ReplyErr ENOSPC] else [])
            in do {
              (rs, s'') \<leftarrow>
                (if ChildInodeNumberWithName name dir \<noteq> INO_NOTFOUND then fuse_reply_err EEXIST s
                 else do {
                   (ino, s') \<leftarrow> do_create_node e ctx parent name (0x1FF OR S_IFLNK) 0 (Some link) s;
                   if ino > 0 then reply_entry (word_of_int ino) s' else fuse_reply_err (- ino) s'
                 });
              Some (r1 @ r2 @ rs, s'')
            })"

definition FuseReadLink :: "ino_t \<Rightarrow> fs \<Rightarrow> outcome" where
  "FuseReadLink ino s =
     (case live ino s of
        None \<Rightarrow> fuse_reply_err ENOENT s
      | Some i \<Rightarrow>
          if \<not> is_SymLink i then fuse_reply_err EINVAL s
          else Some ([ReplyReadlink (m_link i)], s))"

definition FuseLink :: "ino_t \<Rightarrow> ino_t \<Rightarrow> string \<Rightarrow> fs \<Rightarrow> outcome" where
  "FuseLink ino newparent newname s =
     (case live ino s of
        None \<Rightarrow> fuse_reply_err ENOENT s
      | Some src \<Rightarrow>
     (case live newparent s of
        None \<Rightarrow> fuse_reply_err ENOENT s
      | Some p \<Rightarrow>
          if \<not> is_Directory p then fuse_reply_err ENOTDIR s
          else if ChildInodeNumberWithName newname p \<noteq> INO_NOTFOUND then fuse_reply_err EEXIST s
          else do {
            (ret, s1) \<leftarrow> on_inode newparent (AddChild newname ino) s;
            if ret < 0 then fuse_reply_err (- ret) s1
            else do {
              s2 \<leftarrow> modify_inode ino IncrementLinkCount s1;
              reply_entry ino s2
            }
          }))"

section \<open>Removing\<close>

definition FuseUnlink :: "env \<Rightarrow> ino_t \<Rightarrow> string \<Rightarrow> fs \<Rightarrow> outcome" where
  "FuseUnlink e parent name s =
     (case live parent s of
        None \<Rightarrow> fuse_reply_err ENOENT s
      | Some p \<Rightarrow>
          if \<not> is_Directory p then fuse_reply_err ENOTDIR s
          else
            let ino = ChildInodeNumberWithName name p in
            if ino = INO_NOTFOUND then fuse_reply_err ENOENT s
            else do {
              (_, s1) \<leftarrow> on_inode parent (RemoveChild e name) s;
              s2 \<leftarrow> modify_inode ino DecrementLinkCount s1;
              fuse_reply_err 0 s2
            })"

text \<open>\<^verbatim>\<open>while (dir_p->NumLinks() > 0) dir_p->DecrementLinkCount();\<close>\<close>

function drop_links :: "Inode \<Rightarrow> Inode" where
  "drop_links i = (if NumLinks i > 0 then drop_links (DecrementLinkCount i) else i)"
  by pat_completeness auto
termination
proof (relation "measure (\<lambda>i. unat (ucast (st_nlink (i_attr i)) :: u32))", goal_cases)
  case (2 i)
  let ?n = "ucast (st_nlink (i_attr i)) :: u32"
  from 2 have "?n \<noteq> 0" by (auto simp: NumLinks_def)
  then have "unat (?n - 1) < unat ?n"
    by (simp add: unat_minus_one unat_gt_0)
  moreover have "(ucast (st_nlink (i_attr i) - 1) :: u32) = ?n - 1"
    by (rule ucast_minus_1)
  ultimately show ?case by (simp add: DecrementLinkCount_def)
qed simp

declare drop_links.simps [simp del]

definition FuseRmdir :: "env \<Rightarrow> ino_t \<Rightarrow> string \<Rightarrow> fs \<Rightarrow> outcome" where
  "FuseRmdir e parent name s =
     (case live parent s of
        None \<Rightarrow> fuse_reply_err ENOENT s
      | Some p \<Rightarrow>
          if \<not> is_Directory p then fuse_reply_err ENOTDIR s
          else
            let ino = ChildInodeNumberWithName name p in
            if ino = INO_NOTFOUND then fuse_reply_err ENOENT s
            else if ino = parent then fuse_reply_err EINVAL s
            else (case live ino s of
                None \<Rightarrow> fuse_reply_err ENOENT s
              | Some dir \<Rightarrow>
                  if \<not> is_Directory dir then fuse_reply_err ENOTDIR s
                  else if \<not> Directory_IsEmpty (\<lambda>k. GetInode k s) dir then fuse_reply_err ENOTEMPTY s
                  else do {
                    (_, s1) \<leftarrow> on_inode parent (RemoveChild e name) s;
                    s2 \<leftarrow> modify_inode parent DecrementLinkCount s1;
                    s3 \<leftarrow> modify_inode ino drop_links s2;
                    fuse_reply_err 0 s3
                  }))"

definition FuseForget :: "ino_t \<Rightarrow> u64 \<Rightarrow> fs \<Rightarrow> outcome" where
  "FuseForget ino nlookup s =
     (case GetInode ino s of
        None \<Rightarrow> Some ([], s)
      | Some i \<Rightarrow>
          let (r, i') = Inode_Forget nlookup i in
          if Forgotten i' \<and> HasNoLinks i' then
            let blocks_freed = UsedBlocks i';
                s1 = DeleteInode ino s
            in Some ([r], s1\<lparr>m_stbuf := UpdateUsedBlocks (- blocks_freed)
                              (UpdateUsedInodes (-1) (m_stbuf s1))\<rparr>)
          else Some ([r], put_inode ino i' s))"

section \<open>Renaming\<close>

text \<open>
  The part of \<^verbatim>\<open>FuseRename\<close> for an existing destination. The handler holds the \<^verbatim>\<open>childrenRwSem\<close> of both parents
  exclusively and \<^verbatim>\<open>IsEmpty\<close> takes that of the destination shared: on a destination that is one of the parents
  the thread waits for itself (or the lock throws), so there is no result.
\<close>

definition rename_replace ::
    "env \<Rightarrow> ino_t \<Rightarrow> string \<Rightarrow> ino_t \<Rightarrow> string \<Rightarrow> ino_t \<Rightarrow> Inode \<Rightarrow> ino_t \<Rightarrow> Inode \<Rightarrow> fs \<Rightarrow> outcome" where
  "rename_replace e parent name newparent newname srcIno srcInode existingIno existingInode s =
     (let srcDir = S_ISDIR (GetMode srcInode); exDir = S_ISDIR (GetMode existingInode) in
      if srcDir \<and> \<not> exDir then fuse_reply_err ENOTDIR s
      else if exDir \<and> \<not> is_Directory existingInode then None
      else if exDir \<and> (existingIno = parent \<or> existingIno = newparent) then None
      else if exDir \<and> \<not> Directory_IsEmpty (\<lambda>k. GetInode k s) existingInode
      then fuse_reply_err ENOTEMPTY s
      else if \<not> srcDir \<and> exDir then fuse_reply_err EISDIR s
      else do {
        s1 \<leftarrow> modify_inode existingIno DecrementLinkCount s;
        s2 \<leftarrow> modify_inode newparent (\<lambda>d. snd (UpdateChild_nolock e newname srcIno d)) s1;
        (_, s3) \<leftarrow> on_inode parent (RemoveChild_nolock e name) s2;
        s4 \<leftarrow> (if exDir then do {
                 t1 \<leftarrow> modify_inode existingIno DecrementLinkCount s3;
                 t2 \<leftarrow> modify_inode existingIno DecrementLinkCount t1;
                 modify_inode parent DecrementLinkCount t2
               } else Some s3);
        fuse_reply_err 0 s4
      })"

text \<open>The part for a destination that does not exist. The result of \<^verbatim>\<open>_AddChild\<close> is dropped.\<close>

definition rename_move ::
    "env \<Rightarrow> ino_t \<Rightarrow> string \<Rightarrow> ino_t \<Rightarrow> string \<Rightarrow> ino_t \<Rightarrow> Inode \<Rightarrow> fs \<Rightarrow> outcome" where
  "rename_move e parent name newparent newname srcIno srcInode s = do {
     (_, s1) \<leftarrow> on_inode newparent (AddChild_nolock newname srcIno) s;
     (_, s2) \<leftarrow> on_inode parent (RemoveChild_nolock e name) s1;
     s3 \<leftarrow> (if S_ISDIR (GetMode srcInode) then do {
              t1 \<leftarrow> modify_inode parent DecrementLinkCount s2;
              modify_inode newparent IncrementLinkCount t1
            } else Some s2);
     fuse_reply_err 0 s3
   }"

definition FuseRename :: "env \<Rightarrow> ino_t \<Rightarrow> string \<Rightarrow> ino_t \<Rightarrow> string \<Rightarrow> fs \<Rightarrow> outcome" where
  "FuseRename e parent name newparent newname s =
     (case live parent s of
        None \<Rightarrow> fuse_reply_err ENOENT s
      | Some parentDir \<Rightarrow>
     (case live newparent s of
        None \<Rightarrow> fuse_reply_err ENOENT s
      | Some newParentDir \<Rightarrow>
          if \<not> is_Directory parentDir then fuse_reply_err ENOTDIR s
          else if \<not> is_Directory newParentDir then fuse_reply_err ENOTDIR s
          else
            let srcIno = ChildInodeNumberWithName name parentDir in
            (case live srcIno s of
               None \<Rightarrow> fuse_reply_err ENOENT s
             | Some srcInode \<Rightarrow>
                 let existingIno = ChildInodeNumberWithName_nolock newname newParentDir in
                 (case GetInode existingIno s of
                    Some existingInode \<Rightarrow>
                      if NumLinks existingInode > 0
                      then rename_replace e parent name newparent newname srcIno srcInode
                             existingIno existingInode s
                      else rename_move e parent name newparent newname srcIno srcInode s
                  | None \<Rightarrow> rename_move e parent name newparent newname srcIno srcInode s))))"

section \<open>Reading and writing\<close>

definition FuseWrite :: "env \<Rightarrow> ino_t \<Rightarrow> byte list option \<Rightarrow> off_t \<Rightarrow> fs \<Rightarrow> outcome" where
  "FuseWrite e ino buf off s =
     (case buf of
        None \<Rightarrow> fuse_reply_err EINVAL s
      | Some data \<Rightarrow>
     (case live ino s of
        None \<Rightarrow> fuse_reply_err ENOENT s
      | Some _ \<Rightarrow> do {
          (r, s') \<leftarrow> on_inode ino (WriteAndReply e data off) s;
          Some ([r], s')
        }))"

definition FuseRead :: "env \<Rightarrow> ino_t \<Rightarrow> size_t \<Rightarrow> off_t \<Rightarrow> fs \<Rightarrow> outcome" where
  "FuseRead e ino sz off s =
     (case live ino s of
        None \<Rightarrow> fuse_reply_err ENOENT s
      | Some i \<Rightarrow> do {
          (r, i') \<leftarrow> ReadAndReply e sz off i;
          Some ([r], put_inode ino i' s)
        })"

section \<open>Extended attributes\<close>

definition FuseSetXAttr :: "env \<Rightarrow> ino_t \<Rightarrow> string \<Rightarrow> byte list \<Rightarrow> u32 \<Rightarrow> fs \<Rightarrow> outcome" where
  "FuseSetXAttr e ino name value flags s =
     (case live ino s of
        None \<Rightarrow> fuse_reply_err ENOENT s
      | Some i \<Rightarrow> do {
          (r, h, i') \<leftarrow> Inode_SetXAttrAndReply e name value flags 0 (xheap s, i);
          Some ([r], (put_inode ino i' s)\<lparr>xheap := h\<rparr>)
        })"

definition FuseGetXAttr :: "ino_t \<Rightarrow> string \<Rightarrow> size_t \<Rightarrow> fs \<Rightarrow> outcome" where
  "FuseGetXAttr ino name sz s =
     (case live ino s of
        None \<Rightarrow> fuse_reply_err ENOENT s
      | Some i \<Rightarrow> do {
          r \<leftarrow> Inode_GetXAttrAndReply name sz 0 (xheap s, i);
          Some ([r], s)
        })"

definition FuseListXAttr :: "env \<Rightarrow> ino_t \<Rightarrow> size_t \<Rightarrow> fs \<Rightarrow> outcome" where
  "FuseListXAttr e ino sz s =
     (case live ino s of
        None \<Rightarrow> fuse_reply_err ENOENT s
      | Some i \<Rightarrow> do { r \<leftarrow> Inode_ListXAttrAndReply e sz i; Some ([r], s) })"

definition FuseRemoveXAttr :: "ino_t \<Rightarrow> string \<Rightarrow> fs \<Rightarrow> outcome" where
  "FuseRemoveXAttr ino name s =
     (case live ino s of
        None \<Rightarrow> fuse_reply_err ENOENT s
      | Some i \<Rightarrow>
          let (r, i') = Inode_RemoveXAttrAndReply name i in Some ([r], put_inode ino i' s))"

end
