(* ===== verification/Fs_Invariant.thy ===== *)
theory Fs_Invariant
  imports Handlers
begin

text \<open>
  The invariant of the global state and its preservation by the table operations and by every
  handler of \<^verbatim>\<open>fuse_cpp_ramfs.cpp\<close> that works on the table: each occupied slot holds a
  well-formed object that knows its own number, the queue of reusable numbers lists exactly the
  empty slots, the free inode counter counts, and the table never outgrows the configured
  number of inodes.
\<close>

section \<open>The invariant\<close>

definition table_ok :: "Inode option list \<Rightarrow> bool" where
  "table_ok tab \<longleftrightarrow> (\<forall>k < length tab. case tab ! k of
     None \<Rightarrow> True | Some i \<Rightarrow> inode_ok i \<and> unat (GetIno i) = k)"

definition queue_ok :: "Inode option list \<Rightarrow> ino_t list \<Rightarrow> bool" where
  "queue_ok tab dels \<longleftrightarrow> distinct dels \<and>
     (\<forall>ino. ino \<in> set dels \<longleftrightarrow> unat ino < length tab \<and> tab ! unat ino = None)"

definition live_count :: "Inode option list \<Rightarrow> nat" where
  "live_count tab = length (filter (\<lambda>x. x \<noteq> None) tab)"

definition counters_ok :: "Inode option list \<Rightarrow> statvfs \<Rightarrow> bool" where
  "counters_ok tab sb \<longleftrightarrow>
     unat (f_ffree sb) + live_count tab = unat (f_files sb) \<and> length tab \<le> unat (f_files sb) \<and>
     unat (f_files sb) < 2 ^ 63 \<and> f_favail sb = f_ffree sb \<and> f_bavail sb = f_bfree sb"

definition snapshot_ok :: "verifs2_state \<Rightarrow> bool" where
  "snapshot_ok = (\<lambda>(tab, dels, sb). table_ok tab \<and> queue_ok tab dels \<and> counters_ok tab sb)"

definition fs_ok :: "fs \<Rightarrow> bool" where
  "fs_ok s \<longleftrightarrow> snapshot_ok (Inodes s, DeletedInodes s, m_stbuf s) \<and>
     (\<forall>(k, st) \<in> set (state_pool s). snapshot_ok st) \<and>
     (\<forall>(k, ctx) \<in> set (readdirStates s). rd_it ctx \<le> length (rd_children ctx))"

lemma fs_okD:
  assumes "fs_ok s"
  shows "table_ok (Inodes s)" "queue_ok (Inodes s) (DeletedInodes s)" "counters_ok (Inodes s) (m_stbuf s)"
  using assms by (simp_all add: fs_ok_def snapshot_ok_def)

lemma fs_okI:
  assumes "table_ok (Inodes s')" "queue_ok (Inodes s') (DeletedInodes s')"
    "counters_ok (Inodes s') (m_stbuf s')" "fs_ok s" "state_pool s' = state_pool s"
    "readdirStates s' = readdirStates s"
  shows "fs_ok s'"
  using assms by (simp add: fs_ok_def snapshot_ok_def)

section \<open>The table\<close>

lemma GetInode_Some:
  "GetInode ino s = Some i \<longleftrightarrow> unat ino < length (Inodes s) \<and> Inodes s ! unat ino = Some i"
  by (simp add: GetInode_def)

lemma fs_ok_inode:
  assumes "fs_ok s" "GetInode ino s = Some i"
  shows "inode_ok i" "GetIno i = ino"
proof -
  from assms(2) have k: "unat ino < length (Inodes s)" "Inodes s ! unat ino = Some i"
    by (simp_all add: GetInode_Some)
  with fs_okD(1) [OF assms(1)] have "inode_ok i" "unat (GetIno i) = unat ino"
    by (auto simp: table_ok_def split: option.splits)
  then show "inode_ok i" "GetIno i = ino" by (simp_all add: word_unat_eq_iff)
qed

lemma liveD: "live ino s = Some i \<Longrightarrow> GetInode ino s = Some i \<and> \<not> HasNoLinks i"
  by (auto simp: live_def split: option.splits if_splits)

lemma live_count_append [simp]: "live_count (xs @ ys) = live_count xs + live_count ys"
  by (simp add: live_count_def)

lemma live_count_simps [simp]:
  "live_count [] = 0" "live_count (Some i # xs) = Suc (live_count xs)"
  "live_count (None # xs) = live_count xs"
  by (simp_all add: live_count_def)

lemma live_count_update:
  "k < length tab \<Longrightarrow>
   live_count (tab[k := x]) + (if tab ! k = None then 0 else 1) =
   live_count tab + (if x = None then 0 else 1)"
proof (induction tab arbitrary: k)
  case (Cons a tab)
  then show ?case by (cases k; cases a; cases x) auto
qed simp

lemma live_count_le: "live_count tab \<le> length tab"
  by (simp add: live_count_def)

lemma live_count_full: "None \<notin> set tab \<Longrightarrow> live_count tab = length tab"
  unfolding live_count_def by (subst filter_True) (auto, metis not_None_eq)

lemma table_ok_update:
  assumes "table_ok tab" "case x of None \<Rightarrow> True | Some i \<Rightarrow> inode_ok i \<and> unat (GetIno i) = k"
  shows "table_ok (tab[k := x])"
  unfolding table_ok_def
proof (intro allI impI)
  fix m assume "m < length (tab[k := x])"
  then show "case tab[k := x] ! m of None \<Rightarrow> True | Some i \<Rightarrow> inode_ok i \<and> unat (GetIno i) = m"
    using assms by (cases "m = k") (auto simp: table_ok_def)
qed

lemma queue_ok_overwrite:
  assumes "queue_ok tab dels" "k < length tab" "tab ! k = Some i"
  shows "queue_ok (tab[k := Some j]) dels"
  using assms by (auto simp: queue_ok_def nth_list_update)

lemma queue_okD: "queue_ok tab dels \<Longrightarrow> ino \<in> set dels \<Longrightarrow> unat ino < length tab \<and> tab ! unat ino = None"
  by (simp add: queue_ok_def)

lemma GetInode_put_inode:
  "GetInode k (put_inode ino i s) =
     (if k = ino \<and> unat ino < length (Inodes s) then Some i else GetInode k s)"
  by (cases "k = ino") (auto simp: GetInode_def put_inode_def word_unat_eq_iff)

lemma put_inode_simps [simp]:
  "DeletedInodes (put_inode ino i s) = DeletedInodes s" "m_stbuf (put_inode ino i s) = m_stbuf s"
  "xheap (put_inode ino i s) = xheap s" "readdirStates (put_inode ino i s) = readdirStates s"
  "state_pool (put_inode ino i s) = state_pool s" "length (Inodes (put_inode ino i s)) = length (Inodes s)"
  by (simp_all add: put_inode_def)

lemma GetInode_updates [simp]:
  "GetInode k (s\<lparr>m_stbuf := sb\<rparr>) = GetInode k s" "GetInode k (s\<lparr>xheap := h\<rparr>) = GetInode k s"
  "GetInode k (s\<lparr>readdirStates := r\<rparr>) = GetInode k s" "GetInode k (s\<lparr>state_pool := p\<rparr>) = GetInode k s"
  "GetInode k (s\<lparr>DeletedInodes := d\<rparr>) = GetInode k s"
  by (simp_all add: GetInode_def)

text \<open>Overwriting an occupied slot by a well-formed object of the same number.\<close>

lemma fs_ok_put_inode:
  assumes ok: "fs_ok s" and old: "GetInode ino s = Some i" and new: "inode_ok j" "GetIno j = GetIno i"
  shows "fs_ok (put_inode ino j s)"
proof (rule fs_okI [OF _ _ _ ok])
  from old have k: "unat ino < length (Inodes s)" "Inodes s ! unat ino = Some i"
    by (simp_all add: GetInode_Some)
  have "unat (GetIno j) = unat ino" using fs_ok_inode [OF ok old] new by simp
  with new fs_okD(1) [OF ok] show "table_ok (Inodes (put_inode ino j s))"
    by (simp add: put_inode_def table_ok_update)
  show "queue_ok (Inodes (put_inode ino j s)) (DeletedInodes (put_inode ino j s))"
    using queue_ok_overwrite [OF fs_okD(2) [OF ok] k] by (simp add: put_inode_def)
  show "counters_ok (Inodes (put_inode ino j s)) (m_stbuf (put_inode ino j s))"
    using live_count_update [OF k(1), of "Some j"] fs_okD(3) [OF ok] k
    by (simp add: put_inode_def counters_ok_def)
qed simp_all

text \<open>Counter updates that only concern blocks.\<close>

lemma fs_ok_blocks:
  assumes "fs_ok s" shows "fs_ok (s\<lparr>m_stbuf := UpdateUsedBlocks d (m_stbuf s)\<rparr>)"
  using assms
  by (auto simp: fs_ok_def snapshot_ok_def counters_ok_def UpdateUsedBlocks_def)

lemma fs_ok_xheap [simp]: "fs_ok (s\<lparr>xheap := h\<rparr>) = fs_ok s"
  by (simp add: fs_ok_def)

lemma on_inodeE:
  assumes "on_inode ino f s = Some (r, s')"
  obtains i sb j where "GetInode ino s = Some i" "f (m_stbuf s, i) = Some (r, sb, j)"
    "s' = (put_inode ino j s)\<lparr>m_stbuf := sb\<rparr>"
  using assms by (auto simp: on_inode_def split: Option.bind_splits)

lemma fs_ok_on_inode:
  assumes ok: "fs_ok s" and run: "on_inode ino f s = Some (r, s')"
    and f: "\<And>i sb j. GetInode ino s = Some i \<Longrightarrow> inode_ok i \<Longrightarrow> f (m_stbuf s, i) = Some (r, sb, j) \<Longrightarrow>
      inode_ok j \<and> GetIno j = GetIno i \<and> (\<exists>d. sb = UpdateUsedBlocks d (m_stbuf s))"
  shows "fs_ok s'"
proof -
  obtain i sb j where r: "GetInode ino s = Some i" "f (m_stbuf s, i) = Some (r, sb, j)"
    "s' = (put_inode ino j s)\<lparr>m_stbuf := sb\<rparr>" by (rule on_inodeE [OF run])
  from f [OF r(1) fs_ok_inode(1) [OF ok r(1)] r(2)] obtain d where
    j: "inode_ok j" "GetIno j = GetIno i" and d: "sb = UpdateUsedBlocks d (m_stbuf s)" by blast
  have "fs_ok (put_inode ino j s)" by (rule fs_ok_put_inode [OF ok r(1) j])
  from fs_ok_blocks [OF this, of d] show ?thesis by (simp add: r(3) d)
qed

lemma fs_ok_modify_inode:
  assumes ok: "fs_ok s" and run: "modify_inode ino g s = Some s'"
    and g: "\<And>i. GetInode ino s = Some i \<Longrightarrow> inode_ok i \<Longrightarrow> inode_ok (g i) \<and> GetIno (g i) = GetIno i"
  shows "fs_ok s'"
proof -
  from run obtain i where i: "GetInode ino s = Some i" and s': "s' = put_inode ino (g i) s"
    by (auto simp: modify_inode_def split: Option.bind_splits)
  from g [OF i fs_ok_inode(1) [OF ok i]] show ?thesis
    unfolding s' by (intro fs_ok_put_inode [OF ok i]) auto
qed

section \<open>Operations on one object keep it well-formed\<close>

text \<open>An update of the attributes that leaves type, size, blocks and number alone.\<close>

lemma inode_ok_upd_attr:
  assumes "st_mode (g (i_attr i)) AND S_IFMT = st_mode (i_attr i) AND S_IFMT"
    "st_size (g (i_attr i)) = st_size (i_attr i)" "st_blocks (g (i_attr i)) = st_blocks (i_attr i)"
  shows "inode_ok (upd_attr g i) = inode_ok i"
  using assms
  by (cases "m_obj i") (simp_all add: inode_ok_def mode_matches_def GetMode_def file_ok_def dir_ok_def
      Size_def UsedBlocks_def Let_def)

lemma inode_ok_nlookup [simp]: "inode_ok (i\<lparr>m_nlookup := n\<rparr>) = inode_ok i"
  by (cases "m_obj i") (simp_all add: inode_ok_def mode_matches_def GetMode_def file_ok_def dir_ok_def
      Size_def UsedBlocks_def)

lemma GetIno_simps [simp]:
  "GetIno (i\<lparr>m_nlookup := n\<rparr>) = GetIno i" "GetIno (i\<lparr>m_xattr := x\<rparr>) = GetIno i"
  "GetIno (i\<lparr>m_obj := b\<rparr>) = GetIno i" "GetIno (set_children ch i) = GetIno i"
  by (simp_all add: GetIno_def set_children_def)

lemma inode_ok_xattr: "inode_ok i \<Longrightarrow> map_sorted x \<Longrightarrow> inode_ok (i\<lparr>m_xattr := x\<rparr>)"
  by (cases "m_obj i") (simp_all add: inode_ok_def mode_matches_def GetMode_def file_ok_def dir_ok_def
      Size_def UsedBlocks_def)

lemma link_count_keeps:
  "inode_ok (IncrementLinkCount i) = inode_ok i" "GetIno (IncrementLinkCount i) = GetIno i"
  "inode_ok (DecrementLinkCount i) = inode_ok i" "GetIno (DecrementLinkCount i) = GetIno i"
  by (simp_all add: IncrementLinkCount_def DecrementLinkCount_def inode_ok_upd_attr GetIno_def)

lemma drop_links_keeps: "inode_ok (drop_links i) = inode_ok i \<and> GetIno (drop_links i) = GetIno i"
proof (induction i rule: drop_links.induct)
  case (1 i)
  then show ?case by (subst (1 2) drop_links.simps) (simp add: link_count_keeps)
qed

lemma set_attr_keeps:
  assumes "flag_set to_set FUSE_SET_ATTR_MODE \<Longrightarrow> st_mode a AND S_IFMT = GetMode i AND S_IFMT"
    and "\<not> flag_set to_set FUSE_SET_ATTR_SIZE"
  shows "inode_ok (snd (Inode_ReplySetAttr e a to_set i)) = inode_ok i"
    "GetIno (snd (Inode_ReplySetAttr e a to_set i)) = GetIno i"
  using assms
  by (simp_all add: Inode_ReplySetAttr_def Let_def inode_ok_upd_attr GetMode_def GetIno_def)

lemma is_kind_simps:
  "is_File i \<longleftrightarrow> (\<exists>b. m_obj i = File b)" "is_Directory i \<longleftrightarrow> (\<exists>c. m_obj i = Directory c)"
  "is_SymLink i \<longleftrightarrow> (\<exists>l. m_obj i = SymLink l)"
  by (cases "m_obj i"; simp add: is_File_def is_Directory_def is_SymLink_def)+

lemma inode_ok_file: "inode_ok i \<Longrightarrow> is_File i \<Longrightarrow> file_ok i"
  by (auto simp: inode_ok_def is_kind_simps)

lemma inode_ok_dir: "inode_ok i \<Longrightarrow> is_Directory i \<Longrightarrow> dir_ok i"
  by (auto simp: inode_ok_def is_kind_simps)

lemma file_ok_keeps:
  assumes "inode_ok i" "file_ok i" "file_ok j" "same_identity i j"
  shows "inode_ok j" "GetIno j = GetIno i"
proof -
  from assms(2,3) obtain b c where "m_obj i = File b" "m_obj j = File c" by (auto elim!: file_okE)
  with assms show "inode_ok j" "GetIno j = GetIno i"
    by (auto simp: inode_ok_def same_identity_def mode_matches_def GetMode_def GetIno_def)
qed

lemma dir_ok_keeps:
  assumes "inode_ok i" "dir_ok i" "dir_ok j" "m_xattr j = m_xattr i"
    "st_mode (i_attr j) = st_mode (i_attr i)" "st_ino (i_attr j) = st_ino (i_attr i)"
  shows "inode_ok j" "GetIno j = GetIno i"
proof -
  from assms(2) have "m_obj i = Directory (m_children i)" by (rule dir_okE)
  moreover from assms(3) have "m_obj j = Directory (m_children j)" by (rule dir_okE)
  ultimately show "inode_ok j" "GetIno j = GetIno i"
    using assms by (auto simp: inode_ok_def mode_matches_def GetMode_def GetIno_def)
qed

text \<open>What the entry operations keep of a directory, on every branch.\<close>

definition dir_step :: "statvfs \<times> Inode \<Rightarrow> statvfs \<times> Inode \<Rightarrow> bool" where
  "dir_step = (\<lambda>(sb, i) (sb', j). inode_ok j \<and> is_Directory j \<and> GetIno j = GetIno i \<and>
     m_nlookup j = m_nlookup i \<and> m_xattr j = m_xattr i \<and> GetMode j = GetMode i \<and>
     st_nlink (i_attr j) = st_nlink (i_attr i) \<and> (\<exists>d. sb' = UpdateUsedBlocks d sb))"

lemma dir_step_refl: "inode_ok i \<Longrightarrow> is_Directory i \<Longrightarrow> dir_step (sb, i) (sb, i)"
  by (auto simp: dir_step_def intro!: exI [of _ 0])

lemma dir_stepI:
  assumes "inode_ok i" "dir_ok i" "dir_ok j" "m_xattr j = m_xattr i" "m_nlookup j = m_nlookup i"
    "st_mode (i_attr j) = st_mode (i_attr i)" "st_ino (i_attr j) = st_ino (i_attr i)"
    "st_nlink (i_attr j) = st_nlink (i_attr i)" "sb' = UpdateUsedBlocks d sb"
  shows "dir_step (sb, i) (sb', j)"
proof -
  have "is_Directory j" using assms(3) by (auto elim!: dir_okE simp: is_kind_simps)
  with dir_ok_keeps [OF assms(1-4,6,7)] assms show ?thesis
    by (auto simp: dir_step_def GetMode_def)
qed

lemma AddChild_keeps:
  assumes i: "inode_ok i" "is_Directory i" and fits: "dir_bytes (m_children i) + 72 + length name < 2 ^ 63"
  obtains r sb' j where "AddChild name ino (sb, i) = Some (r, sb', j)" "dir_step (sb, i) (sb', j)"
proof (cases "name \<in> dom (dir_lookup i) \<or> \<not> CheckHasSpaceFor (Some (usage_of i)) (elem_size name) sb")
  case True
  then have "\<exists>r. AddChild name ino (sb, i) = Some (r, sb, i)"
    using AddChild_exists [of name i ino sb] AddChild_no_space [of name i sb ino] by blast
  with that dir_step_refl [OF i] show ?thesis by blast
next
  case False
  have d: "dir_ok i" using i by (rule inode_ok_dir)
  from False obtain sb1 i1 where ok: "AddChild name ino (sb, i) = Some (0, sb1, i1)" "dir_ok i1"
      "sb1 = UpdateUsedBlocks (UsedBlocks i1 - UsedBlocks i) sb"
      "i_attr i1 = (i_attr i)\<lparr>st_size := Size i1, st_blocks := UsedBlocks i1\<rparr>"
      "m_nlookup i1 = m_nlookup i" "m_xattr i1 = m_xattr i"
    using AddChild_ok [OF d _ _ fits, of sb ino] by blast
  have "dir_step (sb, i) (sb1, i1)"
    by (rule dir_stepI [OF i(1) d ok(2,6,5) _ _ _ ok(3)]) (subst ok(4), simp)+
  with ok(1) that show ?thesis by blast
qed

lemma RemoveChild_keeps:
  assumes i: "inode_ok i" "is_Directory i"
  obtains r sb' j where "RemoveChild e name (sb, i) = Some (r, sb', j)" "dir_step (sb, i) (sb', j)"
proof (cases "name \<in> dom (dir_lookup i)")
  case False
  with that dir_step_refl [OF i] RemoveChild_missing [of name i e sb] show ?thesis by blast
next
  case True
  have d: "dir_ok i" using i by (rule inode_ok_dir)
  obtain sb1 i1 where ok: "RemoveChild e name (sb, i) = Some (0, sb1, i1)" "dir_ok i1"
      "sb1 = UpdateUsedBlocks (UsedBlocks i1 - UsedBlocks i) sb"
      "i_attr i1 = touch_cm e ((i_attr i)\<lparr>st_size := Size i1, st_blocks := UsedBlocks i1\<rparr>)"
      "m_nlookup i1 = m_nlookup i" "m_xattr i1 = m_xattr i"
    using RemoveChild_ok [OF d True, of e sb] by blast
  have "dir_step (sb, i) (sb1, i1)"
    by (rule dir_stepI [OF i(1) d ok(2,6,5) _ _ _ ok(3)]) (subst ok(4), simp)+
  with ok(1) that show ?thesis by blast
qed

lemma UpdateChild_keeps:
  assumes i: "inode_ok i" "is_Directory i"
  shows "dir_step (sb, i) (sb, snd (UpdateChild e name ino i))"
proof (cases "name \<in> dom (dir_lookup i)")
  case False
  with dir_step_refl [OF i] UpdateChild_missing [of name i e ino] show ?thesis by simp
next
  case True
  have d: "dir_ok i" using i by (rule inode_ok_dir)
  obtain j where ok: "UpdateChild e name ino i = (0, j)" "dir_ok j"
      "i_attr j = touch_cm e (i_attr i)" "m_nlookup j = m_nlookup i" "m_xattr j = m_xattr i"
    using UpdateChild_ok [OF d True, of e ino] by blast
  have "dir_step (sb, i) (sb, j)"
    by (rule dir_stepI [OF i(1) d ok(2,5,4), where d = 0]) (simp_all add: ok(3))
  with ok(1) show ?thesis by simp
qed

text \<open>Writing and truncating a file, on every branch.\<close>

definition file_step :: "statvfs \<times> Inode \<Rightarrow> statvfs \<times> Inode \<Rightarrow> bool" where
  "file_step = (\<lambda>(sb, i) (sb', j). file_ok j \<and> same_identity i j \<and>
     sb' = UpdateUsedBlocks (UsedBlocks j - UsedBlocks i) sb)"

lemma file_step_refl: "file_ok i \<Longrightarrow> file_step (sb, i) (sb, i)"
  by (simp add: file_step_def same_identity_def)

lemma file_write_keeps:
  assumes ok: "file_ok i" and bound: "unat off + length d < 2 ^ 63"
  obtains r sb' j where "File_WriteAndReply e d off (sb, i) = Some (r, sb', j)"
    "file_step (sb, i) (sb', j)"
proof (cases "unat off + length d \<le> 512 * blocks_for (unat (Size i)) \<or>
      CheckHasSpaceFor (Some (usage_of i)) (off + of_nat (length d) - Size i) sb \<and>
      env_alloc e (of_nat (512 * blocks_for (unat off + length d)))")
  case True
  with ok bound obtain sb' j where
    "File_WriteAndReply e d off (sb, i) = Some (ReplyWrite (of_nat (length d)), sb', j)"
    "file_ok j" "sb' = UpdateUsedBlocks (UsedBlocks j - UsedBlocks i) sb" "same_identity i j"
    by (rule file_write_ok)
  with that show ?thesis by (simp add: file_step_def)
next
  case False
  then have grow: "512 * blocks_for (unat (Size i)) < unat off + length d" by auto
  show ?thesis
  proof (cases "CheckHasSpaceFor (Some (usage_of i)) (off + of_nat (length d) - Size i) sb")
    case True
    with False have "\<not> env_alloc e (of_nat (512 * blocks_for (unat off + length d)))" by simp
    with that file_write_no_memory [OF ok bound grow True] file_step_refl [OF ok] show ?thesis by blast
  next
    case False
    with that file_write_error [OF ok bound grow] file_step_refl [OF ok] show ?thesis by blast
  qed
qed

lemma file_truncate_keeps:
  assumes ok: "file_ok i" and bound: "unat n < 2 ^ 63"
  obtains r sb' j where "File_FileTruncate e n (sb, i) = Some (r, sb', j)"
    "file_step (sb, i) (sb', j)"
proof (cases "CheckHasSpaceFor (Some (usage_of i)) (n - Size i) sb")
  case False
  with that file_truncate_no_space [OF ok False] file_step_refl [OF ok] show ?thesis by blast
next
  case space: True
  let ?room = "blocks_for (unat n) = blocks_for (unat (Size i)) \<or> blocks_for (unat n) = 0 \<or>
      env_alloc e (of_nat (512 * blocks_for (unat n)))"
  show ?thesis
  proof (cases ?room)
    case True
    obtain sb' j where "File_FileTruncate e n (sb, i) = Some (0, sb', j)" "file_ok j"
        "sb' = UpdateUsedBlocks (UsedBlocks j - UsedBlocks i) sb" "same_identity i j"
      by (rule file_truncate_ok [OF ok bound space True])
    with that show ?thesis by (simp add: file_step_def)
  next
    case False
    with file_truncate_fails [OF ok bound False space] that file_step_refl [OF ok] show ?thesis by blast
  qed
qed

section \<open>Registering and deleting an object\<close>

text \<open>A freshly initialised object: its number is the slot's.\<close>

lemma Inode_Initialize_simps [simp]:
  "m_obj (Inode_Initialize e ino mode nlink gid uid i) = m_obj i"
  "m_xattr (Inode_Initialize e ino mode nlink gid uid i) = m_xattr i"
  "m_nlookup (Inode_Initialize e ino mode nlink gid uid i) = m_nlookup i"
  "Size (Inode_Initialize e ino mode nlink gid uid i) = 0"
  "UsedBlocks (Inode_Initialize e ino mode nlink gid uid i) = 0"
  "GetIno (Inode_Initialize e ino mode nlink gid uid i) = ino"
  "GetMode (Inode_Initialize e ino mode nlink gid uid i) = mode"
  "st_nlink (i_attr (Inode_Initialize e ino mode nlink gid uid i)) = nlink"
  by (simp_all add: Inode_Initialize_def Size_def UsedBlocks_def GetIno_def GetMode_def zero_stat_def)

lemma Directory_Initialize_ok:
  assumes "m_obj i = Directory []"
  obtains sb' j where "Directory_Initialize e ino mode nlink gid uid (sb, i) = Some (sb', j)"
    "dir_ok j" "m_obj j = Directory []" "sb' = UpdateUsedBlocks 1 sb" "UsedBlocks j = 1"
    "GetIno j = ino" "GetMode j = mode" "st_nlink (i_attr j) = nlink" "m_xattr j = m_xattr i"
    "m_nlookup j = m_nlookup i"
proof -
  let ?i = "Inode_Initialize e ino mode nlink gid uid i"
  have b: "unat (Size ?i) + unat sizeof_vector < 2 ^ 63" by (simp add: sizeof_vector_def)
  obtain sb' j where run: "Directory_UpdateSize sizeof_vector (sb, ?i) = Some (sb', j)"
    and j: "j = upd_attr (\<lambda>a. a\<lparr>st_size := Size ?i + sizeof_vector,
        st_blocks := get_nblocks (Size ?i + sizeof_vector) BufBlockSize\<rparr>) ?i"
    and sz: "unat (Size j) = unat (Size ?i) + unat sizeof_vector"
      "unat (UsedBlocks j) = blocks_for (unat (Size j))"
    and sb: "sb' = UpdateUsedBlocks (UsedBlocks j - UsedBlocks ?i) sb"
    by (rule UpdateSize_grow [OF b])
  have one: "unat (UsedBlocks j) = 1" "unat (Size j) = 24"
    using sz by (simp_all add: sizeof_vector_def blocks_for_def)
  then have ub: "UsedBlocks j = 1" by (simp add: word_unat_eq_iff)
  have obj: "m_obj j = Directory []" using assms by (simp add: j)
  have d: "dir_ok j" using one obj by (simp add: dir_ok_def dir_bytes_def blocks_for_def)
  have r: "Directory_Initialize e ino mode nlink gid uid (sb, i) = Some (sb', j)"
    using run by (simp add: Directory_Initialize_def)
  have g: "GetIno j = ino" "GetMode j = mode" "st_nlink (i_attr j) = nlink" "m_xattr j = m_xattr i"
    "m_nlookup j = m_nlookup i"
    by (simp_all add: j Inode_Initialize_def GetIno_def GetMode_def)
  show ?thesis by (rule that [OF r d obj _ ub g]) (simp add: sb ub)
qed

text \<open>An object as the constructors leave it, for the mode it is registered with.\<close>

definition fresh_for :: "mode_t \<Rightarrow> Inode \<Rightarrow> bool" where
  "fresh_for mode i \<longleftrightarrow> m_xattr i = [] \<and>
     (case m_obj i of
        File b \<Rightarrow> b = [] \<and> S_ISREG mode
      | Directory ch \<Rightarrow> ch = [] \<and> S_ISDIR mode
      | SymLink _ \<Rightarrow> S_ISLNK mode
      | SpecialInode _ \<Rightarrow> \<not> S_ISREG mode \<and> \<not> S_ISDIR mode \<and> \<not> S_ISLNK mode)"

lemma Initialize_ok:
  assumes "fresh_for mode i"
  obtains sb' j d where "Initialize e ino mode nlink gid uid (sb, i) = Some (sb', j)" "inode_ok j"
    "GetIno j = ino" "GetMode j = mode" "st_nlink (i_attr j) = nlink" "m_obj j = m_obj i"
    "m_nlookup j = m_nlookup i" "m_xattr j = []" "sb' = UpdateUsedBlocks d sb"
proof (cases "m_obj i")
  case (Directory ch)
  with assms have e: "m_obj i = Directory []" and m: "S_ISDIR mode" and x: "m_xattr i = []"
    by (auto simp: fresh_for_def)
  obtain sb' j where r: "Directory_Initialize e ino mode nlink gid uid (sb, i) = Some (sb', j)"
    "dir_ok j" "m_obj j = Directory []" "sb' = UpdateUsedBlocks 1 sb" "UsedBlocks j = 1"
    "GetIno j = ino" "GetMode j = mode" "st_nlink (i_attr j) = nlink" "m_xattr j = m_xattr i"
    "m_nlookup j = m_nlookup i" by (rule Directory_Initialize_ok [OF e])
  have "inode_ok j" using r m x by (simp add: inode_ok_def mode_matches_def)
  with r e x show ?thesis by (intro that [of sb' j 1]) (simp_all add: Initialize_def)
next
  case (SymLink l)
  let ?j = "SymLink_Initialize e ino mode nlink gid uid i"
  have j: "m_obj ?j = m_obj i" "m_xattr ?j = m_xattr i" "m_nlookup ?j = m_nlookup i"
    "GetIno ?j = ino" "GetMode ?j = mode" "st_nlink (i_attr ?j) = nlink" "Size ?j = of_nat (length l)"
    using SymLink by (simp_all add: SymLink_Initialize_def Let_def Inode_Initialize_def GetIno_def
        GetMode_def Size_def m_link_def)
  then have "inode_ok ?j" using assms SymLink by (simp add: inode_ok_def mode_matches_def fresh_for_def)
  with j SymLink assms show ?thesis
    by (intro that [of sb ?j 0]) (simp_all add: Initialize_def fresh_for_def)
next
  case (File b)
  let ?j = "Inode_Initialize e ino mode nlink gid uid i"
  have "inode_ok ?j" using assms File
    by (simp add: inode_ok_def mode_matches_def fresh_for_def file_ok_def)
  with File assms show ?thesis by (intro that [of sb ?j 0]) (simp_all add: Initialize_def fresh_for_def)
next
  case (SpecialInode t)
  let ?j = "Inode_Initialize e ino mode nlink gid uid i"
  have "inode_ok ?j" using assms SpecialInode
    by (simp add: inode_ok_def mode_matches_def fresh_for_def)
  with SpecialInode assms show ?thesis
    by (intro that [of sb ?j 0]) (simp_all add: Initialize_def fresh_for_def)
qed

lemma create_object_fresh:
  assumes "create_object e mode dev link = Inr (i, links)"
  shows "fresh_for mode i \<and> m_nlookup i = 0 \<and> links = (if S_ISDIR mode then 2 else 1) \<and>
    (S_ISDIR mode \<longleftrightarrow> is_Directory i)"
  using assms
  by (auto simp: create_object_def fresh_for_def Let_def new_File_def new_Directory_def
      new_SpecialInode_def new_SymLink_def new_Inode_def is_kind_simps
      split: if_splits option.splits)

text \<open>Filling the slot that registration picks.\<close>

text \<open>With no freed number to reuse, every slot of the table is taken.\<close>

lemma empty_queue_full:
  assumes "fs_ok s" "DeletedInodes s = []"
  shows "None \<notin> set (Inodes s)"
proof
  assume "None \<in> set (Inodes s)"
  then obtain m where m: "m < length (Inodes s)" "Inodes s ! m = None" by (auto simp: in_set_conv_nth)
  have "length (Inodes s) < 2 ^ 64" using fs_okD(3) [OF assms(1)] by (simp add: counters_ok_def)
  then have "unat (of_nat m :: ino_t) = m" using m by (intro unat_of_nat_64) simp
  with m have "(of_nat m :: ino_t) \<in> set (DeletedInodes s)"
    using fs_okD(2) [OF assms(1)] by (simp add: queue_ok_def)
  with assms(2) show False by simp
qed

lemma fill_slot:
  assumes ok: "fs_ok s" and free: "0 < unat (f_ffree (m_stbuf s))"
    and slot: "DeletedInodes s = [] \<and> k = length (Inodes s) \<and> tab = Inodes s @ [Some j] \<and> rest = [] \<or>
      (\<exists>ino. DeletedInodes s = ino # rest \<and> k = unat ino \<and> tab = (Inodes s)[k := Some j])"
    and j: "inode_ok j" "unat (GetIno j) = k"
    and sb: "sb = UpdateUsedBlocks d (UpdateUsedInodes 1 (m_stbuf s))"
  shows "table_ok tab" "queue_ok tab rest" "counters_ok tab sb"
proof -
  let ?tab = "Inodes s"
  note t = fs_okD [OF ok]
  have ff: "unat (f_ffree (m_stbuf s) - 1) = unat (f_ffree (m_stbuf s)) - 1"
    using free unat_diff_64 [of 1 "f_ffree (m_stbuf s)"] by (simp add: word_le_nat_alt)
  consider (new) "DeletedInodes s = []" "k = length ?tab" "tab = ?tab @ [Some j]" "rest = []"
    | (reuse) ino where "DeletedInodes s = ino # rest" "k = unat ino" "tab = ?tab[k := Some j]"
    using slot by blast
  then have "table_ok tab \<and> queue_ok tab rest \<and> counters_ok tab sb"
  proof cases
    case new
    note full = empty_queue_full [OF ok new(1)]
    have "queue_ok tab rest" using full t(2) new
      by (auto simp: queue_ok_def nth_append in_set_conv_nth less_Suc_eq)
    moreover have "table_ok tab" using t(1) new j
      by (auto simp: table_ok_def nth_append less_Suc_eq)
    moreover have "counters_ok tab sb"
      using t(3) new live_count_full [OF full] free by (simp add: counters_ok_def sb ff)
    ultimately show ?thesis by simp
  next
    case reuse
    have k: "k < length ?tab" "?tab ! k = None" using t(2) reuse by (auto simp: queue_ok_def)
    have other: "m \<noteq> ino \<Longrightarrow> tab ! unat m = ?tab ! unat m" for m
      using reuse by (simp add: word_unat_eq_iff)
    have here: "tab ! unat ino = Some j" using reuse k by simp
    have "queue_ok tab rest"
      using t(2) reuse(1) other here reuse(3)
      by (auto simp: queue_ok_def) (metis length_list_update option.distinct(1))+
    moreover have "table_ok tab" using table_ok_update [OF t(1), where x = "Some j"] reuse j by simp
    moreover have "counters_ok tab sb"
      using t(3) reuse k live_count_update [OF k(1), of "Some j"] free
      by (simp add: counters_ok_def sb ff)
    ultimately show ?thesis by simp
  qed
  then show "table_ok tab" "queue_ok tab rest" "counters_ok tab sb" by simp_all
qed

text \<open>The number \<^verbatim>\<open>RegisterInode\<close> takes: the head of the queue, or the first slot past the table.\<close>

abbreviation next_ino :: "fs \<Rightarrow> ino_t" where
  "next_ino s \<equiv> if DeletedInodes s = [] then of_nat (length (Inodes s)) else hd (DeletedInodes s)"

lemma next_ino_free:
  assumes ok: "fs_ok s"
    and s': "Inodes s' = (if DeletedInodes s = [] then Inodes s @ [Some j] else (Inodes s)[unat (next_ino s) := Some j])"
  shows "GetInode (next_ino s) s = None" "GetInode (next_ino s) s' = Some j" "unat (next_ino s) < 2 ^ 63"
    "k \<noteq> next_ino s \<Longrightarrow> GetInode k s' = GetInode k s"
    "unat (of_nat (length (Inodes s)) :: ino_t) = length (Inodes s)"
proof -
  have len: "length (Inodes s) < 2 ^ 63" using fs_okD(3) [OF ok] by (simp add: counters_ok_def)
  then show ul: "unat (of_nat (length (Inodes s)) :: ino_t) = length (Inodes s)" by (intro unat_of_nat_64) simp
  show "GetInode k s' = GetInode k s" if "k \<noteq> next_ino s"
    using that ul by (auto simp: GetInode_def nth_append word_unat_eq_iff s')
  show "GetInode (next_ino s) s = None" "GetInode (next_ino s) s' = Some j" "unat (next_ino s) < 2 ^ 63"
    using queue_okD [OF fs_okD(2) [OF ok], of "hd (DeletedInodes s)"] ul len
    by (cases "DeletedInodes s"; simp add: GetInode_def s')+
qed

lemma RegisterInode_ok:
  assumes ok: "fs_ok s" and free: "0 < unat (f_ffree (m_stbuf s))" and fresh: "fresh_for mode i"
  obtains ino s' j where "RegisterInode e i mode nlink gid uid s = Some (ino, s')" "fs_ok s'"
    "GetInode ino s = None" "GetInode ino s' = Some j" "\<And>k. k \<noteq> ino \<Longrightarrow> GetInode k s' = GetInode k s"
    "inode_ok j" "GetMode j = mode" "st_nlink (i_attr j) = nlink" "m_obj j = m_obj i"
    "m_nlookup j = m_nlookup i" "state_pool s' = state_pool s" "unat ino < 2 ^ 63" "GetIno j = ino"
    "ino = (if DeletedInodes s = [] then of_nat (length (Inodes s)) else hd (DeletedInodes s))"
    "f_ffree (m_stbuf s') = f_ffree (m_stbuf s) - 1" "DeletedInodes s' = tl (DeletedInodes s)"
    "length (Inodes s') = (if DeletedInodes s = [] then Suc (length (Inodes s)) else length (Inodes s))"
proof -
  let ?ino = "next_ino s" and ?rest = "tl (DeletedInodes s)" and ?sb = "UpdateUsedInodes 1 (m_stbuf s)"
  obtain sb' j d where init: "Initialize e ?ino mode nlink gid uid (?sb, i) = Some (sb', j)" "inode_ok j"
    "GetIno j = ?ino" "GetMode j = mode" "st_nlink (i_attr j) = nlink" "m_obj j = m_obj i"
    "m_nlookup j = m_nlookup i" "m_xattr j = []" "sb' = UpdateUsedBlocks d ?sb"
    by (rule Initialize_ok [OF fresh])
  let ?sb2 = "UpdateUsedBlocks (UsedBlocks j) sb'" and ?k = "unat ?ino"
  let ?tab = "if DeletedInodes s = [] then Inodes s @ [Some j] else (Inodes s)[?k := Some j]"
  let ?s = "s\<lparr>Inodes := ?tab, DeletedInodes := ?rest, m_stbuf := ?sb2\<rparr>"
  note next_ok = next_ino_free [OF ok, of ?s j]
  have ul: "unat (of_nat (length (Inodes s)) :: ino_t) = length (Inodes s)" by (rule next_ok(5)) simp
  have run: "RegisterInode e i mode nlink gid uid s = Some (?ino, ?s)"
    using init by (cases "DeletedInodes s") (simp_all add: RegisterInode_def AddInode_def
        PopOneDeletedInode_def UpdateInode_def put_inode_def ul list_update_append)
  have slot: "DeletedInodes s = [] \<and> ?k = length (Inodes s) \<and> ?tab = Inodes s @ [Some j] \<and> ?rest = [] \<or>
      (\<exists>ino. DeletedInodes s = ino # ?rest \<and> ?k = unat ino \<and> ?tab = (Inodes s)[?k := Some j])"
    using ul by (cases "DeletedInodes s") auto
  have sb: "?sb2 = UpdateUsedBlocks (UsedBlocks j + d) ?sb" by (simp add: init(9) UpdateUsedBlocks_add)
  have jk: "unat (GetIno j) = ?k" by (simp only: init(3))
  have "fs_ok ?s"
    using fill_slot [OF ok free slot init(2) jk sb] by (intro fs_okI [OF _ _ _ ok]) simp_all
  moreover have "f_ffree (m_stbuf ?s) = f_ffree (m_stbuf s) - 1" by (simp add: init(9))
  ultimately show ?thesis
    using run init next_ok(1-4) that [of ?ino ?s j] by simp
qed

text \<open>\<^verbatim>\<open>DeleteInode\<close> with the inode counter given back.\<close>

lemma fs_ok_DeleteInode:
  assumes ok: "fs_ok s" and i: "GetInode ino s = Some i"
  shows "fs_ok (DeleteInode ino (s\<lparr>m_stbuf := UpdateUsedInodes (-1) (m_stbuf s)\<rparr>))" (is "fs_ok ?s")
proof (rule fs_okI [OF _ _ _ ok])
  let ?k = "unat ino" and ?tab = "Inodes s"
  from i have k: "?k < length ?tab" "?tab ! ?k = Some i" by (simp_all add: GetInode_Some)
  note t = fs_okD [OF ok]
  show "table_ok (Inodes ?s)" using table_ok_update [OF t(1), where x = None] by (simp add: DeleteInode_def)
  show "queue_ok (Inodes ?s) (DeletedInodes ?s)"
    using t(2) k by (auto simp: queue_ok_def DeleteInode_def nth_list_update word_unat_eq_iff)
  have live: "live_count (?tab[?k := None]) + 1 = live_count ?tab"
    using live_count_update [OF k(1), of None] k(2) by simp
  have "unat (f_ffree (m_stbuf s)) + live_count ?tab = unat (f_files (m_stbuf s))"
    "unat (f_files (m_stbuf s)) < 2 ^ 63"
    using t(3) by (simp_all add: counters_ok_def)
  then have "unat (f_ffree (m_stbuf s) + 1) = unat (f_ffree (m_stbuf s)) + 1"
    by (subst unat_add_64) auto
  then show "counters_ok (Inodes ?s) (m_stbuf ?s)"
    using t(3) live by (simp add: counters_ok_def DeleteInode_def)
qed (simp_all add: DeleteInode_def)

section \<open>Frames\<close>

text \<open>\<open>touches A s s'\<close>: only the objects numbered in \<open>A\<close> and the counters differ.\<close>

definition touches :: "ino_t set \<Rightarrow> fs \<Rightarrow> fs \<Rightarrow> bool" where
  "touches A s s' \<longleftrightarrow> (\<forall>m. m \<notin> A \<longrightarrow> GetInode m s' = GetInode m s) \<and>
     state_pool s' = state_pool s \<and> readdirStates s' = readdirStates s \<and> xheap s' = xheap s"

lemma touches_refl [simp]: "touches A s s"
  by (simp add: touches_def)

lemma touches_trans: "touches A s s' \<Longrightarrow> touches B s' s'' \<Longrightarrow> A \<union> B \<subseteq> C \<Longrightarrow> touches C s s''"
  unfolding touches_def by (metis UnCI subsetD)

lemma touches_put_inode: "touches {k} s (put_inode k i s)"
  by (simp add: touches_def GetInode_put_inode)

lemma touchesD:
  assumes "touches A s s'"
  shows "m \<notin> A \<Longrightarrow> GetInode m s' = GetInode m s" "state_pool s' = state_pool s"
    "readdirStates s' = readdirStates s" "xheap s' = xheap s"
  using assms by (simp_all add: touches_def)

lemma on_inode_run:
  assumes "GetInode k s = Some i" "f (m_stbuf s, i) = Some (r, sb, j)"
  shows "on_inode k f s = Some (r, (put_inode k j s)\<lparr>m_stbuf := sb\<rparr>)"
    "GetInode k ((put_inode k j s)\<lparr>m_stbuf := sb\<rparr>) = Some j"
    "touches {k} s ((put_inode k j s)\<lparr>m_stbuf := sb\<rparr>)"
  using assms by (auto simp: on_inode_def GetInode_put_inode touches_def dest: GetInode_Some [THEN iffD1])

lemma modify_inode_run:
  assumes "GetInode k s = Some i"
  shows "modify_inode k g s = Some (put_inode k (g i) s)" "GetInode k (put_inode k (g i) s) = Some (g i)"
  using assms by (auto simp: modify_inode_def GetInode_put_inode dest: GetInode_Some [THEN iffD1])

text \<open>An entry operation on a directory of the table: it returns, and what it leaves.\<close>

lemma on_inode_dir:
  assumes ok: "fs_ok s" and d: "GetInode k s = Some d"
    and run: "f (m_stbuf s, d) = Some (r, sb, d')" and step: "dir_step (m_stbuf s, d) (sb, d')"
  obtains s' where "on_inode k f s = Some (r, s')" "fs_ok s'" "GetInode k s' = Some d'" "touches {k} s s'"
    "m_stbuf s' = sb"
proof -
  let ?s = "(put_inode k d' s)\<lparr>m_stbuf := sb\<rparr>"
  note r = on_inode_run [of k s d f, OF d run]
  have "fs_ok ?s"
  proof (rule fs_ok_on_inode [OF ok r(1)])
    fix i sb' j assume "GetInode k s = Some i" "f (m_stbuf s, i) = Some (r, sb', j)"
    with d run step show "inode_ok j \<and> GetIno j = GetIno i \<and> (\<exists>d. sb' = UpdateUsedBlocks d (m_stbuf s))"
      by (auto simp: dir_step_def)
  qed
  with r that show ?thesis by simp
qed

lemma on_inode_AddChild:
  assumes ok: "fs_ok s" and d: "GetInode k s = Some d" "is_Directory d"
    and fits: "dir_bytes (m_children d) + 72 + length name < 2 ^ 63"
  obtains r s' d' where "on_inode k (AddChild name ino) s = Some (r, s')" "fs_ok s'"
    "GetInode k s' = Some d'" "touches {k} s s'" "dir_step (m_stbuf s, d) (m_stbuf s', d')"
    "AddChild name ino (m_stbuf s, d) = Some (r, m_stbuf s', d')"
proof -
  obtain r sb d' where a: "AddChild name ino (m_stbuf s, d) = Some (r, sb, d')"
    "dir_step (m_stbuf s, d) (sb, d')"
    by (rule AddChild_keeps [OF fs_ok_inode(1) [OF ok d(1)] d(2) fits])
  obtain s' where "on_inode k (AddChild name ino) s = Some (r, s')" "fs_ok s'" "GetInode k s' = Some d'"
    "touches {k} s s'" "m_stbuf s' = sb" by (rule on_inode_dir [where f = "AddChild name ino", OF ok d(1) a])
  with a that show ?thesis by blast
qed

lemma on_inode_RemoveChild:
  assumes ok: "fs_ok s" and d: "GetInode k s = Some d" "is_Directory d"
  obtains r s' d' where "on_inode k (RemoveChild e name) s = Some (r, s')" "fs_ok s'"
    "GetInode k s' = Some d'" "touches {k} s s'" "dir_step (m_stbuf s, d) (m_stbuf s', d')"
    "RemoveChild e name (m_stbuf s, d) = Some (r, m_stbuf s', d')"
proof -
  obtain r sb d' where a: "RemoveChild e name (m_stbuf s, d) = Some (r, sb, d')"
    "dir_step (m_stbuf s, d) (sb, d')"
    by (rule RemoveChild_keeps [OF fs_ok_inode(1) [OF ok d(1)] d(2)])
  obtain s' where "on_inode k (RemoveChild e name) s = Some (r, s')" "fs_ok s'" "GetInode k s' = Some d'"
    "touches {k} s s'" "m_stbuf s' = sb" by (rule on_inode_dir [where f = "RemoveChild e name", OF ok d(1) a])
  with a that show ?thesis by blast
qed

lemma modify_inode_ok:
  assumes ok: "fs_ok s" and i: "GetInode k s = Some i" and g: "inode_ok (g i)" "GetIno (g i) = GetIno i"
  obtains s' where "modify_inode k g s = Some s'" "fs_ok s'" "GetInode k s' = Some (g i)"
    "touches {k} s s'" "m_stbuf s' = m_stbuf s"
  using that [of "put_inode k (g i) s"] modify_inode_run [OF i, of g] touches_put_inode [of k s "g i"]
    fs_ok_put_inode [OF ok i g] by simp

lemma AddChild_children:
  assumes "AddChild name ino (sb, i) = Some (r, sb', j)"
  shows "m_children j = m_children i \<or> m_children j = m_children i @ [(name, ino)]"
  using assms
  by (auto simp: AddChild_def AddChild_nolock_def Directory_UpdateSize_def Let_def
      split: if_splits Option.bind_splits)

end
