(* ===== verification/Node_Creation.thy ===== *)
theory Node_Creation
  imports Fs_Invariant
begin

text \<open>
  \<^verbatim>\<open>FuseRamFs::do_create_node\<close> and the handlers built on it (\<^verbatim>\<open>FuseMknod\<close>, \<^verbatim>\<open>FuseMkdir\<close>,
  \<^verbatim>\<open>FuseCreate\<close>, \<^verbatim>\<open>FuseSymlink\<close>): they return in every state that satisfies the invariant, keep
  it, and either bind the name to a new object or leave every object as it was.
\<close>

section \<open>The dot entries of a new directory\<close>

text \<open>An entry that fits the first block always finds space.\<close>

lemma AddChild_fits_block:
  assumes "dir_ok i" "name \<notin> dom (dir_lookup i)" "dir_bytes (m_children i) + 72 + length name \<le> 512"
  obtains sb' j where "AddChild name ino (sb, i) = Some (0, sb', j)" "m_children j = m_children i @ [(name, ino)]"
proof -
  have sz: "unat (Size i) = dir_bytes (m_children i)" "unat (UsedBlocks i) = blocks_for (dir_bytes (m_children i))"
    using assms(1) by (auto elim: dir_okE)
  have el: "unat (elem_size name) = 72 + length name" using assms(3) by (intro unat_elem_size) simp
  have "24 \<le> dir_bytes (m_children i)" by (simp add: dir_bytes_def)
  then have b: "blocks_for (dir_bytes (m_children i)) = 1" "blocks_for (unat (Size i) + unat (elem_size name)) = 1"
    using assms(3) by (simp_all add: blocks_for_def sz el)
  have "CheckHasSpaceFor (Some (usage_of i)) (elem_size name) sb"
    by (subst CheckHasSpaceFor_iff) (use assms(3) in \<open>simp_all add: el sz b [unfolded el sz]\<close>)
  from AddChild_ok [OF assms(1,2) this, of ino] assms(3) that show ?thesis by auto
qed

lemma add_small_entry:
  assumes ok: "fs_ok s" and d: "GetInode k s = Some d" "is_Directory d"
    and new: "name \<notin> dom (dir_lookup d)" and small: "dir_bytes (m_children d) + 72 + length name \<le> 512"
  obtains s' d' where "on_inode k (AddChild name ino) s = Some (0, s')" "fs_ok s'" "GetInode k s' = Some d'"
    "touches {k} s s'" "is_Directory d'" "m_children d' = m_children d @ [(name, ino)]"
    "GetMode d' = GetMode d" "m_nlookup d' = m_nlookup d" "st_nlink (i_attr d') = st_nlink (i_attr d)"
proof -
  have fits: "dir_bytes (m_children d) + 72 + length name < 2 ^ 63" using small by simp
  obtain r s1 d1 where a: "on_inode k (AddChild name ino) s = Some (r, s1)" "fs_ok s1" "GetInode k s1 = Some d1"
    "touches {k} s s1" "dir_step (m_stbuf s, d) (m_stbuf s1, d1)"
    "AddChild name ino (m_stbuf s, d) = Some (r, m_stbuf s1, d1)"
    by (rule on_inode_AddChild [OF ok d fits])
  have "dir_ok d" by (rule inode_ok_dir [OF fs_ok_inode(1) [OF ok d(1)] d(2)])
  then have "r = 0" "m_children d1 = m_children d @ [(name, ino)]"
    using AddChild_fits_block [OF _ new small, of ino "m_stbuf s"] a(6) by auto
  with a that show ?thesis by (simp add: dir_step_def)
qed

lemma add_both_dots:
  assumes ok: "fs_ok s" and j: "GetInode ino s = Some j" "m_obj j = Directory []"
  obtains s1 s2 j2 where "on_inode ino (AddChild ''.'' ino) s = Some (0, s1)" "touches {ino} s s1"
    "on_inode ino (AddChild ''..'' up) s1 = Some (0, s2)" "fs_ok s2" "touches {ino} s s2"
    "GetInode ino s2 = Some j2" "is_Directory j2" "m_children j2 = [(''.'', ino), (''..'', up)]"
    "GetMode j2 = GetMode j" "m_nlookup j2 = m_nlookup j" "st_nlink (i_attr j2) = st_nlink (i_attr j)"
proof -
  have ch: "m_children j = []" "is_Directory j" using j(2) by (simp_all add: m_children_def is_kind_simps)
  obtain s1 j1 where a: "on_inode ino (AddChild ''.'' ino) s = Some (0, s1)" "fs_ok s1" "GetInode ino s1 = Some j1"
    "touches {ino} s s1" "is_Directory j1" "m_children j1 = [(''.'', ino)]"
    "GetMode j1 = GetMode j" "m_nlookup j1 = m_nlookup j" "st_nlink (i_attr j1) = st_nlink (i_attr j)"
    by (rule add_small_entry [OF ok j(1) ch(2), of "''.''" ino]) (simp_all add: ch dir_lookup_def)
  obtain s2 j2 where b: "on_inode ino (AddChild ''..'' up) s1 = Some (0, s2)" "fs_ok s2" "GetInode ino s2 = Some j2"
    "touches {ino} s1 s2" "is_Directory j2" "m_children j2 = [(''.'', ino), (''..'', up)]"
    "GetMode j2 = GetMode j1" "m_nlookup j2 = m_nlookup j1" "st_nlink (i_attr j2) = st_nlink (i_attr j1)"
    by (rule add_small_entry [OF a(2,3,5), of "''..''" up]) (simp_all add: a(6) dir_lookup_def dir_bytes_def)
  have "touches {ino} s s2" by (rule touches_trans [OF a(4) b(4)]) simp
  with a b show ?thesis by (intro that [of s1 s2 j2]) simp_all
qed

lemma add_dots:
  assumes ok: "fs_ok s" and j: "GetInode ino s = Some j" "m_obj j = Directory []" and
    p: "GetInode parent s = Some p" "parent \<noteq> ino"
  obtains s' j' where
    "(do { (_, s') \<leftarrow> on_inode ino (AddChild ''.'' ino) s;
           p \<leftarrow> GetInode parent s';
           (_, s'') \<leftarrow> on_inode ino (AddChild ''..'' (GetIno p)) s';
           Some s'' }) = Some s'"
    "fs_ok s'" "touches {ino} s s'" "GetInode ino s' = Some j'" "is_Directory j'"
    "GetMode j' = GetMode j" "m_nlookup j' = m_nlookup j" "st_nlink (i_attr j') = st_nlink (i_attr j)"
    "m_children j' = [(''.'', ino), (''..'', parent)]"
proof -
  obtain s1 s2 j2 where a: "on_inode ino (AddChild ''.'' ino) s = Some (0, s1)" "touches {ino} s s1"
    "on_inode ino (AddChild ''..'' parent) s1 = Some (0, s2)" "fs_ok s2" "touches {ino} s s2"
    "GetInode ino s2 = Some j2" "is_Directory j2" "m_children j2 = [(''.'', ino), (''..'', parent)]"
    "GetMode j2 = GetMode j" "m_nlookup j2 = m_nlookup j" "st_nlink (i_attr j2) = st_nlink (i_attr j)"
    by (rule add_both_dots [OF ok j, of parent])
  moreover have "GetInode parent s1 = Some p" using touchesD(1) [OF a(2)] p by simp
  moreover have "GetIno p = parent" by (rule fs_ok_inode(2) [OF ok p(1)])
  ultimately show ?thesis by (intro that [of s2 j2]) simp_all
qed

section \<open>Creating a node\<close>

text \<open>What a successful call leaves.\<close>

definition new_payload :: "ino_t \<Rightarrow> ino_t \<Rightarrow> mode_t \<Rightarrow> string option \<Rightarrow> inode_obj \<Rightarrow> bool" where
  "new_payload parent ino mode link ob \<longleftrightarrow>
     (if S_ISREG mode then ob = File []
      else if S_ISDIR mode then ob = Directory [(''.'', ino), (''..'', parent)]
      else if S_ISCHR mode then ob = SpecialInode SPECIAL_INODE_CHAR_DEV
      else if S_ISBLK mode then ob = SpecialInode SPECIAL_INODE_BLOCK_DEV
      else if S_ISFIFO mode then ob = SpecialInode SPECIAL_INODE_FIFO
      else if S_ISSOCK mode then ob = SpecialInode SPECIAL_INODE_SOCK
      else S_ISLNK mode \<and> (\<exists>l. link = Some l \<and> ob = SymLink l))"

definition created :: "ino_t \<Rightarrow> string \<Rightarrow> mode_t \<Rightarrow> string option \<Rightarrow> ino_t \<Rightarrow> u64 \<Rightarrow> fs \<Rightarrow> fs \<Rightarrow> bool" where
  "created parent name mode link ino lookups s s' \<longleftrightarrow> GetInode ino s = None \<and> parent \<noteq> ino \<and>
     touches {ino, parent} s s' \<and>
     (\<exists>j p p'. GetInode ino s' = Some j \<and> GetInode parent s = Some p \<and> GetInode parent s' = Some p' \<and>
        GetMode j = mode \<and> m_nlookup j = lookups \<and> new_payload parent ino mode link (m_obj j) \<and>
        st_nlink (i_attr j) = (if S_ISDIR mode then 2 else 1) \<and> (S_ISDIR mode \<longleftrightarrow> is_Directory j) \<and>
        name \<notin> dom (dir_lookup p) \<and> dir_lookup p' = (dir_lookup p)(name \<mapsto> ino) \<and>
        m_children p' = m_children p @ [(name, ino)] \<and>
        st_nlink (i_attr p') = st_nlink (i_attr p) + (if S_ISDIR mode then 1 else 0) \<and>
        m_nlookup p' = m_nlookup p \<and> GetMode p' = GetMode p)"

lemma create_object_payload:
  assumes "create_object e mode dev link = Inr (node, links)" "\<not> S_ISDIR mode"
  shows "new_payload parent ino mode link (m_obj node)"
  using assms
  by (auto simp: create_object_def new_payload_def Let_def new_File_def new_SpecialInode_def new_SymLink_def
      new_Inode_def split: if_splits option.splits)

text \<open>Binding the name in the parent: the two outcomes of the last \<^verbatim>\<open>AddChild\<close>.\<close>

lemma AddChild_outcome:
  assumes i: "inode_ok i" "is_Directory i" and fits: "dir_bytes (m_children i) + 72 + length name < 2 ^ 63"
    and run: "AddChild name ino (sb, i) = Some (r, sb', j)"
  shows "- r \<in> {EEXIST, ENOSPC} \<and> j = i \<and> sb' = sb \<or>
    r = 0 \<and> name \<notin> dom (dir_lookup i) \<and> dir_lookup j = (dir_lookup i)(name \<mapsto> ino) \<and>
      m_children j = m_children i @ [(name, ino)]"
proof (cases "name \<in> dom (dir_lookup i) \<or> \<not> CheckHasSpaceFor (Some (usage_of i)) (elem_size name) sb")
  case True
  then show ?thesis
    using run AddChild_exists [of name i ino sb] AddChild_no_space [of name i sb ino]
    by (cases "name \<in> dom (dir_lookup i)") auto
next
  case False
  then have new: "name \<notin> dom (dir_lookup i)" by simp
  from False obtain sb1 i1 where ok: "AddChild name ino (sb, i) = Some (0, sb1, i1)"
      "m_children i1 = m_children i @ [(name, ino)]"
    using AddChild_ok [OF inode_ok_dir [OF i] _ _ fits, of sb ino] by blast
  have "dir_lookup i1 = (dir_lookup i)(name \<mapsto> ino)"
    using new ok(2)
    by (auto simp: dir_lookup_def dom_map_of_conv_image_fst map_of_snoc simp del: map_of_append)
  with run ok new show ?thesis by simp
qed

lemma do_create_node_error:
  assumes "create_object e mode dev link = Inl err \<or> GetFreeInodes (m_stbuf s) \<le> 0"
  shows "\<exists>r. - r \<in> {EINVAL, ENOSPC} \<and> do_create_node e ctx parent name mode dev link s = Some (r, s)"
  using assms
  by (cases "create_object e mode dev link")
    (auto simp: do_create_node_def create_object_def Let_def split: if_splits option.splits)

text \<open>Taking the new object out again after a failed binding.\<close>

lemma undo_create:
  assumes ok: "fs_ok s" and node: "GetInode ino s = Some node" and old: "GetInode ino s0 = None"
    and t: "touches {ino} s0 s"
    and s': "s' = DeleteInode ino (s\<lparr>m_stbuf := UpdateUsedBlocks d (UpdateUsedInodes (-1) (m_stbuf s))\<rparr>)"
  shows "fs_ok s'" "touches {} s0 s'"
proof -
  have "fs_ok (DeleteInode ino (s\<lparr>m_stbuf := UpdateUsedInodes (-1) (m_stbuf s)\<rparr>))"
    by (rule fs_ok_DeleteInode [OF ok node])
  from fs_ok_blocks [OF this, of d] show "fs_ok s'" by (simp add: DeleteInode_def s' fs_ok_def)
  have k: "unat ino < length (Inodes s)" using node by (simp add: GetInode_Some)
  have "GetInode m s' = GetInode m s0" for m
  proof (cases "m = ino")
    case True
    then show ?thesis using k old by (simp add: GetInode_def DeleteInode_def s')
  next
    case False
    then have "GetInode m s' = GetInode m s"
      by (simp add: GetInode_def DeleteInode_def word_unat_eq_iff s')
    with touchesD(1) [OF t] False show ?thesis by simp
  qed
  with touchesD(2-4) [OF t] show "touches {} s0 s'" by (simp add: touches_def DeleteInode_def s')
qed

lemma touches_Register:
  assumes "RegisterInode e i mode nlink gid uid s = Some (ino, s')"
    "\<And>k. k \<noteq> ino \<Longrightarrow> GetInode k s' = GetInode k s"
  shows "touches {ino} s s'"
proof -
  have "state_pool s' = state_pool s \<and> readdirStates s' = readdirStates s \<and> xheap s' = xheap s"
    using assms(1)
    by (auto simp: RegisterInode_def AddInode_def PopOneDeletedInode_def UpdateInode_def put_inode_def Let_def
        split: Option.bind_splits if_splits list.splits)
  with assms(2) show ?thesis by (simp add: touches_def)
qed

text \<open>The call up to the binding of the name.\<close>

lemma create_unbound:
  assumes ok: "fs_ok s" and p: "GetInode parent s = Some p"
    and free: "\<not> GetFreeInodes (m_stbuf s) \<le> 0" and obj: "create_object e mode dev link = Inr (node, links)"
  obtains ino s1 s2 j where
    "RegisterInode e node mode links (ctx_gid ctx) (ctx_uid ctx) s = Some (ino, s1)"
    "(if S_ISDIR mode then do {
        (_, s') \<leftarrow> on_inode ino (AddChild ''.'' ino) s1;
        p \<leftarrow> GetInode parent s';
        (_, s'') \<leftarrow> on_inode ino (AddChild ''..'' (GetIno p)) s';
        Some s'' } else Some s1) = Some s2"
    "fs_ok s2" "GetInode ino s = None" "ino \<noteq> parent" "touches {ino} s s2" "unat ino < 2 ^ 63"
    "GetInode ino s2 = Some j" "GetMode j = mode" "m_nlookup j = 0"
    "st_nlink (i_attr j) = (if S_ISDIR mode then 2 else 1)" "S_ISDIR mode \<longleftrightarrow> is_Directory j"
    "new_payload parent ino mode link (m_obj j)"
proof -
  have f: "0 < unat (f_ffree (m_stbuf s))" using free by (simp add: GetFreeInodes_def unat_gt_0)
  note cr = create_object_fresh [OF obj]
  obtain ino s1 j where r: "RegisterInode e node mode links (ctx_gid ctx) (ctx_uid ctx) s = Some (ino, s1)"
    "fs_ok s1" "GetInode ino s = None" "GetInode ino s1 = Some j"
    "\<And>k. k \<noteq> ino \<Longrightarrow> GetInode k s1 = GetInode k s" "inode_ok j" "GetMode j = mode"
    "st_nlink (i_attr j) = links" "m_obj j = m_obj node" "m_nlookup j = m_nlookup node" "unat ino < 2 ^ 63"
    by (rule RegisterInode_ok [OF ok f, of mode node e links "ctx_gid ctx" "ctx_uid ctx"])
      (use cr in blast)+
  have ne: "parent \<noteq> ino" using r(3) p by auto
  have p1: "GetInode parent s1 = Some p" using r(5) [OF ne] p by simp
  have t1: "touches {ino} s s1" by (rule touches_Register [OF r(1,5)])
  show ?thesis
  proof (cases "S_ISDIR mode")
    case True
    then have "m_obj j = Directory []" using cr r(9) by (auto simp: fresh_for_def is_kind_simps)
    from add_dots [OF r(2,4) this p1 ne] obtain s2 j2 where
      "(do { (_, s') \<leftarrow> on_inode ino (AddChild ''.'' ino) s1;
           p \<leftarrow> GetInode parent s';
           (_, s'') \<leftarrow> on_inode ino (AddChild ''..'' (GetIno p)) s';
           Some s'' }) = Some s2"
      "fs_ok s2" "touches {ino} s1 s2" "GetInode ino s2 = Some j2" "is_Directory j2"
      "GetMode j2 = GetMode j" "m_nlookup j2 = m_nlookup j" "st_nlink (i_attr j2) = st_nlink (i_attr j)"
      "m_children j2 = [(''.'', ino), (''..'', parent)]"
      by blast
    moreover from this(5,9) True have "new_payload parent ino mode link (m_obj j2)"
      by (auto simp: new_payload_def is_kind_simps m_children_def)
    ultimately show ?thesis using True r cr ne touches_trans [OF t1, of "{ino}" s2 "{ino}"]
      by (intro that [of ino s1 s2 j2]) simp_all
  next
    case False
    moreover have "\<not> is_Directory j" using False cr r(9) by (simp add: is_kind_simps)
    moreover have "new_payload parent ino mode link (m_obj j)" using create_object_payload [OF obj False] r(9) by simp
    ultimately show ?thesis
      using r cr ne t1 by (intro that [of ino s1 s1 j]) simp_all
  qed
qed

text \<open>A directory counts its new subdirectory; a binding that failed leaves the parent as it was.\<close>

lemma count_subdirectory:
  assumes ok: "fs_ok s" and p: "GetInode parent s = Some p"
  obtains s' p' where "(if S_ISDIR mode then modify_inode parent IncrementLinkCount s else Some s) = Some s'"
    "fs_ok s'" "GetInode parent s' = Some p'" "touches {parent} s s'" "m_children p' = m_children p"
    "m_nlookup p' = m_nlookup p" "st_nlink (i_attr p') = st_nlink (i_attr p) + (if S_ISDIR mode then 1 else 0)"
    "GetMode p' = GetMode p"
proof (cases "S_ISDIR mode")
  case True
  obtain s' where "modify_inode parent IncrementLinkCount s = Some s'" "fs_ok s'"
    "GetInode parent s' = Some (IncrementLinkCount p)" "touches {parent} s s'"
    by (rule modify_inode_ok [OF ok p, of IncrementLinkCount])
      (use fs_ok_inode(1) [OF ok p] in \<open>simp_all add: link_count_keeps\<close>)
  with True show ?thesis
    by (intro that [of s' "IncrementLinkCount p"]) (simp_all add: IncrementLinkCount_def m_children_def GetMode_def)
next
  case False
  with ok p show ?thesis by (intro that [of s p]) simp_all
qed

lemma touches_unchanged:
  assumes t: "touches {ino} s s2" "touches {parent} s2 s3"
    and p: "GetInode parent s2 = Some p" "GetInode parent s3 = Some p"
  shows "touches {ino} s s3"
proof -
  have "GetInode m s3 = GetInode m s2" for m using touchesD(1) [OF t(2), of m] p by (cases "m = parent") simp_all
  then show ?thesis using touchesD [OF t(1)] touchesD(2-4) [OF t(2)] by (simp add: touches_def)
qed

lemma do_create_node_ok:
  assumes ok: "fs_ok s" and p: "GetInode parent s = Some p" "is_Directory p"
    and fits: "dir_bytes (m_children p) + 72 + length name < 2 ^ 63"
  obtains r s' where "do_create_node e ctx parent name mode dev link s = Some (r, s')" "fs_ok s'"
    "- r \<in> {EEXIST, EINVAL, ENOSPC} \<and> touches {} s s' \<or>
     (\<exists>ino. unat ino < 2 ^ 63 \<and> r = int (unat ino) \<and> created parent name mode link ino 0 s s')"
proof (cases "(\<exists>err. create_object e mode dev link = Inl err) \<or> GetFreeInodes (m_stbuf s) \<le> 0")
  case True
  with do_create_node_error [of e mode dev link _ s ctx parent name] that ok touches_refl show ?thesis by blast
next
  case False
  then obtain node links where obj: "create_object e mode dev link = Inr (node, links)"
    and free: "\<not> GetFreeInodes (m_stbuf s) \<le> 0"
    by (cases "create_object e mode dev link") auto
  obtain ino s1 s2 j where c:
    "RegisterInode e node mode links (ctx_gid ctx) (ctx_uid ctx) s = Some (ino, s1)"
    "(if S_ISDIR mode then do {
        (_, s') \<leftarrow> on_inode ino (AddChild ''.'' ino) s1;
        p \<leftarrow> GetInode parent s';
        (_, s'') \<leftarrow> on_inode ino (AddChild ''..'' (GetIno p)) s';
        Some s'' } else Some s1) = Some s2"
    "fs_ok s2" "GetInode ino s = None" "ino \<noteq> parent" "touches {ino} s s2" "unat ino < 2 ^ 63"
    "GetInode ino s2 = Some j" "GetMode j = mode" "m_nlookup j = 0"
    "st_nlink (i_attr j) = (if S_ISDIR mode then 2 else 1)" "S_ISDIR mode \<longleftrightarrow> is_Directory j"
    "new_payload parent ino mode link (m_obj j)"
    by (rule create_unbound [OF ok p(1) free obj])
  have p2: "GetInode parent s2 = Some p" using touchesD(1) [OF c(6), of parent] c(5) p by simp
  obtain ret s3 p3 where a: "on_inode parent (AddChild name ino) s2 = Some (ret, s3)" "fs_ok s3"
    "GetInode parent s3 = Some p3" "touches {parent} s2 s3" "dir_step (m_stbuf s2, p) (m_stbuf s3, p3)"
    "AddChild name ino (m_stbuf s2, p) = Some (ret, m_stbuf s3, p3)"
    by (rule on_inode_AddChild [OF c(3) p2 p(2) fits])
  have j3: "GetInode ino s3 = Some j" using touchesD(1) [OF a(4), of ino] c(5,8) by simp
  from AddChild_outcome [OF fs_ok_inode(1) [OF ok p(1)] p(2) fits a(6)]
  consider (fails) "- ret \<in> {EEXIST, ENOSPC}" "p3 = p"
    | (bound) "ret = 0" "name \<notin> dom (dir_lookup p)" "dir_lookup p3 = (dir_lookup p)(name \<mapsto> ino)"
        "m_children p3 = m_children p @ [(name, ino)]" by blast
  then show ?thesis
  proof cases
    case fails
    then have neg: "ret < 0" by auto
    have t: "touches {ino} s s3" using touches_unchanged [OF c(6) a(4) p2] a(3) fails by simp
    let ?s = "DeleteInode ino (s3\<lparr>m_stbuf := UpdateUsedBlocks (UsedBlocks j)
        (UpdateUsedInodes (- 1) (m_stbuf s3))\<rparr>)"
    have "do_create_node e ctx parent name mode dev link s = Some (ret, ?s)"
      unfolding do_create_node_def using obj free c(1,2) a(1) neg j3 by simp
    with undo_create [OF a(2) j3 c(4) t refl] that [of ret ?s] fails(1) show ?thesis by auto
  next
    case bound
    obtain s4 p4 where m: "(if S_ISDIR mode then modify_inode parent IncrementLinkCount s3 else Some s3) = Some s4"
      "fs_ok s4" "GetInode parent s4 = Some p4" "touches {parent} s3 s4"
      "m_children p4 = m_children p3" "m_nlookup p4 = m_nlookup p3"
      "st_nlink (i_attr p4) = st_nlink (i_attr p3) + (if S_ISDIR mode then 1 else 0)" "GetMode p4 = GetMode p3"
      by (rule count_subdirectory [OF a(2,3)])
    have run: "do_create_node e ctx parent name mode dev link s = Some (sint ino, s4)"
      unfolding do_create_node_def using obj free c(1,2) a(1) bound(1) m(1) by simp
    have t4: "touches {ino, parent} s s4"
      by (rule touches_trans [OF touches_trans [OF c(6) a(4), of "{ino, parent}"] m(4)]) simp_all
    have "GetInode ino s4 = Some j" using touchesD(1) [OF m(4), of ino] c(5) j3 by simp
    moreover have "dir_lookup p4 = dir_lookup p3" using m(5) by (simp add: dir_lookup_def)
    ultimately have "created parent name mode link ino 0 s s4"
      unfolding created_def using c m bound a(5) p t4 by (auto simp: dir_step_def)
    with run sint_nonneg_64 [OF c(7)] c(7) m(2) that [of "sint ino" s4] show ?thesis by auto
  qed
qed

end
