(* ===== verification/Handler_Safety.thy ===== *)
theory Handler_Safety
  imports Node_Creation
begin

text \<open>
  Every handler that works on the inode table returns (no failed assertion, no null pointer, no
  access outside an object) and keeps the invariant of the global state, for requests within
  the limits the kernel respects: offsets and sizes below \<open>2 ^ 63\<close>, names that fit the
  directory size, a mode change that keeps the file type, and names it has looked up.
\<close>

section \<open>What being served means\<close>

definition served :: "fs \<Rightarrow> outcome \<Rightarrow> bool" where
  "served s out \<longleftrightarrow> (\<exists>rs s'. out = Some (rs, s') \<and> fs_ok s' \<and> state_pool s' = state_pool s)"

lemma servedI: "out = Some (rs, s') \<Longrightarrow> fs_ok s' \<Longrightarrow> state_pool s' = state_pool s \<Longrightarrow> served s out"
  by (simp add: served_def)

lemma served_err [simp]: "fs_ok s \<Longrightarrow> served s (fuse_reply_err n s)"
  by (simp add: served_def fuse_reply_err_def)

lemma served_err': "fs_ok s' \<Longrightarrow> state_pool s' = state_pool s \<Longrightarrow> served s (fuse_reply_err n s')"
  by (simp add: served_def fuse_reply_err_def)

lemma served_same [simp]: "fs_ok s \<Longrightarrow> served s (Some (rs, s))"
  by (simp add: served_def)

text \<open>Most handlers start by looking for a linked object.\<close>

lemma served_live:
  assumes "fs_ok s" "\<And>i. live ino s = Some i \<Longrightarrow> served s (f i)"
  shows "served s (case live ino s of None \<Rightarrow> fuse_reply_err n s | Some i \<Rightarrow> f i)"
  using assms by (cases "live ino s") simp_all

lemma served_entry:
  assumes ok: "fs_ok s'" and i: "GetInode ino s' = Some i" and p: "state_pool s' = state_pool s"
  shows "served s (reply_entry ino s')" "served s (reply_create ino s')"
proof -
  let ?i = "i\<lparr>m_nlookup := m_nlookup i + 1\<rparr>"
  have "fs_ok (put_inode ino ?i s')"
    by (rule fs_ok_put_inode [OF ok i]) (use fs_ok_inode(1) [OF ok i] in simp_all)
  then show "served s (reply_entry ino s')" "served s (reply_create ino s')"
    using i p by (simp_all add: served_def reply_entry_def reply_create_def Inode_ReplyEntry_def
        Inode_ReplyCreate_def)
qed

section \<open>Handlers that read\<close>

lemma FuseLookup_served: "fs_ok s \<Longrightarrow> served s (FuseLookup parent name s)"
  unfolding FuseLookup_def Let_def
  by (auto intro!: served_live served_entry dest!: liveD)

lemma FuseGetAttr_served: "fs_ok s \<Longrightarrow> served s (FuseGetAttr ino s)"
  by (auto simp: FuseGetAttr_def intro!: served_live)

lemma FuseAccess_served: "fs_ok s \<Longrightarrow> served s (FuseAccess ctx ino msk s)"
  by (auto simp: FuseAccess_def intro!: served_live)

lemma FuseStatfs_served: "fs_ok s \<Longrightarrow> served s (FuseStatfs s)"
  by (simp add: FuseStatfs_def)

lemma FuseOpen_served:
  assumes "fs_ok s"
  shows "served s (FuseOpenDir ino s)" "served s (FuseReleaseDir ino s)" "served s (FuseOpen ino s)"
    "served s (FuseRelease ino s)" "served s (FuseFsync ino s)" "served s (FuseFsyncDir ino s)"
    "served s (FuseFlush ino s)" "served s (FuseGetLock ino s)"
  using assms
  by (auto simp: FuseOpenDir_def FuseReleaseDir_def FuseOpen_def FuseRelease_def FuseFsync_def
      FuseFsyncDir_def FuseFlush_def FuseGetLock_def intro!: served_live split: option.splits)

lemma FuseReadLink_served: "fs_ok s \<Longrightarrow> served s (FuseReadLink ino s)"
  by (auto simp: FuseReadLink_def intro!: served_live)

lemma served_put:
  assumes ok: "fs_ok s" and i: "GetInode ino s = Some i" and j: "inode_ok j" "GetIno j = GetIno i"
  shows "served s (Some (rs, put_inode ino j s))"
  using fs_ok_put_inode [OF ok i j] by (simp add: served_def)

section \<open>Attributes and data\<close>

lemma on_inode_file:
  assumes ok: "fs_ok s" and i: "GetInode ino s = Some i" "is_File i"
    and run: "f (m_stbuf s, i) = Some (r, sb, j)" and step: "file_step (m_stbuf s, i) (sb, j)"
  obtains s' where "on_inode ino f s = Some (r, s')" "fs_ok s'" "GetInode ino s' = Some j"
    "touches {ino} s s'" "m_stbuf s' = sb"
proof -
  let ?s = "(put_inode ino j s)\<lparr>m_stbuf := sb\<rparr>"
  note r = on_inode_run [of ino s i f, OF i(1) run]
  note iok = fs_ok_inode(1) [OF ok i(1)]
  have "fs_ok ?s"
  proof (rule fs_ok_on_inode [OF ok r(1)])
    fix i' sb' j' assume "GetInode ino s = Some i'" "f (m_stbuf s, i') = Some (r, sb', j')"
    then have "i' = i" "j' = j" "sb' = sb" using i run by simp_all
    then show "inode_ok j' \<and> GetIno j' = GetIno i' \<and> (\<exists>d. sb' = UpdateUsedBlocks d (m_stbuf s))"
      using step file_ok_keeps [OF iok inode_ok_file [OF iok i(2)]] by (auto simp: file_step_def)
  qed
  with r that show ?thesis by simp
qed

lemma FuseSetAttr_served:
  assumes ok: "fs_ok s"
    and sz: "flag_set to_set FUSE_SET_ATTR_SIZE \<Longrightarrow> unat (st_size a) < 2 ^ 63"
    and md: "\<And>i. flag_set to_set FUSE_SET_ATTR_MODE \<Longrightarrow> GetInode ino s = Some i \<Longrightarrow>
      st_mode a AND S_IFMT = GetMode i AND S_IFMT"
  shows "served s (FuseSetAttr e ino a to_set s)"
  unfolding FuseSetAttr_def
proof (rule served_live [OF ok])
  fix i assume "live ino s = Some i"
  then have i: "GetInode ino s = Some i" using liveD by blast
  note iok = fs_ok_inode(1) [OF ok i]
  let ?out = "if flag_set to_set FUSE_SET_ATTR_SIZE then
            if \<not> is_File i then
              (if S_ISDIR (GetMode i) then fuse_reply_err EISDIR s else fuse_reply_err EINVAL s)
            else do {
              (ret, s') \<leftarrow> on_inode ino (File_FileTruncate e (st_size a)) s;
              if ret = 0 then do { i' \<leftarrow> GetInode ino s'; Some ([Inode_ReplyAttr i'], s') }
              else fuse_reply_err ret s'
            }
          else
            let (r, i') = Inode_ReplySetAttr e a to_set i in Some ([r], put_inode ino i' s)"
  show "served s ?out"
  proof (cases "flag_set to_set FUSE_SET_ATTR_SIZE")
    case False
    have keeps: "inode_ok (snd (Inode_ReplySetAttr e a to_set i))"
      "GetIno (snd (Inode_ReplySetAttr e a to_set i)) = GetIno i"
      using set_attr_keeps [OF md False] i iok by auto
    have "served s (Some ([fst (Inode_ReplySetAttr e a to_set i)],
        put_inode ino (snd (Inode_ReplySetAttr e a to_set i)) s))"
      by (rule served_put [OF ok i keeps])
    with False show ?thesis by (simp add: case_prod_beta)
  next
    case True
    show ?thesis
    proof (cases "is_File i")
      case False
      with True ok show ?thesis by simp
    next
      case f: True
      obtain r sb j where t: "File_FileTruncate e (st_size a) (m_stbuf s, i) = Some (r, sb, j)"
        "file_step (m_stbuf s, i) (sb, j)"
        by (rule file_truncate_keeps [OF inode_ok_file [OF iok f] sz [OF True]])
      obtain s' where "on_inode ino (File_FileTruncate e (st_size a)) s = Some (r, s')" "fs_ok s'"
        "GetInode ino s' = Some j" "touches {ino} s s'"
        by (rule on_inode_file [where f = "File_FileTruncate e (st_size a)", OF ok i f t])
      with True f show ?thesis by (auto simp: served_def touches_def fuse_reply_err_def)
    qed
  qed
qed

lemma FuseWrite_served:
  assumes ok: "fs_ok s" and bound: "\<And>d. buf = Some d \<Longrightarrow> unat off + length d < 2 ^ 63"
  shows "served s (FuseWrite e ino buf off s)"
proof (cases buf)
  case (Some d)
  have "served s (do { (r, s') \<leftarrow> on_inode ino (WriteAndReply e d off) s; Some ([r], s') })"
    if "live ino s = Some i" for i
  proof -
    have i: "GetInode ino s = Some i" using that liveD by blast
    note iok = fs_ok_inode(1) [OF ok i]
    show ?thesis
    proof (cases "is_File i")
      case True
      then have W: "WriteAndReply e d off (sb, i) = File_WriteAndReply e d off (sb, i)" for sb
        by (auto simp: WriteAndReply_def is_kind_simps)
      obtain r sb j where t: "File_WriteAndReply e d off (m_stbuf s, i) = Some (r, sb, j)"
        "file_step (m_stbuf s, i) (sb, j)"
        by (rule file_write_keeps [OF inode_ok_file [OF iok True] bound [OF Some]])
      obtain s' where "on_inode ino (WriteAndReply e d off) s = Some (r, s')" "fs_ok s'" "touches {ino} s s'"
        by (rule on_inode_file [where f = "WriteAndReply e d off", OF ok i True _ t(2)]) (simp add: W t)
      then show ?thesis by (simp add: served_def touches_def)
    next
      case False
      then obtain r where "WriteAndReply e d off (m_stbuf s, i) = Some (r, m_stbuf s, i)"
        by (cases "m_obj i") (auto simp: WriteAndReply_def is_kind_simps)
      note run = on_inode_run [of ino s i "WriteAndReply e d off", OF i this]
      have "fs_ok ((put_inode ino i s)\<lparr>m_stbuf := m_stbuf s\<rparr>)"
        using fs_ok_put_inode [OF ok i iok] by (simp add: fs_ok_def)
      with run show ?thesis by (simp add: served_def)
    qed
  qed
  with ok Some show ?thesis by (simp add: FuseWrite_def served_live)
qed (use ok in \<open>simp add: FuseWrite_def\<close>)

lemma FuseRead_served:
  assumes ok: "fs_ok s" and bound: "unat off + unat sz < 2 ^ 63"
  shows "served s (FuseRead e ino sz off s)"
  unfolding FuseRead_def
proof (rule served_live [OF ok])
  fix i assume "live ino s = Some i"
  then have i: "GetInode ino s = Some i" using liveD by blast
  note iok = fs_ok_inode(1) [OF ok i]
  have "\<exists>r j. ReadAndReply e sz off i = Some (r, j) \<and> inode_ok j \<and> GetIno j = GetIno i"
  proof (cases "m_obj i")
    case (File b)
    then have "file_ok i" using iok by (simp add: inode_ok_def)
    from file_read_ok [OF this bound, of e] obtain j where
      r: "File_ReadAndReply e sz off i = Some (ReplyBuf (spec_read (unat off) (unat sz) (file_data i)), j)"
      by blast
    have "j = i \<or> j = upd_attr (\<lambda>a. a\<lparr>st_atim := env_now e\<rparr>) i"
      using r File by (auto simp: File_ReadAndReply_def Let_def split: if_splits Option.bind_splits)
    then have "inode_ok j \<and> GetIno j = GetIno i"
      using iok by (auto simp: inode_ok_upd_attr GetIno_def)
    with r File show ?thesis by (simp add: ReadAndReply_def)
  qed (use iok in \<open>simp_all add: ReadAndReply_def\<close>)
  then obtain r j where "ReadAndReply e sz off i = Some (r, j)" "inode_ok j" "GetIno j = GetIno i" by blast
  with served_put [OF ok i, of j "[r]"]
  show "served s (do { (r, i') \<leftarrow> ReadAndReply e sz off i; Some ([r], put_inode ino i' s) })" by simp
qed

section \<open>Creating\<close>

text \<open>The room a new entry needs in its directory.\<close>

definition entry_fits :: "ino_t \<Rightarrow> string \<Rightarrow> fs \<Rightarrow> bool" where
  "entry_fits parent name s \<longleftrightarrow> (case GetInode parent s of
     None \<Rightarrow> True | Some p \<Rightarrow> dir_bytes (m_children p) + 72 + length name < 2 ^ 63)"

lemma entry_fitsD: "entry_fits k name s \<Longrightarrow> GetInode k s = Some p \<Longrightarrow> dir_bytes (m_children p) + 72 + length name < 2 ^ 63"
  by (simp add: entry_fits_def)

lemma create_node_served:
  assumes ok: "fs_ok s" and fits: "entry_fits parent name s"
    and p: "live parent s = Some p" "is_Directory p"
  shows "served s (do { (ino, s') \<leftarrow> do_create_node e ctx parent name mode dev link s;
      if ino > 0 then reply_entry (word_of_int ino) s' else fuse_reply_err (- ino) s' })"
    and "served s (do { (ino, s') \<leftarrow> do_create_node e ctx parent name mode dev link s;
      if ino > 0 then reply_create (word_of_int ino) s' else fuse_reply_err (- ino) s' })"
proof -
  have gp: "GetInode parent s = Some p" using p liveD by blast
  obtain r s' where run: "do_create_node e ctx parent name mode dev link s = Some (r, s')" "fs_ok s'"
    "- r \<in> {EEXIST, EINVAL, ENOSPC} \<and> touches {} s s' \<or>
     (\<exists>ino. unat ino < 2 ^ 63 \<and> r = int (unat ino) \<and> created parent name mode link ino 0 s s')"
    by (rule do_create_node_ok [OF ok gp p(2) entry_fitsD [OF fits gp], of e ctx mode dev link])
  from run(3) have pool: "state_pool s' = state_pool s"
    by (auto simp: created_def touches_def)
  have node: "\<exists>j. GetInode (word_of_int r) s' = Some j" if "r > 0"
    using run(3) that by (auto simp: created_def)
  show "served s (do { (ino, s') \<leftarrow> do_create_node e ctx parent name mode dev link s;
      if ino > 0 then reply_entry (word_of_int ino) s' else fuse_reply_err (- ino) s' })"
    and "served s (do { (ino, s') \<leftarrow> do_create_node e ctx parent name mode dev link s;
      if ino > 0 then reply_create (word_of_int ino) s' else fuse_reply_err (- ino) s' })"
    using run(1,2) pool node served_entry [OF run(2) _ pool] by (auto simp: served_err')
qed

lemma FuseMknod_served:
  "fs_ok s \<Longrightarrow> entry_fits parent name s \<Longrightarrow> served s (FuseMknod e ctx parent name mode rdev s)"
  unfolding FuseMknod_def
  by (rule served_live) (auto intro: create_node_served)

lemma FuseMkdir_served:
  "fs_ok s \<Longrightarrow> entry_fits parent name s \<Longrightarrow> served s (FuseMkdir e ctx parent name mode s)"
  unfolding FuseMkdir_def
  by (rule served_live) (auto intro: create_node_served)

lemma FuseCreate_served:
  "fs_ok s \<Longrightarrow> entry_fits parent name s \<Longrightarrow> served s (FuseCreate e ctx parent name mode s)"
  unfolding FuseCreate_def
  by (rule served_live) (auto intro: create_node_served)

lemma served_more_replies: "served s out \<Longrightarrow> served s (do { (rs, s'') \<leftarrow> out; Some (f rs, s'') })"
  by (auto simp: served_def)

lemma FuseSymlink_served:
  assumes ok: "fs_ok s" and fits: "entry_fits parent name s"
  shows "served s (FuseSymlink e ctx link parent name s)"
  unfolding FuseSymlink_def
proof (rule served_live [OF ok], goal_cases)
  case (1 p)
  show ?case
  proof (cases "is_Directory p")
    case True
    have "served s (if ChildInodeNumberWithName name p \<noteq> INO_NOTFOUND then fuse_reply_err EEXIST s
        else do { (ino, s') \<leftarrow> do_create_node e ctx parent name (0x1FF OR S_IFLNK) 0 (Some link) s;
             if ino > 0 then reply_entry (word_of_int ino) s' else fuse_reply_err (- ino) s' })"
      using ok create_node_served(1) [OF ok fits 1 True] by simp
    from served_more_replies [OF this] True show ?thesis
      by (simp only: Let_def not_True_eq_False if_False)
  qed (use ok in simp)
qed

lemma FuseLink_served:
  assumes ok: "fs_ok s" and fits: "entry_fits newparent newname s"
  shows "served s (FuseLink ino newparent newname s)"
  unfolding FuseLink_def
proof (rule served_live [OF ok], rule served_live [OF ok])
  fix src p assume l: "live ino s = Some src" "live newparent s = Some p"
  then have src: "GetInode ino s = Some src" and p: "GetInode newparent s = Some p" using liveD by blast+
  let ?add = "do { (ret, s1) \<leftarrow> on_inode newparent (AddChild newname ino) s;
            if ret < 0 then fuse_reply_err (- ret) s1
            else do { s2 \<leftarrow> modify_inode ino IncrementLinkCount s1; reply_entry ino s2 } }"
  have "served s ?add" if d: "is_Directory p"
  proof -
    obtain r s1 p1 where a: "on_inode newparent (AddChild newname ino) s = Some (r, s1)" "fs_ok s1"
      "GetInode newparent s1 = Some p1" "touches {newparent} s s1"
      by (rule on_inode_AddChild [OF ok p d entry_fitsD [OF fits p]])
    obtain src1 where s1: "GetInode ino s1 = Some src1"
      using a(3) touchesD(1) [OF a(4), of ino] src by (cases "ino = newparent") auto
    obtain s2 where m: "modify_inode ino IncrementLinkCount s1 = Some s2" "fs_ok s2"
      "GetInode ino s2 = Some (IncrementLinkCount src1)" "touches {ino} s1 s2"
      by (rule modify_inode_ok [OF a(2) s1, of IncrementLinkCount])
        (use fs_ok_inode(1) [OF a(2) s1] in \<open>simp_all add: link_count_keeps\<close>)
    have "served s (reply_entry ino s2)"
      using m(2,3) touchesD(2) [OF m(4)] touchesD(2) [OF a(4)] by (intro served_entry) simp_all
    with a(1,2) m(1) touchesD(2) [OF a(4)] show ?thesis by (simp add: served_err')
  qed
  with ok show "served s (if \<not> is_Directory p then fuse_reply_err ENOTDIR s
          else if ChildInodeNumberWithName newname p \<noteq> INO_NOTFOUND then fuse_reply_err EEXIST s
          else ?add)" by simp
qed

section \<open>Removing\<close>

text \<open>
  The kernel removes names it has looked up and not forgotten: the object a name is bound to is
  in the table.
\<close>

definition name_known :: "ino_t \<Rightarrow> string \<Rightarrow> fs \<Rightarrow> bool" where
  "name_known parent name s \<longleftrightarrow> (case GetInode parent s of
     None \<Rightarrow> True
   | Some p \<Rightarrow> (case dir_lookup p name of None \<Rightarrow> True | Some k \<Rightarrow> GetInode k s \<noteq> None))"

lemma name_knownD:
  assumes "name_known parent name s" "GetInode parent s = Some p"
    "ChildInodeNumberWithName name p \<noteq> INO_NOTFOUND"
  obtains i where "GetInode (ChildInodeNumberWithName name p) s = Some i"
  using assms
  by (auto simp: name_known_def ChildInodeNumberWithName_lookup split: option.splits)

lemma touched_present:
  assumes "touches {k} s s'" "GetInode k s' = Some x" "GetInode m s = Some i"
  obtains j where "GetInode m s' = Some j"
  using assms touchesD(1) [OF assms(1), of m] by (cases "m = k") auto

lemma FuseUnlink_served:
  assumes ok: "fs_ok s" and known: "name_known parent name s"
  shows "served s (FuseUnlink e parent name s)"
  unfolding FuseUnlink_def
proof (rule served_live [OF ok])
  fix p assume "live parent s = Some p"
  then have p: "GetInode parent s = Some p" using liveD by blast
  let ?ino = "ChildInodeNumberWithName name p"
  let ?rm = "do { (_, s1) \<leftarrow> on_inode parent (RemoveChild e name) s;
              s2 \<leftarrow> modify_inode ?ino DecrementLinkCount s1;
              fuse_reply_err 0 s2 }"
  have "served s ?rm" if d: "is_Directory p" and f: "?ino \<noteq> INO_NOTFOUND"
  proof -
    obtain r s1 p1 where a: "on_inode parent (RemoveChild e name) s = Some (r, s1)" "fs_ok s1"
      "GetInode parent s1 = Some p1" "touches {parent} s s1"
      by (rule on_inode_RemoveChild [OF ok p d])
    obtain i where "GetInode ?ino s = Some i" by (rule name_knownD [OF known p f])
    then obtain j where j: "GetInode ?ino s1 = Some j" by (rule touched_present [OF a(4,3)])
    obtain s2 where m: "modify_inode ?ino DecrementLinkCount s1 = Some s2" "fs_ok s2"
      "touches {?ino} s1 s2"
      by (rule modify_inode_ok [OF a(2) j, of DecrementLinkCount])
        (use fs_ok_inode(1) [OF a(2) j] in \<open>simp_all add: link_count_keeps\<close>)
    show ?thesis using a(1) m(1,2) touchesD(2) [OF m(3)] touchesD(2) [OF a(4)] by (simp add: served_err')
  qed
  with ok show "served s (if \<not> is_Directory p then fuse_reply_err ENOTDIR s
      else let ino = ?ino in if ino = INO_NOTFOUND then fuse_reply_err ENOENT s
        else do { (_, s1) \<leftarrow> on_inode parent (RemoveChild e name) s;
              s2 \<leftarrow> modify_inode ino DecrementLinkCount s1;
              fuse_reply_err 0 s2 })" by (simp add: Let_def)
qed

lemma remove_dir_served:
  assumes ok: "fs_ok s" and p: "GetInode parent s = Some p" "is_Directory p"
    and i: "GetInode ino s = Some i"
  shows "served s (do { (_, s1) \<leftarrow> on_inode parent (RemoveChild e name) s;
                    s2 \<leftarrow> modify_inode parent DecrementLinkCount s1;
                    s3 \<leftarrow> modify_inode ino drop_links s2;
                    fuse_reply_err 0 s3 })"
proof -
  obtain r s1 p1 where a: "on_inode parent (RemoveChild e name) s = Some (r, s1)" "fs_ok s1"
    "GetInode parent s1 = Some p1" "touches {parent} s s1"
    by (rule on_inode_RemoveChild [OF ok p])
  obtain s2 where m: "modify_inode parent DecrementLinkCount s1 = Some s2" "fs_ok s2"
    "GetInode parent s2 = Some (DecrementLinkCount p1)" "touches {parent} s1 s2"
    by (rule modify_inode_ok [OF a(2,3), of DecrementLinkCount])
      (use fs_ok_inode(1) [OF a(2,3)] in \<open>simp_all add: link_count_keeps\<close>)
  obtain j where "GetInode ino s1 = Some j" by (rule touched_present [OF a(4,3) i])
  then obtain j2 where j: "GetInode ino s2 = Some j2" by (rule touched_present [OF m(4,3)])
  obtain s3 where n: "modify_inode ino drop_links s2 = Some s3" "fs_ok s3" "touches {ino} s2 s3"
    by (rule modify_inode_ok [OF m(2) j, of drop_links])
      (use fs_ok_inode(1) [OF m(2) j] drop_links_keeps [of j2] in simp_all)
  show ?thesis
    using a(1) m(1) n(1,2) touchesD(2) [OF n(3)] touchesD(2) [OF m(4)] touchesD(2) [OF a(4)]
    by (simp add: served_err')
qed

lemma FuseRmdir_served:
  assumes ok: "fs_ok s" shows "served s (FuseRmdir e parent name s)"
  unfolding FuseRmdir_def
proof (rule served_live [OF ok], goal_cases)
  case (1 p)
  then have p: "GetInode parent s = Some p" using liveD by blast
  show ?case
    using ok remove_dir_served [OF ok p]
    by (auto simp: Let_def intro!: served_live dest!: liveD)
qed

lemma FuseForget_served:
  assumes ok: "fs_ok s" shows "served s (FuseForget ino n s)"
proof (cases "GetInode ino s")
  case None
  with ok show ?thesis by (simp add: FuseForget_def)
next
  case (Some i)
  let ?i = "i\<lparr>m_nlookup := m_nlookup i - n\<rparr>"
  have del: "fs_ok (DeleteInode ino (s\<lparr>m_stbuf := UpdateUsedInodes (-1) (m_stbuf s)\<rparr>))"
    by (rule fs_ok_DeleteInode [OF ok Some])
  have "fs_ok ((DeleteInode ino s)\<lparr>m_stbuf := UpdateUsedBlocks (- UsedBlocks ?i)
      (UpdateUsedInodes (-1) (m_stbuf s))\<rparr>)"
    using fs_ok_blocks [OF del, of "- UsedBlocks ?i"] by (simp add: DeleteInode_def fs_ok_def)
  moreover have "fs_ok (put_inode ino ?i s)"
    by (rule fs_ok_put_inode [OF ok Some]) (use fs_ok_inode(1) [OF ok Some] in simp_all)
  ultimately show ?thesis
    using Some by (simp add: FuseForget_def Inode_Forget_def Let_def served_def DeleteInode_def)
qed

section \<open>Renaming\<close>

text \<open>A chain of table updates that creates and destroys nothing and changes no class.\<close>

definition chain :: "fs \<Rightarrow> fs \<Rightarrow> bool" where
  "chain s s' \<longleftrightarrow> fs_ok s' \<and> state_pool s' = state_pool s \<and>
     (\<forall>m i. GetInode m s = Some i \<longrightarrow> (\<exists>j. GetInode m s' = Some j \<and> is_Directory j = is_Directory i))"

lemma chain_trans: "chain s s' \<Longrightarrow> chain s' s'' \<Longrightarrow> chain s s''"
  unfolding chain_def by (metis)

lemma chain_dir:
  assumes "chain s s'" "GetInode k s = Some d" "is_Directory d"
  obtains d' where "GetInode k s' = Some d'" "is_Directory d'"
  using assms unfolding chain_def by metis

lemma chainI:
  assumes "fs_ok s'" "touches {k} s s'" "GetInode k s = Some i" "GetInode k s' = Some j"
    "is_Directory j = is_Directory i"
  shows "chain s s'"
  unfolding chain_def
proof (intro conjI allI impI)
  fix m x assume "GetInode m s = Some x"
  then show "\<exists>y. GetInode m s' = Some y \<and> is_Directory y = is_Directory x"
    using assms touchesD(1) [OF assms(2), of m] by (cases "m = k") auto
qed (use assms touchesD in auto)

lemma chain_modify:
  assumes ok: "fs_ok s" and i: "GetInode k s = Some i"
    and g: "inode_ok i \<Longrightarrow> inode_ok (g i)" "GetIno (g i) = GetIno i" "is_Directory (g i) = is_Directory i"
  obtains s' where "modify_inode k g s = Some s'" "chain s s'"
proof -
  obtain s' where "modify_inode k g s = Some s'" "fs_ok s'" "GetInode k s' = Some (g i)" "touches {k} s s'"
    by (rule modify_inode_ok [where g = g, OF ok i g(1) [OF fs_ok_inode(1) [OF ok i]] g(2)])
  with chainI [OF _ _ i _ g(3)] that show ?thesis by blast
qed

lemma link_count_dir [simp]:
  "is_Directory (IncrementLinkCount i) = is_Directory i" "is_Directory (DecrementLinkCount i) = is_Directory i"
  by (simp_all add: IncrementLinkCount_def DecrementLinkCount_def is_kind_simps)

lemma chain_link_count:
  assumes "chain s0 s" "GetInode k s0 = Some i"
  obtains s' s'' where "modify_inode k DecrementLinkCount s = Some s'" "chain s0 s'"
    "modify_inode k IncrementLinkCount s = Some s''" "chain s0 s''"
proof -
  from assms obtain j where j: "GetInode k s = Some j" unfolding chain_def by blast
  have ok: "fs_ok s" using assms(1) by (simp add: chain_def)
  obtain s' where a: "modify_inode k DecrementLinkCount s = Some s'" "chain s s'"
    by (rule chain_modify [OF ok j, of DecrementLinkCount]) (simp_all add: link_count_keeps)
  obtain s'' where b: "modify_inode k IncrementLinkCount s = Some s''" "chain s s''"
    by (rule chain_modify [OF ok j, of IncrementLinkCount]) (simp_all add: link_count_keeps)
  from a b chain_trans [OF assms(1)] that show ?thesis by blast
qed

lemma chain_RemoveChild:
  assumes "chain s0 s" "GetInode k s0 = Some d" "is_Directory d"
  obtains r s' where "on_inode k (RemoveChild_nolock e name) s = Some (r, s')" "chain s0 s'"
proof -
  obtain d' where d': "GetInode k s = Some d'" "is_Directory d'" by (rule chain_dir [OF assms])
  have ok: "fs_ok s" using assms(1) by (simp add: chain_def)
  obtain r s' d2 where r: "on_inode k (RemoveChild e name) s = Some (r, s')" "fs_ok s'"
    "GetInode k s' = Some d2" "touches {k} s s'" "dir_step (m_stbuf s, d') (m_stbuf s', d2)"
    by (rule on_inode_RemoveChild [OF ok d'])
  have "chain s s'" by (rule chainI [OF r(2,4) d'(1) r(3)]) (use r(5) d' in \<open>simp add: dir_step_def\<close>)
  from chain_trans [OF assms(1) this] that r(1) show ?thesis
    by (simp add: RemoveChild_def [abs_def])
qed

lemma chain_UpdateChild:
  assumes "chain s0 s" "GetInode k s0 = Some d" "is_Directory d"
  obtains s' where "modify_inode k (\<lambda>d. snd (UpdateChild_nolock e name ino d)) s = Some s'" "chain s0 s'"
proof -
  obtain d' where d': "GetInode k s = Some d'" "is_Directory d'" by (rule chain_dir [OF assms])
  have ok: "fs_ok s" using assms(1) by (simp add: chain_def)
  have u: "dir_step (m_stbuf s, d') (m_stbuf s, snd (UpdateChild_nolock e name ino d'))"
    using UpdateChild_keeps [OF fs_ok_inode(1) [OF ok d'(1)] d'(2), of "m_stbuf s" e name ino]
    by (simp add: UpdateChild_def)
  obtain s' where "modify_inode k (\<lambda>d. snd (UpdateChild_nolock e name ino d)) s = Some s'" "chain s s'"
    by (rule chain_modify [OF ok d'(1), of "\<lambda>d. snd (UpdateChild_nolock e name ino d)"])
      (use u d' in \<open>simp_all add: dir_step_def\<close>)
  with chain_trans [OF assms(1)] that show ?thesis by blast
qed

lemma chain_refl: "fs_ok s \<Longrightarrow> chain s s"
  by (simp add: chain_def)

lemma served_chain: "chain s s' \<Longrightarrow> served s (fuse_reply_err n s')"
  by (simp add: chain_def served_err')

lemma inode_ok_mode_dir: "inode_ok i \<Longrightarrow> S_ISDIR (GetMode i) \<longleftrightarrow> is_Directory i"
  by (cases "m_obj i") (auto simp: inode_ok_def mode_matches_def is_kind_simps Let_def)

text \<open>
  The destination that a rename replaces is not one of the two directories it works in: the kernel refuses \<^verbatim>\<open>.\<close>
  and \<^verbatim>\<open>..\<close> as the last component of either path, and a destination that the source lies below.
\<close>

definition rename_target_ok :: "ino_t \<Rightarrow> ino_t \<Rightarrow> string \<Rightarrow> fs \<Rightarrow> bool" where
  "rename_target_ok parent newparent newname s \<longleftrightarrow> (case GetInode newparent s of
     None \<Rightarrow> True
   | Some d \<Rightarrow> ChildInodeNumberWithName newname d \<noteq> parent \<and> ChildInodeNumberWithName newname d \<noteq> newparent)"

lemma rename_target_okD:
  assumes "rename_target_ok parent newparent newname s" "GetInode newparent s = Some d"
  shows "ChildInodeNumberWithName_nolock newname d \<noteq> parent" "ChildInodeNumberWithName_nolock newname d \<noteq> newparent"
  using assms by (simp_all add: rename_target_ok_def ChildInodeNumberWithName_def)

lemma rename_replace_served:
  assumes ok: "fs_ok s" and p: "GetInode parent s = Some p" "is_Directory p"
    and np: "GetInode newparent s = Some np" "is_Directory np" and ex: "GetInode exIno s = Some ex"
    and ne: "exIno \<noteq> parent" "exIno \<noteq> newparent"
  shows "served s (rename_replace e parent name newparent newname srcIno src exIno ex s)"
proof -
  note exdir = inode_ok_mode_dir [OF fs_ok_inode(1) [OF ok ex]]
  obtain s1 where 1: "modify_inode exIno DecrementLinkCount s = Some s1" "chain s s1"
    by (rule chain_link_count [OF chain_refl [OF ok] ex])
  obtain s2 where 2: "modify_inode newparent (\<lambda>d. snd (UpdateChild_nolock e newname srcIno d)) s1 = Some s2"
    "chain s s2" by (rule chain_UpdateChild [OF 1(2) np])
  obtain r s3 where 3: "on_inode parent (RemoveChild_nolock e name) s2 = Some (r, s3)" "chain s s3"
    by (rule chain_RemoveChild [OF 2(2) p])
  obtain t1 where 4: "modify_inode exIno DecrementLinkCount s3 = Some t1" "chain s t1"
    by (rule chain_link_count [OF 3(2) ex])
  obtain t2 where 5: "modify_inode exIno DecrementLinkCount t1 = Some t2" "chain s t2"
    by (rule chain_link_count [OF 4(2) ex])
  obtain t3 where 6: "modify_inode parent DecrementLinkCount t2 = Some t3" "chain s t3"
    by (rule chain_link_count [OF 5(2) p(1)])
  show ?thesis
    using ok exdir ne 1 2 3 4 5 6 served_chain
    by (auto simp: rename_replace_def Let_def)
qed

lemma rename_move_served:
  assumes ok: "fs_ok s" and p: "GetInode parent s = Some p" "is_Directory p"
    and np: "GetInode newparent s = Some np" "is_Directory np" and fits: "entry_fits newparent newname s"
  shows "served s (rename_move e parent name newparent newname srcIno src s)"
proof -
  obtain r1 s1 d1 where 1: "on_inode newparent (AddChild newname srcIno) s = Some (r1, s1)" "fs_ok s1"
    "GetInode newparent s1 = Some d1" "touches {newparent} s s1" "dir_step (m_stbuf s, np) (m_stbuf s1, d1)"
    by (rule on_inode_AddChild [OF ok np entry_fitsD [OF fits np(1)]])
  have c1: "chain s s1" by (rule chainI [OF 1(2,4) np(1) 1(3)]) (use 1(5) np in \<open>simp add: dir_step_def\<close>)
  obtain r s2 where 2: "on_inode parent (RemoveChild_nolock e name) s1 = Some (r, s2)" "chain s s2"
    by (rule chain_RemoveChild [OF c1 p])
  obtain t1 where 3: "modify_inode parent DecrementLinkCount s2 = Some t1" "chain s t1"
    by (rule chain_link_count [OF 2(2) p(1)])
  obtain t2 where 4: "modify_inode newparent IncrementLinkCount t1 = Some t2" "chain s t2"
    by (rule chain_link_count [OF 3(2) np(1)])
  show ?thesis
    using 1(1) 2 3 4 served_chain by (auto simp: rename_move_def AddChild_def [abs_def])
qed

lemma FuseRename_served:
  assumes ok: "fs_ok s" and fits: "entry_fits newparent newname s" and target: "rename_target_ok parent newparent newname s"
  shows "served s (FuseRename e parent name newparent newname s)"
  unfolding FuseRename_def
proof (rule served_live [OF ok], rule served_live [OF ok], goal_cases)
  case (1 p np)
  then have g: "GetInode parent s = Some p" "GetInode newparent s = Some np" using liveD by blast+
  show ?case
    using ok rename_target_okD [OF target g(2)] rename_replace_served [OF ok g(1) _ g(2)] rename_move_served [OF ok g(1) _ g(2) _ fits]
    by (auto simp: Let_def intro!: served_live split: option.splits)
qed

end
