(* ===== verification/Readdir.thy ===== *)
theory Readdir
  imports Handlers
begin

text \<open>
  Listing a directory: \<^verbatim>\<open>Directory::PrepareReaddir\<close>, \<^verbatim>\<open>Directory::RecycleStates\<close>
  (\<^verbatim>\<open>directory.cpp\<close>) and \<^verbatim>\<open>FuseRamFs::FuseReadDir\<close> (\<^verbatim>\<open>fuse_cpp_ramfs.cpp\<close>). A listing in progress
  keeps a copy of the children and an iterator, a position in that copy; the offset the kernel
  sends back selects it by a 16-bit key.

  Two things come from outside: the values \<^verbatim>\<open>rand()\<close> returns, by call number, and the size of
  the record that libfuse's \<^verbatim>\<open>fuse_add_direntry\<close> makes for a name. That call returns the size
  of the record and stores it only when it fits the room it was given.
\<close>

section \<open>Listing contexts\<close>

text \<open>\<^verbatim>\<open>do key = rand() & 0xffff; while (key in use)\<close>; not returning is \<open>None\<close>.\<close>

partial_function (option) fresh_key :: "(nat \<Rightarrow> u32) \<Rightarrow> off_t list \<Rightarrow> nat \<Rightarrow> off_t option" where
  "fresh_key rand used n =
     (let key = ucast (rand n AND 0xFFFF) in
      if key \<in> set used then fresh_key rand used (Suc n) else Some key)"

text \<open>
  \<open>Inl ()\<close> is the \<^verbatim>\<open>std::out_of_range\<close> that \<^verbatim>\<open>readdirStates.at(key)\<close> throws; otherwise the key of
  the context and the state that holds it.
\<close>

definition PrepareReaddir ::
    "(nat \<Rightarrow> u32) \<Rightarrow> Inode \<Rightarrow> off_t \<Rightarrow> fs \<Rightarrow> (unit + off_t \<times> fs) option" where
  "PrepareReaddir rand dir cookie s =
     (if cookie \<noteq> 0 then
        let key = drop_bit 16 (cookie AND 0xFFFF0000) in
        (case map_of (readdirStates s) key of
           None \<Rightarrow> Some (Inl ())
         | Some _ \<Rightarrow> Some (Inr (key, s)))
      else do {
        key \<leftarrow> fresh_key rand (map fst (readdirStates s)) 0;
        let newctx = \<lparr>rd_cookie = push_bit 16 key, rd_it = 0, rd_children = m_children dir\<rparr>;
        Some (Inr (key, s\<lparr>readdirStates := readdirStates s @ [(key, newctx)]\<rparr>))
      })"

definition RecycleStates :: "fs \<Rightarrow> fs" where
  "RecycleStates s =
     s\<lparr>readdirStates := filter (\<lambda>(_, ctx). rd_it ctx \<noteq> length (rd_children ctx)) (readdirStates s)\<rparr>"

section \<open>Filling one response\<close>

definition kReadDirEntriesPerResponse :: nat where "kReadDirEntriesPerResponse = 255"
definition kReadDirBufSize :: size_t where "kReadDirBufSize = 384"

text \<open>
  The loop of \<^verbatim>\<open>FuseReadDir\<close>. \<open>get\<close> is the inode table, \<open>dsz\<close> the record size, \<open>hasbuf\<close> whether
  the buffer was allocated. \<open>None\<close>: a record is stored through the null pointer, or the iterator
  moves before the first entry or past the end.
\<close>

function fill_response ::
    "(ino_t \<Rightarrow> Inode option) \<Rightarrow> (string \<Rightarrow> size_t) \<Rightarrow> bool \<Rightarrow> size_t \<Rightarrow> ReadDirCtx \<Rightarrow> size_t \<Rightarrow> nat
     \<Rightarrow> dirent list \<Rightarrow> (ReadDirCtx \<times> dirent list) option" where
  "fill_response get dsz hasbuf bufSize ctx bytesAdded entriesAdded acc =
     (if entriesAdded < kReadDirEntriesPerResponse \<and> rd_it ctx \<noteq> length (rd_children ctx) then
        if rd_it ctx > length (rd_children ctx) then None
        else
          let (name, child_ino) = rd_children ctx ! rd_it ctx;
              next = ctx\<lparr>rd_it := Suc (rd_it ctx)\<rparr>
          in (case get child_ino of
                None \<Rightarrow> fill_response get dsz hasbuf bufSize next bytesAdded entriesAdded acc
              | Some child \<Rightarrow>
                  if HasNoLinks child
                  then fill_response get dsz hasbuf bufSize next bytesAdded entriesAdded acc
                  else
                    let off = rd_cookie ctx + 1;
                        ent = \<lparr>d_name = name, d_stat = (GetAttr child)\<lparr>st_ino := child_ino\<rparr>,
                               d_off = off\<rparr>
                    in if bytesAdded + dsz name > bufSize then
                         (if rd_it ctx = 0 then None
                          else Some (ctx\<lparr>rd_it := rd_it ctx - 1, rd_cookie := off\<rparr>, acc))
                       else if \<not> hasbuf then None
                       else fill_response get dsz hasbuf bufSize (next\<lparr>rd_cookie := off\<rparr>)
                              (bytesAdded + dsz name) (Suc entriesAdded) (acc @ [ent]))
      else Some (ctx, acc))"
  by pat_completeness auto
termination
  by (relation "measure (\<lambda>(get, dsz, hasbuf, bufSize, ctx, b, n, acc).
        length (rd_children ctx) - rd_it ctx)") auto

declare fill_response.simps [simp del]

text \<open>Storing the advanced context back under its key.\<close>

definition put_ctx :: "off_t \<Rightarrow> ReadDirCtx \<Rightarrow> fs \<Rightarrow> fs" where
  "put_ctx key ctx s =
     s\<lparr>readdirStates := map (\<lambda>(k, c). (k, if k = key then ctx else c)) (readdirStates s)\<rparr>"

definition FuseReadDir ::
    "env \<Rightarrow> (nat \<Rightarrow> u32) \<Rightarrow> (string \<Rightarrow> size_t) \<Rightarrow> ino_t \<Rightarrow> size_t \<Rightarrow> off_t \<Rightarrow> fs \<Rightarrow> outcome" where
  "FuseReadDir e rand dsz ino sz off s =
     (case live ino s of
        None \<Rightarrow> fuse_reply_err ENOENT s
      | Some dir \<Rightarrow>
          if \<not> is_Directory dir then fuse_reply_err ENOTDIR s
          else do {
            prepared \<leftarrow> PrepareReaddir rand dir off s;
            case prepared of
              Inl _ \<Rightarrow> Some ([ReplyDirents []], s)
            | Inr (key, s1) \<Rightarrow> do {
                ctx \<leftarrow> map_of (readdirStates s1) key;
                let bufSize = (if kReadDirBufSize < sz then kReadDirBufSize else sz);
                let hasbuf = env_alloc e bufSize;
                (ctx', ents) \<leftarrow> fill_response (\<lambda>k. GetInode k s1) dsz hasbuf bufSize ctx 0 0 [];
                Some ((if hasbuf then [] else [ReplyErr ENOMEM]) @ [ReplyDirents ents],
                      RecycleStates (put_ctx key ctx' s1))
              }
          })"

section \<open>The key search\<close>

lemma fresh_key_unused: "fresh_key rand used n = Some key \<Longrightarrow> key \<notin> set used"
proof (rule fresh_key.raw_induct [where P = "\<lambda>rand used n key. key \<notin> set used"])
  fix f rand used n key
  assume IH: "\<And>rand used n key. f rand used n = Some key \<Longrightarrow> key \<notin> set used"
    and eq: "(let key = ucast (rand n AND 0xFFFF :: u32) in
      if key \<in> set used then f rand used (Suc n) else Some key) = Some key"
  then show "key \<notin> set used" by (auto simp: Let_def split: if_splits)
qed

lemma fresh_key_returns:
  assumes "ucast (rand (n + k) AND 0xFFFF) \<notin> set used"
  shows "\<exists>key. fresh_key rand used n = Some key"
  using assms
proof (induction k arbitrary: n)
  case 0
  then show ?case by (subst fresh_key.simps) (simp add: Let_def)
next
  case (Suc k)
  then have "\<exists>key. fresh_key rand used (Suc n) = Some key" by simp
  then show ?case by (subst fresh_key.simps) (simp add: Let_def)
qed

section \<open>What one response lists\<close>

text \<open>The entries of a children list whose inodes exist and have links, with their offsets.\<close>

fun listing :: "(ino_t \<Rightarrow> Inode option) \<Rightarrow> off_t \<Rightarrow> children \<Rightarrow> dirent list" where
  "listing get cookie [] = []"
| "listing get cookie ((name, ino) # cs) =
     (case get ino of
        None \<Rightarrow> listing get cookie cs
      | Some child \<Rightarrow>
          if HasNoLinks child then listing get cookie cs
          else \<lparr>d_name = name, d_stat = (GetAttr child)\<lparr>st_ino := ino\<rparr>, d_off = cookie + 1\<rparr>
               # listing get (cookie + 1) cs)"

definition listing_bytes :: "(string \<Rightarrow> size_t) \<Rightarrow> dirent list \<Rightarrow> nat" where
  "listing_bytes dsz ds = sum_list (map (\<lambda>d. unat (dsz (d_name d))) ds)"

text \<open>The three branches of the loop body, as equations.\<close>

lemma fill_response_skip:
  assumes "rd_it ctx < length (rd_children ctx)" "rd_children ctx ! rd_it ctx = (name, ino)"
    "get ino = None \<or> (\<exists>child. get ino = Some child \<and> HasNoLinks child)" "n < kReadDirEntriesPerResponse"
  shows "fill_response get dsz hasbuf bufSize ctx b n acc =
    fill_response get dsz hasbuf bufSize (ctx\<lparr>rd_it := Suc (rd_it ctx)\<rparr>) b n acc"
  using assms by (subst fill_response.simps) auto

text \<open>
  Running out of room: the iterator is moved back to the entry before the one that did not fit,
  although the loop had not advanced past the latter.
\<close>

lemma fill_response_full:
  assumes "rd_it ctx < length (rd_children ctx)" "rd_children ctx ! rd_it ctx = (name, ino)"
    "get ino = Some child" "\<not> HasNoLinks child" "n < kReadDirEntriesPerResponse"
    "bufSize < b + dsz name"
  shows "fill_response get dsz hasbuf bufSize ctx b n acc =
    (if rd_it ctx = 0 then None
     else Some (ctx\<lparr>rd_it := rd_it ctx - 1, rd_cookie := rd_cookie ctx + 1\<rparr>, acc))"
  using assms by (subst fill_response.simps) auto

lemma fill_response_add:
  assumes "rd_it ctx < length (rd_children ctx)" "rd_children ctx ! rd_it ctx = (name, ino)"
    "get ino = Some child" "\<not> HasNoLinks child" "n < kReadDirEntriesPerResponse"
    "b + dsz name \<le> bufSize"
  shows "fill_response get dsz True bufSize ctx b n acc =
    fill_response get dsz True bufSize
      (ctx\<lparr>rd_it := Suc (rd_it ctx), rd_cookie := rd_cookie ctx + 1\<rparr>) (b + dsz name) (Suc n)
      (acc @ [\<lparr>d_name = name, d_stat = (GetAttr child)\<lparr>st_ino := ino\<rparr>, d_off = rd_cookie ctx + 1\<rparr>])"
  using assms by (subst fill_response.simps) (auto simp: Let_def not_less)

lemma fill_response_all:
  assumes "rd_it ctx \<le> length (rd_children ctx)"
    and "n + length (listing get (rd_cookie ctx) (drop (rd_it ctx) (rd_children ctx))) < kReadDirEntriesPerResponse"
    and "unat b + listing_bytes dsz (listing get (rd_cookie ctx) (drop (rd_it ctx) (rd_children ctx)))
      \<le> unat bufSize"
  shows "\<exists>cookie. fill_response get dsz True bufSize ctx b n acc =
    Some (ctx\<lparr>rd_it := length (rd_children ctx), rd_cookie := cookie\<rparr>,
      acc @ listing get (rd_cookie ctx) (drop (rd_it ctx) (rd_children ctx)))"
  using assms
proof (induction "length (rd_children ctx) - rd_it ctx" arbitrary: ctx b n acc)
  case 0
  then have "rd_it ctx = length (rd_children ctx)" by simp
  then show ?case
    by (subst fill_response.simps) (auto intro!: exI [of _ "rd_cookie ctx"])
next
  case (Suc m)
  let ?ch = "rd_children ctx" and ?it = "rd_it ctx"
  obtain name ino where c: "?ch ! ?it = (name, ino)" by (cases "?ch ! ?it")
  have lt: "?it < length ?ch" using Suc.hyps by simp
  then have d: "drop ?it ?ch = (name, ino) # drop (Suc ?it) ?ch"
    using c by (metis Cons_nth_drop_Suc)
  have guard: "n < kReadDirEntriesPerResponse" using Suc.prems by simp
  show ?case
  proof (cases "get ino = None \<or> (\<exists>child. get ino = Some child \<and> HasNoLinks child)")
    case True
    let ?c = "ctx\<lparr>rd_it := Suc ?it\<rparr>"
    have skip: "fill_response get dsz True bufSize ctx b n acc = fill_response get dsz True bufSize ?c b n acc"
      by (rule fill_response_skip [where get = get, OF lt c True guard])
    have "\<exists>cookie. fill_response get dsz True bufSize ?c b n acc =
        Some (?c\<lparr>rd_it := length (rd_children ?c), rd_cookie := cookie\<rparr>,
          acc @ listing get (rd_cookie ?c) (drop (rd_it ?c) (rd_children ?c)))"
      using Suc.hyps(2) Suc.prems True d lt by (intro Suc.hyps(1)) auto
    with skip True d show ?thesis by auto
  next
    case False
    then obtain child where ch: "get ino = Some child" "\<not> HasNoLinks child" by auto
    let ?k = "rd_cookie ctx + 1"
    let ?c = "ctx\<lparr>rd_it := Suc ?it, rd_cookie := ?k\<rparr>"
    let ?e = "\<lparr>d_name = name, d_stat = (GetAttr child)\<lparr>st_ino := ino\<rparr>, d_off = ?k\<rparr>"
    have room: "unat b + unat (dsz name) \<le> unat bufSize"
      using Suc.prems ch d by (simp add: listing_bytes_def)
    have b': "unat (b + dsz name) = unat b + unat (dsz name)"
      by (intro unat_add_64 le_less_trans [OF room]) simp
    have add: "fill_response get dsz True bufSize ctx b n acc =
        fill_response get dsz True bufSize ?c (b + dsz name) (Suc n) (acc @ [?e])"
      by (rule fill_response_add [where get = get, OF lt c ch guard]) (use room b' in \<open>simp add: word_le_nat_alt\<close>)
    have "\<exists>cookie. fill_response get dsz True bufSize ?c (b + dsz name) (Suc n) (acc @ [?e]) =
        Some (?c\<lparr>rd_it := length (rd_children ?c), rd_cookie := cookie\<rparr>,
          (acc @ [?e]) @ listing get (rd_cookie ?c) (drop (rd_it ?c) (rd_children ?c)))"
      using Suc.hyps(2) Suc.prems ch d lt b'
      by (intro Suc.hyps(1)) (auto simp: listing_bytes_def)
    with add ch d show ?thesis by auto
  qed
qed

end
