(* ===== verification/Checkpoint.thy ===== *)
theory Checkpoint
  imports Handlers
begin

text \<open>
  The pool of saved states (\<^verbatim>\<open>cr_util.hpp\<close>, \<^verbatim>\<open>cr_util.cpp\<close>) and the checkpoint and restore
  calls of \<^verbatim>\<open>FuseRamFs\<close>. The pool is an unordered map; its association list fixes one order.
  Objects are copied by the copy constructors of their classes: file buffers and children are
  duplicated, extended attribute pointers are shared.
\<close>

section \<open>The state pool\<close>

type_synonym pool = "(u64 \<times> verifs2_state) list"

definition insert_state :: "u64 \<Rightarrow> verifs2_state \<Rightarrow> pool \<Rightarrow> int \<times> pool" where
  "insert_state key st pool =
     (case map_of pool key of
        Some _ \<Rightarrow> (- EEXIST, pool)
      | None \<Rightarrow> (0, pool @ [(key, st)]))"

definition find_state :: "u64 \<Rightarrow> pool \<Rightarrow> verifs2_state" where
  "find_state key pool =
     (case map_of pool key of
        None \<Rightarrow> ([], [], zero_statvfs)
      | Some st \<Rightarrow> st)"

definition remove_state :: "u64 \<Rightarrow> pool \<Rightarrow> int \<times> pool" where
  "remove_state key pool =
     (case map_of pool key of
        None \<Rightarrow> (- ENOENT, pool)
      | Some _ \<Rightarrow> (0, filter (\<lambda>e. fst e \<noteq> key) pool))"

definition get_state_pool :: "fs \<Rightarrow> pool" where
  "get_state_pool s = state_pool s"

definition clear_states :: "fs \<Rightarrow> fs" where
  "clear_states s = s\<lparr>state_pool := []\<rparr>"

section \<open>Copying the table\<close>

text \<open>
  One object is copied according to its mode: \<open>Inl\<close> is the error of a failed cast, \<open>None\<close> the
  end of the process, in the \<^verbatim>\<open>File\<close> copy constructor or by the exception of a failed \<^verbatim>\<open>new\<close>.
\<close>

definition copy_inode :: "env \<Rightarrow> Inode \<Rightarrow> (int + Inode) option" where
  "copy_inode e i =
     (let m = GetMode i;
          copy = (if S_ISREG m then (if is_File i then Some (File_copy e i) else None)
                  else if S_ISDIR m then map_option Some (Directory_copy i)
                  else if S_ISLNK m then map_option Some (SymLink_copy i)
                  else map_option Some (SpecialInode_copy i))
      in case copy of
           None \<Rightarrow> Some (Inl (- EBADF))
         | Some c \<Rightarrow> if env_new e then map_option Inr c else None)"

fun copy_inodes :: "env \<Rightarrow> Inode option list \<Rightarrow> (int + Inode option list) option" where
  "copy_inodes e [] = Some (Inr [])"
| "copy_inodes e (None # rest) =
     map_option (map_sum id (\<lambda>cs. None # cs)) (copy_inodes e rest)"
| "copy_inodes e (Some i # rest) =
     (case copy_inode e i of
        None \<Rightarrow> None
      | Some (Inl err) \<Rightarrow> Some (Inl err)
      | Some (Inr c) \<Rightarrow> map_option (map_sum id (\<lambda>cs. Some c # cs)) (copy_inodes e rest))"

section \<open>Checkpoint and restore\<close>

definition checkpoint :: "env \<Rightarrow> u64 \<Rightarrow> fs \<Rightarrow> (int \<times> fs) option" where
  "checkpoint e key s = do {
     copied \<leftarrow> copy_inodes e (Inodes s);
     case copied of
       Inl err \<Rightarrow> Some (err, s)
     | Inr files \<Rightarrow>
         let (ret, pool) = insert_state key (files, DeletedInodes s, m_stbuf s) (state_pool s)
         in if ret \<noteq> 0 then Some (ret, s) else Some (0, s\<lparr>state_pool := pool\<rparr>)
   }"

text \<open>The cache invalidations sent to the kernel.\<close>

datatype notify = InvalInode ino_t | InvalEntry ino_t string

definition invalidate_inode :: "Inode \<Rightarrow> notify list option" where
  "invalidate_inode i =
     (let n1 = (if \<not> m_markedForDeletion i then [InvalInode (GetIno i)] else []) in
      if S_ISDIR (GetMode i) then
        (case m_obj i of
           Directory ch \<Rightarrow>
             Some (n1 @ map (\<lambda>c. InvalEntry (GetIno i) (fst c))
               (filter (\<lambda>c. snd c > 0 \<and> fst c \<noteq> ''.'' \<and> fst c \<noteq> ''..'') ch))
         | _ \<Rightarrow> None)
      else Some n1)"

fun invalidate_kernel_states :: "Inode option list \<Rightarrow> notify list option" where
  "invalidate_kernel_states [] = Some []"
| "invalidate_kernel_states (None # rest) = invalidate_kernel_states rest"
| "invalidate_kernel_states (Some i # rest) = do {
     n1 \<leftarrow> invalidate_inode i;
     n2 \<leftarrow> invalidate_kernel_states rest;
     Some (n1 @ n2)
   }"

definition restore :: "env \<Rightarrow> u64 \<Rightarrow> fs \<Rightarrow> (int \<times> notify list \<times> fs) option" where
  "restore e key s =
     (let (stored_files, stored_DeletedInodes, stored_m_stbuf) = find_state key (state_pool s) in
      if stored_files = [] \<and> stored_DeletedInodes = [] then Some (- ENOENT, [], s)
      else do {
        notes \<leftarrow> invalidate_kernel_states (Inodes s);
        copied \<leftarrow> copy_inodes e stored_files;
        case copied of
          Inl err \<Rightarrow> Some (err, notes, s)
        | Inr newfiles \<Rightarrow>
            Some (0, notes,
              s\<lparr>Inodes := newfiles, DeletedInodes := stored_DeletedInodes,
                m_stbuf := stored_m_stbuf,
                state_pool := snd (remove_state key (state_pool s))\<rparr>)
      })"

section \<open>Copies are exact\<close>

definition copyable :: "env \<Rightarrow> Inode \<Rightarrow> bool" where
  "copyable e i \<longleftrightarrow> inode_ok i \<and> env_new e \<and> (is_File i \<longrightarrow> env_alloc e (st_blocks (i_attr i) * BufBlockSize))"

lemma copy_inode_exact: "copyable e i \<Longrightarrow> copy_inode e i = Some (Inr i)"
  by (cases "m_obj i")
    (auto simp: copyable_def inode_ok_def mode_matches_def copy_inode_def is_File_def file_copy_ok
      Directory_copy_def SymLink_copy_def SpecialInode_copy_def Let_def)

lemma copy_inodes_exact:
  "\<forall>i. Some i \<in> set tab \<longrightarrow> copyable e i \<Longrightarrow> copy_inodes e tab = Some (Inr tab)"
  by (induction e tab rule: copy_inodes.induct) (auto simp: copy_inode_exact)

section \<open>Interface: a pool of states by key\<close>

locale keyed_store =
  fixes find :: "'k \<Rightarrow> 'p \<Rightarrow> 'v option" and ins :: "'k \<Rightarrow> 'v \<Rightarrow> 'p \<Rightarrow> int \<times> 'p"
    and rem :: "'k \<Rightarrow> 'p \<Rightarrow> int \<times> 'p"
  assumes ins_new: "find k p = None \<Longrightarrow> fst (ins k v p) = 0 \<and>
      (\<forall>j. find j (snd (ins k v p)) = (if j = k then Some v else find j p))"
    and ins_old: "find k p \<noteq> None \<Longrightarrow> ins k v p = (- EEXIST, p)"
    and rem_old: "find k p \<noteq> None \<Longrightarrow> fst (rem k p) = 0 \<and>
      (\<forall>j. find j (snd (rem k p)) = (if j = k then None else find j p))"
    and rem_new: "find k p = None \<Longrightarrow> rem k p = (- ENOENT, p)"
begin

lemma ins_then_find: "find k p = None \<Longrightarrow> find k (snd (ins k v p)) = Some v"
  using ins_new by simp

lemma ins_other: "j \<noteq> k \<Longrightarrow> find j (snd (ins k v p)) = find j p"
  using ins_new ins_old by (cases "find k p") auto

lemma rem_other: "j \<noteq> k \<Longrightarrow> find j (snd (rem k p)) = find j p"
  using rem_new rem_old by (cases "find k p") auto

lemma rem_then_find: "find k (snd (rem k p)) = None"
  using rem_new rem_old by (cases "find k p") auto

lemma ins_then_rem:
  "find k p = None \<Longrightarrow> find j (snd (rem k (snd (ins k v p)))) = find j p"
  using rem_other [of j k] ins_other [of j k] rem_then_find [of k] by (cases "j = k") simp_all

end

interpretation pool: keyed_store "\<lambda>k (p :: pool). map_of p k" insert_state remove_state
proof
  fix k and p :: pool and v
  show "map_of p k = None \<Longrightarrow> fst (insert_state k v p) = 0 \<and>
      (\<forall>j. map_of (snd (insert_state k v p)) j = (if j = k then Some v else map_of p j))"
    using map_of_eq_None_iff [of p k] by (simp add: insert_state_def map_of_snoc del: map_of_append)
  show "map_of p k \<noteq> None \<Longrightarrow> insert_state k v p = (- EEXIST, p)"
    by (auto simp: insert_state_def)
  show "map_of p k \<noteq> None \<Longrightarrow> fst (remove_state k p) = 0 \<and>
      (\<forall>j. map_of (snd (remove_state k p)) j = (if j = k then None else map_of p j))"
    by (auto simp: remove_state_def map_of_filter_fst)
  show "map_of p k = None \<Longrightarrow> remove_state k p = (- ENOENT, p)"
    by (simp add: remove_state_def)
qed

section \<open>Checkpoint, then restore\<close>

lemma checkpoint_new:
  assumes "\<forall>i. Some i \<in> set (Inodes s) \<longrightarrow> copyable e i" and "map_of (state_pool s) key = None"
  shows "checkpoint e key s =
    Some (0, s\<lparr>state_pool := state_pool s @ [(key, Inodes s, DeletedInodes s, m_stbuf s)]\<rparr>)"
  using assms by (simp add: checkpoint_def copy_inodes_exact insert_state_def)

lemma checkpoint_existing:
  assumes "\<forall>i. Some i \<in> set (Inodes s) \<longrightarrow> copyable e i" and "map_of (state_pool s) key \<noteq> None"
  shows "checkpoint e key s = Some (- EEXIST, s)"
  using assms by (auto simp: checkpoint_def copy_inodes_exact insert_state_def)

lemma restore_missing:
  "map_of (state_pool s) key = None \<Longrightarrow> restore e key s = Some (- ENOENT, [], s)"
  by (simp add: restore_def find_state_def)

lemma invalidate_total:
  assumes "\<forall>i. Some i \<in> set tab \<longrightarrow> mode_matches i"
  shows "\<exists>ns. invalidate_kernel_states tab = Some ns"
  using assms
proof (induction tab rule: invalidate_kernel_states.induct)
  case (3 i rest)
  have "\<exists>n. invalidate_inode i = Some n"
    using "3.prems" by (cases "m_obj i") (auto simp: invalidate_inode_def mode_matches_def Let_def)
  then obtain n where n: "invalidate_inode i = Some n" ..
  with 3 obtain ns where "invalidate_kernel_states rest = Some ns" by auto
  with n show ?case by simp
qed auto

lemma restore_saved:
  assumes saved: "map_of (state_pool s) key = Some (tab, dels, sb)" and ne: "tab \<noteq> [] \<or> dels \<noteq> []"
    and cp: "\<forall>i. Some i \<in> set tab \<longrightarrow> copyable e i"
    and cur: "\<forall>i. Some i \<in> set (Inodes s) \<longrightarrow> mode_matches i"
  obtains ns where "restore e key s =
    Some (0, ns, s\<lparr>Inodes := tab, DeletedInodes := dels, m_stbuf := sb,
      state_pool := filter (\<lambda>x. fst x \<noteq> key) (state_pool s)\<rparr>)"
proof -
  obtain ns where "invalidate_kernel_states (Inodes s) = Some ns"
    using invalidate_total [OF cur] ..
  then have "restore e key s =
    Some (0, ns, s\<lparr>Inodes := tab, DeletedInodes := dels, m_stbuf := sb,
      state_pool := filter (\<lambda>x. fst x \<noteq> key) (state_pool s)\<rparr>)"
    using saved ne cp by (auto simp: restore_def find_state_def remove_state_def copy_inodes_exact)
  then show ?thesis by (rule that)
qed

end
