(* ===== verification/Pickle.thy ===== *)
theory Pickle
  imports Checkpoint
begin

text \<open>
  Saving the file system to a state file and loading it back: the \<^verbatim>\<open>Pickle\<close> and \<^verbatim>\<open>Load\<close> methods
  of the inode classes and \<^verbatim>\<open>pickle.cpp\<close>.

  The layout is that of the structures on little-endian x86-64 Linux; padding bytes are written
  as the zeros the structures were initialised with and are ignored on loading. What the code
  takes from outside is a record \<open>os\<close>: the results of the system calls, SHA-256 (OpenSSL's
  incremental interface hashes the concatenation of the data it is fed; the branch for OpenSSL
  before version 3) and the iteration order of \<^verbatim>\<open>std::unordered_map\<close>. Files are byte lists by
  path.
\<close>

section \<open>Byte encodings\<close>

fun le_bytes :: "nat \<Rightarrow> nat \<Rightarrow> byte list" where
  "le_bytes 0 x = []"
| "le_bytes (Suc n) x = of_nat x # le_bytes n (x div 256)"

fun le_nat :: "byte list \<Rightarrow> nat" where
  "le_nat [] = 0"
| "le_nat (b # bs) = unat b + 256 * le_nat bs"

definition enc_u64 :: "u64 \<Rightarrow> byte list" where "enc_u64 x = le_bytes 8 (unat x)"
definition enc_u32 :: "u32 \<Rightarrow> byte list" where "enc_u32 x = le_bytes 4 (unat x)"

text \<open>\<^verbatim>\<open>memcpy(&x, ptr, n); ptr += n\<close>: the bytes read and the rest; reading past the end is undefined.\<close>

definition get_bytes :: "nat \<Rightarrow> byte list \<Rightarrow> (byte list \<times> byte list) option" where
  "get_bytes n buf = (if n \<le> length buf then Some (take n buf, drop n buf) else None)"

definition get_u64 :: "byte list \<Rightarrow> (u64 \<times> byte list) option" where
  "get_u64 buf = do { (b, rest) \<leftarrow> get_bytes 8 buf; Some (of_nat (le_nat b), rest) }"

definition get_u32 :: "byte list \<Rightarrow> (u32 \<times> byte list) option" where
  "get_u32 buf = do { (b, rest) \<leftarrow> get_bytes 4 buf; Some (of_nat (le_nat b), rest) }"

definition string_of_bytes :: "byte list \<Rightarrow> string" where
  "string_of_bytes bs = map (\<lambda>b. char_of (unat b)) bs"

section \<open>Structures\<close>

definition enc_timespec :: "timespec \<Rightarrow> byte list" where
  "enc_timespec t = enc_u64 (tv_sec t) @ enc_u64 (tv_nsec t)"

definition enc_stat :: "stat \<Rightarrow> byte list" where
  "enc_stat a = enc_u64 (st_dev a) @ enc_u64 (st_ino a) @ enc_u64 (st_nlink a) @ enc_u32 (st_mode a)
     @ enc_u32 (st_uid a) @ enc_u32 (st_gid a) @ replicate 4 0 @ enc_u64 (st_rdev a)
     @ enc_u64 (st_size a) @ enc_u64 (st_blksize a) @ enc_u64 (st_blocks a)
     @ enc_timespec (st_atim a) @ enc_timespec (st_mtim a) @ enc_timespec (st_ctim a)
     @ replicate 24 0"

definition enc_entry_param :: "fuse_entry_param \<Rightarrow> byte list" where
  "enc_entry_param p = enc_u64 (e_ino p) @ enc_u64 (e_generation p) @ enc_stat (e_attr p)
     @ enc_u64 (e_attr_timeout p) @ enc_u64 (e_entry_timeout p)"

definition enc_statvfs :: "statvfs \<Rightarrow> byte list" where
  "enc_statvfs v = enc_u64 (f_bsize v) @ enc_u64 (f_frsize v) @ enc_u64 (f_blocks v)
     @ enc_u64 (f_bfree v) @ enc_u64 (f_bavail v) @ enc_u64 (f_files v) @ enc_u64 (f_ffree v)
     @ enc_u64 (f_favail v) @ enc_u64 (f_fsid v) @ enc_u64 (f_flag v) @ enc_u64 (f_namemax v)
     @ replicate 24 0"

text \<open>\<^verbatim>\<open>struct inode_state { bool exist; mode_t mode; }\<close>\<close>

definition enc_inode_state :: "bool \<Rightarrow> mode_t \<Rightarrow> byte list" where
  "enc_inode_state exist mode = (if exist then 1 else 0) # replicate 3 0 @ enc_u32 mode"

definition get_timespec :: "byte list \<Rightarrow> (timespec \<times> byte list) option" where
  "get_timespec b = do {
     (s, b) \<leftarrow> get_u64 b; (n, b) \<leftarrow> get_u64 b; Some (\<lparr>tv_sec = s, tv_nsec = n\<rparr>, b)
   }"

definition get_stat :: "byte list \<Rightarrow> (stat \<times> byte list) option" where
  "get_stat b = do {
     (dev, b) \<leftarrow> get_u64 b; (ino, b) \<leftarrow> get_u64 b; (nlink, b) \<leftarrow> get_u64 b; (mode, b) \<leftarrow> get_u32 b;
     (uid, b) \<leftarrow> get_u32 b; (gid, b) \<leftarrow> get_u32 b; (_, b) \<leftarrow> get_bytes 4 b; (rdev, b) \<leftarrow> get_u64 b;
     (sz, b) \<leftarrow> get_u64 b; (blksize, b) \<leftarrow> get_u64 b; (blocks, b) \<leftarrow> get_u64 b;
     (at, b) \<leftarrow> get_timespec b; (mt, b) \<leftarrow> get_timespec b; (ct, b) \<leftarrow> get_timespec b;
     (_, b) \<leftarrow> get_bytes 24 b;
     Some (\<lparr>st_dev = dev, st_ino = ino, st_nlink = nlink, st_mode = mode, st_uid = uid, st_gid = gid,
       st_rdev = rdev, st_size = sz, st_blksize = blksize, st_blocks = blocks,
       st_atim = at, st_mtim = mt, st_ctim = ct\<rparr>, b)
   }"

definition get_entry_param :: "byte list \<Rightarrow> (fuse_entry_param \<times> byte list) option" where
  "get_entry_param b = do {
     (ino, b) \<leftarrow> get_u64 b; (gen, b) \<leftarrow> get_u64 b; (a, b) \<leftarrow> get_stat b;
     (at, b) \<leftarrow> get_u64 b; (et, b) \<leftarrow> get_u64 b;
     Some (\<lparr>e_ino = ino, e_generation = gen, e_attr = a, e_attr_timeout = at, e_entry_timeout = et\<rparr>, b)
   }"

definition get_statvfs :: "byte list \<Rightarrow> (statvfs \<times> byte list) option" where
  "get_statvfs b = do {
     (bs, b) \<leftarrow> get_u64 b; (fr, b) \<leftarrow> get_u64 b; (bl, b) \<leftarrow> get_u64 b; (bf, b) \<leftarrow> get_u64 b;
     (ba, b) \<leftarrow> get_u64 b; (fi, b) \<leftarrow> get_u64 b; (ff, b) \<leftarrow> get_u64 b; (fa, b) \<leftarrow> get_u64 b;
     (id, b) \<leftarrow> get_u64 b; (fl, b) \<leftarrow> get_u64 b; (nm, b) \<leftarrow> get_u64 b; (_, b) \<leftarrow> get_bytes 24 b;
     Some (\<lparr>f_bsize = bs, f_frsize = fr, f_blocks = bl, f_bfree = bf, f_bavail = ba, f_files = fi,
       f_ffree = ff, f_favail = fa, f_fsid = id, f_flag = fl, f_namemax = nm\<rparr>, b)
   }"

definition get_inode_state :: "byte list \<Rightarrow> ((bool \<times> mode_t) \<times> byte list) option" where
  "get_inode_state b = do {
     (ex, b) \<leftarrow> get_bytes 1 b; (_, b) \<leftarrow> get_bytes 3 b; (mode, b) \<leftarrow> get_u32 b;
     Some ((hd ex \<noteq> 0, mode), b)
   }"

section \<open>Interface: a self-delimiting encoding\<close>

locale codec =
  fixes enc :: "'a \<Rightarrow> byte list" and get :: "byte list \<Rightarrow> ('a \<times> byte list) option"
  assumes get_enc [simp]: "get (enc x @ rest) = Some (x, rest)"
begin

lemma enc_prefix_free: "enc x @ r = enc y @ r' \<Longrightarrow> x = y \<and> r = r'"
  by (metis get_enc option.inject prod.inject)

lemma enc_inj: "enc x = enc y \<Longrightarrow> x = y"
  by (metis append_Nil2 enc_prefix_free)

lemma get_enc_only: "get (enc x) = Some (x, [])"
  using get_enc [of x "[]"] by simp

end

lemma length_le_bytes [simp]: "length (le_bytes n x) = n"
  by (induction n x rule: le_bytes.induct) auto

lemma le_nat_le_bytes: "le_nat (le_bytes n x) = x mod 256 ^ n"
proof (induction n x rule: le_bytes.induct)
  case (2 n x)
  have "unat (of_nat x :: byte) = x mod 256" by (simp add: unat_of_nat take_bit_eq_mod)
  moreover have "x mod 256 ^ Suc n = x mod 256 + 256 * (x div 256 mod 256 ^ n)"
    by (simp add: mod_mult2_eq)
  ultimately show ?case using 2 by simp
qed simp

lemma get_bytes_append [simp]: "length b = n \<Longrightarrow> get_bytes n (b @ rest) = Some (b, rest)"
  by (simp add: get_bytes_def)

interpretation u64: codec enc_u64 get_u64
proof
  fix x :: u64 and rest
  have "unat x < 256 ^ 8" using unat_less_64 [of x] by simp
  then show "get_u64 (enc_u64 x @ rest) = Some (x, rest)"
    by (simp add: get_u64_def enc_u64_def le_nat_le_bytes)
qed

interpretation u32: codec enc_u32 get_u32
proof
  fix x :: u32 and rest
  have "unat x < 2 ^ 32" using unsigned_less [where w = x, where ?'a = nat] by simp
  then have "unat x < 256 ^ 4" by simp
  then show "get_u32 (enc_u32 x @ rest) = Some (x, rest)"
    by (simp add: get_u32_def enc_u32_def le_nat_le_bytes)
qed

interpretation timespec: codec enc_timespec get_timespec
  by unfold_locales (simp add: enc_timespec_def get_timespec_def)

interpretation stat: codec enc_stat get_stat
  by unfold_locales (simp add: enc_stat_def get_stat_def)

interpretation entry_param: codec enc_entry_param get_entry_param
  by unfold_locales (simp add: enc_entry_param_def get_entry_param_def)

interpretation statvfs: codec enc_statvfs get_statvfs
  by unfold_locales (simp add: enc_statvfs_def get_statvfs_def)

interpretation inode_state: codec "\<lambda>(ex, mode). enc_inode_state ex mode" get_inode_state
  by unfold_locales
    (auto simp: enc_inode_state_def get_inode_state_def get_bytes_def numeral_3_eq_3)

lemma enc_lengths [simp]:
  "length (enc_u64 x) = 8" "length (enc_u32 y) = 4" "length (enc_timespec t) = 16"
  "length (enc_stat a) = 144" "length (enc_entry_param p) = 176" "length (enc_statvfs v) = 112"
  "length (enc_inode_state ex m) = 8"
  by (simp_all add: enc_u64_def enc_u32_def enc_timespec_def enc_stat_def enc_entry_param_def
      enc_statvfs_def enc_inode_state_def)

section \<open>Pickling one object\<close>

type_synonym xattrs = "(string \<times> (ptr \<times> size_t)) list"

text \<open>\<^verbatim>\<open>memcpy(ptr, valdata, valsize)\<close>: the bytes of an extended attribute value.\<close>

definition xattr_value :: "heap \<Rightarrow> ptr \<times> size_t \<Rightarrow> byte list option" where
  "xattr_value h = (\<lambda>(p, sz).
     if sz = 0 then Some [] else do { b \<leftarrow> h_mem h p; mem_read 0 (unat sz) b })"

primrec pickle_xattrs :: "heap \<Rightarrow> xattrs \<Rightarrow> byte list option" where
  "pickle_xattrs h [] = Some []"
| "pickle_xattrs h (x # r) = do {
     val \<leftarrow> xattr_value h (snd x);
     rest \<leftarrow> pickle_xattrs h r;
     Some (enc_u64 (of_nat (length (fst x))) @ bytes_of_string (fst x) @ enc_u64 (snd (snd x)) @ val @ rest)
   }"

definition Inode_GetPickledSize :: "Inode \<Rightarrow> size_t" where
  "Inode_GetPickledSize i =
     foldl (\<lambda>res x. res + 8 + of_nat (length (fst x)) + 8 + snd (snd x)) (1 + 8 + 176 + 8) (m_xattr i)"

definition Inode_Pickle :: "heap \<Rightarrow> Inode \<Rightarrow> byte list option" where
  "Inode_Pickle h i = do {
     xs \<leftarrow> pickle_xattrs h (m_xattr i);
     Some ((if m_markedForDeletion i then 1 else 0) # enc_u64 (m_nlookup i)
       @ enc_entry_param (m_fuseEntryParam i) @ enc_u64 (of_nat (length (m_xattr i))) @ xs)
   }"

definition File_GetPickledSize :: "Inode \<Rightarrow> size_t" where
  "File_GetPickledSize i = Inode_GetPickledSize i + st_size (i_attr i)"

definition File_Pickle :: "heap \<Rightarrow> byte list \<Rightarrow> Inode \<Rightarrow> byte list option" where
  "File_Pickle h m_buf i = do {
     b \<leftarrow> Inode_Pickle h i;
     d \<leftarrow> mem_read 0 (unat (st_size (i_attr i))) m_buf;
     Some (b @ d)
   }"

definition Directory_GetPickledSize :: "Inode \<Rightarrow> size_t" where
  "Directory_GetPickledSize i =
     foldl (\<lambda>res c. res + 8 + 8 + of_nat (length (fst c))) (Inode_GetPickledSize i + 8) (m_children i)"

primrec pickle_children :: "children \<Rightarrow> byte list" where
  "pickle_children [] = []"
| "pickle_children (c # cs) =
     enc_u64 (snd c) @ enc_u64 (of_nat (length (fst c))) @ bytes_of_string (fst c) @ pickle_children cs"

definition Directory_Pickle :: "heap \<Rightarrow> Inode \<Rightarrow> byte list option" where
  "Directory_Pickle h i = do {
     b \<leftarrow> Inode_Pickle h i;
     Some (b @ enc_u64 (of_nat (length (m_children i))) @ pickle_children (m_children i))
   }"

definition SymLink_GetPickledSize :: "Inode \<Rightarrow> size_t" where
  "SymLink_GetPickledSize i = Inode_GetPickledSize i + of_nat (length (m_link i))"

definition SymLink_Pickle :: "heap \<Rightarrow> Inode \<Rightarrow> byte list option" where
  "SymLink_Pickle h i = do { b \<leftarrow> Inode_Pickle h i; Some (b @ bytes_of_string (m_link i)) }"

text \<open>The values of the enumeration.\<close>

fun type_code :: "SpecialInodeTypes \<Rightarrow> u32" where
  "type_code SPECIAL_INODE_TYPE_NO_BLOCK = 0"
| "type_code SPECIAL_INODE_CHAR_DEV = 1"
| "type_code SPECIAL_INODE_BLOCK_DEV = 2"
| "type_code SPECIAL_INODE_FIFO = 3"
| "type_code SPECIAL_INODE_SOCK = 4"

definition type_of_code :: "u32 \<Rightarrow> SpecialInodeTypes option" where
  "type_of_code c =
     (if c = 0 then Some SPECIAL_INODE_TYPE_NO_BLOCK
      else if c = 1 then Some SPECIAL_INODE_CHAR_DEV
      else if c = 2 then Some SPECIAL_INODE_BLOCK_DEV
      else if c = 3 then Some SPECIAL_INODE_FIFO
      else if c = 4 then Some SPECIAL_INODE_SOCK else None)"

definition SpecialInode_GetPickledSize :: "Inode \<Rightarrow> size_t" where
  "SpecialInode_GetPickledSize i = Inode_GetPickledSize i + 4"

definition SpecialInode_Pickle :: "heap \<Rightarrow> SpecialInodeTypes \<Rightarrow> Inode \<Rightarrow> byte list option" where
  "SpecialInode_Pickle h m_type i = do { b \<leftarrow> Inode_Pickle h i; Some (b @ enc_u32 (type_code m_type)) }"

text \<open>The virtual methods.\<close>

definition GetPickledSize :: "Inode \<Rightarrow> size_t" where
  "GetPickledSize i =
     (case m_obj i of
        File _ \<Rightarrow> File_GetPickledSize i
      | Directory _ \<Rightarrow> Directory_GetPickledSize i
      | SymLink _ \<Rightarrow> SymLink_GetPickledSize i
      | SpecialInode _ \<Rightarrow> SpecialInode_GetPickledSize i)"

definition PickleObj :: "heap \<Rightarrow> Inode \<Rightarrow> byte list option" where
  "PickleObj h i =
     (case m_obj i of
        File buf \<Rightarrow> File_Pickle h buf i
      | Directory _ \<Rightarrow> Directory_Pickle h i
      | SymLink _ \<Rightarrow> SymLink_Pickle h i
      | SpecialInode t \<Rightarrow> SpecialInode_Pickle h t i)"

section \<open>Loading one object\<close>

text \<open>
  \<^verbatim>\<open>m_xattr.insert({key, value})\<close> keeps an existing binding. A value is allocated and filled with
  \<^verbatim>\<open>valsize\<close> bytes; \<open>None\<close> for the rest of the data is the jump to the error label.
\<close>

fun load_xattrs ::
    "env \<Rightarrow> nat \<Rightarrow> byte list \<Rightarrow> heap \<times> xattrs \<Rightarrow> (byte list option \<times> heap \<times> xattrs) option" where
  "load_xattrs e 0 buf (h, x) = Some (Some buf, h, x)"
| "load_xattrs e (Suc n) buf (h, x) = do {
     (keysize, b1) \<leftarrow> get_u64 buf;
     (key, b2) \<leftarrow> get_bytes (unat keysize) b1;
     (valsize, b3) \<leftarrow> get_u64 b2;
     (p, h1) \<leftarrow> heap_realloc e nullptr valsize h;
     if p = nullptr then Some (None, h1, x)
     else do {
       (val, b4) \<leftarrow> get_bytes (unat valsize) b3;
       let h2 = h1\<lparr>h_mem := (h_mem h1)(p \<mapsto> val)\<rparr>;
       let name = string_of_bytes key;
       load_xattrs e n b4
         (h2, case map_of x name of None \<Rightarrow> map_put name (p, valsize) x | Some _ \<Rightarrow> x)
     }
   }"

text \<open>\<^verbatim>\<open>ClearXAttrs\<close>: every value is freed.\<close>

definition heap_free :: "ptr \<Rightarrow> heap \<Rightarrow> heap" where
  "heap_free p h = h\<lparr>h_mem := (h_mem h)(p := None)\<rparr>"

definition ClearXAttrs :: "heap \<times> Inode \<Rightarrow> heap \<times> Inode" where
  "ClearXAttrs = (\<lambda>(h, i).
     (foldl (\<lambda>h x. heap_free (fst (snd x)) h) h (m_xattr i), i\<lparr>m_xattr := []\<rparr>))"

text \<open>The result is the number of bytes used, 0 after an allocation failure.\<close>

definition Inode_Load :: "env \<Rightarrow> byte list \<Rightarrow> heap \<times> Inode \<Rightarrow> (size_t \<times> heap \<times> Inode) option" where
  "Inode_Load e buf = (\<lambda>(h, i). do {
     (marked, b1) \<leftarrow> get_bytes 1 buf;
     (nlookup, b2) \<leftarrow> get_u64 b1;
     (param, b3) \<leftarrow> get_entry_param b2;
     (n_xattrs, b4) \<leftarrow> get_u64 b3;
     (rest, h', x) \<leftarrow> load_xattrs e (unat n_xattrs) b4 (h, []);
     let i' = i\<lparr>m_markedForDeletion := hd marked \<noteq> 0, m_nlookup := nlookup, m_fuseEntryParam := param,
               m_xattr := x\<rparr>;
     case rest of
       Some r \<Rightarrow> Some (of_nat (length buf - length r), h', i')
     | None \<Rightarrow> let (h'', i'') = ClearXAttrs (h', i') in Some (0, h'', i'')
   })"

text \<open>The subclasses continue at \<^verbatim>\<open>buf + offset\<close>, also when \<^verbatim>\<open>Inode::Load\<close> returned 0.\<close>

definition File_Load :: "env \<Rightarrow> byte list \<Rightarrow> heap \<times> Inode \<Rightarrow> (size_t \<times> heap \<times> Inode) option" where
  "File_Load e buf hi = do {
     (offset, h, i) \<leftarrow> Inode_Load e buf hi;
     let fsize = st_size (i_attr i);
     let fcap = st_blksize (i_attr i) * st_blocks (i_attr i);
     if \<not> env_alloc e fcap then (let (h', i') = ClearXAttrs (h, i) in Some (0, h', i'))
     else do {
       (d, _) \<leftarrow> get_bytes (unat fsize) (drop (unat offset) buf);
       m_buf \<leftarrow> memcpy_at 0 d (replicate (unat fcap) 0);
       Some (offset + fsize, h, i\<lparr>m_obj := File m_buf\<rparr>)
     }
   }"

primrec load_children :: "nat \<Rightarrow> byte list \<Rightarrow> (children \<times> byte list) option" where
  "load_children 0 buf = Some ([], buf)"
| "load_children (Suc n) buf = do {
     (ino, b1) \<leftarrow> get_u64 buf;
     (namelen, b2) \<leftarrow> get_u64 b1;
     (name, b3) \<leftarrow> get_bytes (unat namelen) b2;
     (cs, b4) \<leftarrow> load_children n b3;
     Some ((string_of_bytes name, ino) # cs, b4)
   }"

definition Directory_Load :: "env \<Rightarrow> byte list \<Rightarrow> heap \<times> Inode \<Rightarrow> (size_t \<times> heap \<times> Inode) option" where
  "Directory_Load e buf hi = do {
     (offset, h, i) \<leftarrow> Inode_Load e buf hi;
     (nchildren, b1) \<leftarrow> get_u64 (drop (unat offset) buf);
     (cs, b2) \<leftarrow> load_children (unat nchildren) b1;
     Some (of_nat (length buf - length b2), h, set_children cs i)
   }"

definition SymLink_Load :: "env \<Rightarrow> byte list \<Rightarrow> heap \<times> Inode \<Rightarrow> (size_t \<times> heap \<times> Inode) option" where
  "SymLink_Load e buf hi = do {
     (offset, h, i) \<leftarrow> Inode_Load e buf hi;
     let linksize = st_size (i_attr i);
     (l, _) \<leftarrow> get_bytes (unat linksize) (drop (unat offset) buf);
     Some (offset + linksize, h, i\<lparr>m_obj := SymLink (string_of_bytes l)\<rparr>)
   }"

definition SpecialInode_Load :: "env \<Rightarrow> byte list \<Rightarrow> heap \<times> Inode \<Rightarrow> (size_t \<times> heap \<times> Inode) option" where
  "SpecialInode_Load e buf hi = do {
     (offset, h, i) \<leftarrow> Inode_Load e buf hi;
     (c, _) \<leftarrow> get_u32 (drop (unat offset) buf);
     t \<leftarrow> type_of_code c;
     Some (offset + 4, h, i\<lparr>m_obj := SpecialInode t\<rparr>)
   }"

text \<open>
  The branch of \<^verbatim>\<open>load_file_system\<close> on the mode: a new object of the class, loaded. \<open>Inl\<close> is the
  thrown \<^verbatim>\<open>pickle_error\<close>; a failed \<^verbatim>\<open>new\<close> ends the process.
\<close>

definition load_object :: "env \<Rightarrow> mode_t \<Rightarrow> byte list \<Rightarrow> heap \<Rightarrow> (int + size_t \<times> heap \<times> Inode) option" where
  "load_object e mode buf h =
     (let junk = env_param e in
      if S_ISREG mode then
        (if env_new e then map_option Inr (File_Load e buf (h, new_File junk)) else None)
      else if S_ISDIR mode then
        (if env_new e then map_option Inr (Directory_Load e buf (h, new_Directory junk)) else None)
      else if S_ISLNK mode then
        (if env_new e then map_option Inr (SymLink_Load e buf (h, new_SymLink junk [])) else None)
      else if S_ISCHR mode \<or> S_ISBLK mode \<or> S_ISSOCK mode \<or> S_ISFIFO mode \<or> mode = 0 then
        (if env_new e
         then map_option Inr (SpecialInode_Load e buf (h, new_Inode junk (SpecialInode SPECIAL_INODE_TYPE_NO_BLOCK)))
         else None)
      else Some (Inl EINVAL))"

end
