(* ===== verification/Pickle_Roundtrip.thy ===== *)
theory Pickle_Roundtrip
  imports Pickle
begin

text \<open>
  Loading a pickled object gives the object back: same flags, counters, attributes, content,
  entries, link target or type, and extended attributes with the same names and values, at
  fresh addresses of the heap. The slack of a file's last block is not saved; it comes back as
  zeros.
\<close>

section \<open>Heaps\<close>

definition heap_wf :: "heap \<Rightarrow> bool" where
  "heap_wf h \<longleftrightarrow> 0 < h_next h \<and> (\<forall>p. h_mem h p \<noteq> None \<longrightarrow> 0 < p \<and> p < h_next h)"

definition extends :: "heap \<Rightarrow> heap \<Rightarrow> bool" where
  "extends h h' \<longleftrightarrow> h_next h \<le> h_next h' \<and> (\<forall>p. 0 < p \<and> p < h_next h \<longrightarrow> h_mem h' p = h_mem h p)"

lemma extends_refl [simp]: "extends h h"
  by (simp add: extends_def)

lemma extends_trans: "extends h h' \<Longrightarrow> extends h' h'' \<Longrightarrow> extends h h''"
  by (auto simp: extends_def)

text \<open>Allocating a block and filling it.\<close>

definition heap_store :: "byte list \<Rightarrow> heap \<Rightarrow> heap" where
  "heap_store val h = h\<lparr>h_mem := (h_mem h)(0 := None, h_next h \<mapsto> val), h_next := Suc (h_next h)\<rparr>"

lemma heap_store_props:
  assumes "heap_wf h"
  shows "heap_wf (heap_store val h)" "extends h (heap_store val h)"
    "h_mem (heap_store val h) (h_next h) = Some val" "h_next (heap_store val h) = Suc (h_next h)"
  using assms by (auto simp: heap_wf_def extends_def heap_store_def less_Suc_eq split: if_splits)

lemma realloc_store:
  assumes "env_alloc e n" "heap_wf h"
  shows "\<exists>h1. heap_realloc e nullptr n h = Some (h_next h, h1) \<and>
    h1\<lparr>h_mem := (h_mem h1)(h_next h \<mapsto> val)\<rparr> = heap_store val h"
  using assms by (auto simp: heap_realloc_def realloc_buf_def heap_store_def heap_wf_def)

section \<open>Views\<close>

definition xattr_view :: "heap \<Rightarrow> xattrs \<Rightarrow> (string \<times> size_t \<times> byte list option) list" where
  "xattr_view h x = map (\<lambda>y. (fst y, snd (snd y), xattr_value h (snd y))) x"

lemma xattr_view_append [simp]: "xattr_view h (x @ y) = xattr_view h x @ xattr_view h y"
  by (simp add: xattr_view_def)

definition in_heap :: "heap \<Rightarrow> xattrs \<Rightarrow> bool" where
  "in_heap h x \<longleftrightarrow> (\<forall>y \<in> set x. snd (snd y) \<noteq> 0 \<longrightarrow> 0 < fst (snd y) \<and> fst (snd y) < h_next h)"

lemma extends_in_heap: "extends h h' \<Longrightarrow> in_heap h x \<Longrightarrow> in_heap h' x"
  by (force simp: extends_def in_heap_def)

lemma extends_view:
  assumes "extends h h'" "in_heap h x" shows "xattr_view h' x = xattr_view h x"
  unfolding xattr_view_def
proof (rule map_cong [OF refl])
  fix y assume "y \<in> set x"
  with assms show "(fst y, snd (snd y), xattr_value h' (snd y)) = (fst y, snd (snd y), xattr_value h (snd y))"
    by (cases y) (auto simp: extends_def in_heap_def xattr_value_def)
qed

text \<open>The content of an object without its addresses and its slack bytes.\<close>

definition obj_view :: "Inode \<Rightarrow> inode_obj" where
  "obj_view i = (case m_obj i of File _ \<Rightarrow> File (file_data i) | ob \<Rightarrow> ob)"

definition same_view :: "heap \<Rightarrow> Inode \<Rightarrow> heap \<Rightarrow> Inode \<Rightarrow> bool" where
  "same_view h i h' j \<longleftrightarrow> m_markedForDeletion j = m_markedForDeletion i \<and> m_nlookup j = m_nlookup i \<and>
     m_fuseEntryParam j = m_fuseEntryParam i \<and> obj_view j = obj_view i \<and>
     xattr_view h' (m_xattr j) = xattr_view h (m_xattr i)"

section \<open>Extended attributes\<close>

lemma string_bytes [simp]: "string_of_bytes (bytes_of_string s) = s" "length (bytes_of_string s) = length s"
proof -
  have "char_of (unat (of_char c :: byte)) = c" for c
  proof -
    have "of_char c < (256 :: nat)" by (cases c) (simp add: of_char_Char horner_sum_simps)
    moreover have "(of_char c :: byte) = of_nat (of_char c)" by (cases c) (simp add: of_char_Char)
    ultimately have "unat (of_char c :: byte) = of_char c"
      by (simp add: unat_of_nat take_bit_nat_eq_self)
    then show ?thesis by simp
  qed
  then show "string_of_bytes (bytes_of_string s) = s"
    by (simp add: string_of_bytes_def bytes_of_string_def comp_def)
  show "length (bytes_of_string s) = length s" by (simp add: bytes_of_string_def)
qed

lemma map_put_snoc: "\<forall>a \<in> set xs. fst a < k \<Longrightarrow> map_put k v xs = xs @ [(k, v)]"
  by (induction k v xs rule: map_put.induct) auto

lemma length_xattr_value: "xattr_value h v = Some b \<Longrightarrow> length b = unat (snd v)"
  by (auto simp: xattr_value_def mem_read_def split: prod.splits if_splits Option.bind_splits)

lemma load_xattrs_ok:
  assumes "pickle_xattrs h x = Some bs" "map_sorted x" "\<forall>y \<in> set x. length (fst y) < 2 ^ 64"
    "\<forall>y \<in> set x. env_alloc e (snd (snd y))" "heap_wf h0" "\<forall>a \<in> set acc. \<forall>y \<in> set x. fst a < fst y"
  shows "\<exists>h1 x'. load_xattrs e (length x) (bs @ rest) (h0, acc) = Some (Some rest, h1, acc @ x') \<and>
    xattr_view h1 x' = xattr_view h x \<and> heap_wf h1 \<and> extends h0 h1 \<and> in_heap h1 x' \<and> map fst x' = map fst x"
  using assms
proof (induction x arbitrary: bs h0 acc)
  case Nil
  then show ?case by (auto simp: xattr_view_def in_heap_def intro!: exI [of _ h0] exI [of _ "[]"])
next
  case (Cons y x)
  obtain k p sz where y: "y = (k, p, sz)" by (cases y) auto
  from Cons.prems(1) obtain val bs' where val: "xattr_value h (p, sz) = Some val"
    and bs': "pickle_xattrs h x = Some bs'"
    and bs: "bs = enc_u64 (of_nat (length k)) @ bytes_of_string k @ enc_u64 sz @ val @ bs'"
    by (auto simp: y split: Option.bind_splits)
  have kl: "unat (of_nat (length k) :: u64) = length k"
    using Cons.prems(3) by (intro unat_of_nat_64) (simp add: y)
  have vl: "length val = unat sz" using length_xattr_value [OF val] by simp
  let ?p = "h_next h0" and ?h = "heap_store val h0"
  obtain h1 where h1: "heap_realloc e nullptr sz h0 = Some (?p, h1)"
    "h1\<lparr>h_mem := (h_mem h1)(?p \<mapsto> val)\<rparr> = ?h"
    using realloc_store [of e sz h0 val] Cons.prems(4,5) y by auto
  note st = heap_store_props [OF Cons.prems(5), of val]
  have p0: "?p \<noteq> nullptr" using Cons.prems(5) by (simp add: heap_wf_def)
  have new: "map_of acc k = None"
    using Cons.prems(6) y by (auto simp: map_of_eq_None_iff)
  have put: "map_put k (?p, sz) acc = acc @ [(k, ?p, sz)]"
    using Cons.prems(6) y by (intro map_put_snoc) auto
  let ?acc = "acc @ [(k, ?p, sz)]"
  have run: "load_xattrs e (length (y # x)) (bs @ rest) (h0, acc) =
      load_xattrs e (length x) (bs' @ rest) (?h, ?acc)"
    by (simp add: bs kl vl h1 p0 new put)
  have ord: "\<forall>a \<in> set ?acc. \<forall>z \<in> set x. fst a < fst z" using Cons.prems(2,6) y by auto
  obtain h2 x' where ih: "load_xattrs e (length x) (bs' @ rest) (?h, ?acc) = Some (Some rest, h2, ?acc @ x')"
    "xattr_view h2 x' = xattr_view h x" "heap_wf h2" "extends ?h h2" "in_heap h2 x'" "map fst x' = map fst x"
    using Cons.IH [OF bs' _ _ _ st(1) ord] Cons.prems(2-4) by auto
  have ext: "extends h0 h2" by (rule extends_trans [OF st(2) ih(4)])
  have mem: "h_mem h2 ?p = Some val"
    using ih(4) st(3,4) p0 by (auto simp: extends_def)
  have "xattr_value h2 (?p, sz) = xattr_value h (p, sz)"
    using mem val vl by (auto simp: xattr_value_def mem_read_def)
  moreover have "?p < h_next h2" using ih(4) st(4) by (auto simp: extends_def)
  ultimately have "xattr_view h2 ((k, ?p, sz) # x') = xattr_view h (y # x)" "in_heap h2 ((k, ?p, sz) # x')"
    using ih(2,5) p0 by (auto simp: xattr_view_def in_heap_def y)
  with run ih(1,3,6) ext y show ?case by (intro exI [of _ h2] exI [of _ "(k, ?p, sz) # x'"]) simp
qed

section \<open>The base class\<close>

text \<open>What loading needs of an object's extended attributes.\<close>

definition xattrs_ok :: "env \<Rightarrow> xattrs \<Rightarrow> bool" where
  "xattrs_ok e x \<longleftrightarrow> map_sorted x \<and> length x < 2 ^ 64 \<and>
     (\<forall>y \<in> set x. length (fst y) < 2 ^ 64 \<and> env_alloc e (snd (snd y)))"

lemma Inode_Load_ok:
  assumes p: "Inode_Pickle h i = Some b" and x: "xattrs_ok e (m_xattr i)" and h0: "heap_wf h0"
  obtains h1 x' where
    "Inode_Load e (b @ rest) (h0, i0) = Some (of_nat (length b), h1,
       i0\<lparr>m_markedForDeletion := m_markedForDeletion i, m_nlookup := m_nlookup i,
          m_fuseEntryParam := m_fuseEntryParam i, m_xattr := x'\<rparr>)"
    "xattr_view h1 x' = xattr_view h (m_xattr i)" "heap_wf h1" "extends h0 h1" "in_heap h1 x'"
    "map fst x' = map fst (m_xattr i)"
proof -
  from p obtain xs where xs: "pickle_xattrs h (m_xattr i) = Some xs"
    and b: "b = (if m_markedForDeletion i then 1 else 0) # enc_u64 (m_nlookup i)
       @ enc_entry_param (m_fuseEntryParam i) @ enc_u64 (of_nat (length (m_xattr i))) @ xs"
    by (auto simp: Inode_Pickle_def split: Option.bind_splits)
  have n: "unat (of_nat (length (m_xattr i)) :: u64) = length (m_xattr i)"
    using x by (intro unat_of_nat_64) (simp add: xattrs_ok_def)
  obtain h1 x' where l: "load_xattrs e (length (m_xattr i)) (xs @ rest) (h0, []) = Some (Some rest, h1, x')"
    and v: "xattr_view h1 x' = xattr_view h (m_xattr i)" "heap_wf h1" "extends h0 h1" "in_heap h1 x'"
      "map fst x' = map fst (m_xattr i)"
    using load_xattrs_ok [OF xs _ _ _ h0, of e "[]" rest] x by (auto simp: xattrs_ok_def)
  have one: "get_bytes (Suc 0) (b @ rest) = Some ([if m_markedForDeletion i then 1 else 0],
      enc_u64 (m_nlookup i) @ enc_entry_param (m_fuseEntryParam i)
        @ enc_u64 (of_nat (length (m_xattr i))) @ xs @ rest)"
    by (simp add: get_bytes_def b)
  have "Inode_Load e (b @ rest) (h0, i0) = Some (of_nat (length b), h1,
       i0\<lparr>m_markedForDeletion := m_markedForDeletion i, m_nlookup := m_nlookup i,
          m_fuseEntryParam := m_fuseEntryParam i, m_xattr := x'\<rparr>)"
    by (simp add: Inode_Load_def one n l)
  from that [OF this v] show ?thesis .
qed

section \<open>Sizes\<close>

lemma foldl_add_word:
  "foldl (\<lambda>(res :: u64) x. res + f x) a xs = a + sum_list (map f xs)"
  by (induction xs arbitrary: a) (simp_all add: algebra_simps)

lemma pickle_xattrs_size:
  "pickle_xattrs h x = Some bs \<Longrightarrow>
   (of_nat (length bs) :: u64) = sum_list (map (\<lambda>y. 8 + of_nat (length (fst y)) + 8 + snd (snd y)) x)"
proof (induction x arbitrary: bs)
  case (Cons y x)
  from Cons.prems obtain val bs' where v: "xattr_value h (snd y) = Some val" "pickle_xattrs h x = Some bs'"
    "bs = enc_u64 (of_nat (length (fst y))) @ bytes_of_string (fst y) @ enc_u64 (snd (snd y)) @ val @ bs'"
    by (auto split: Option.bind_splits)
  have "(of_nat (length val) :: u64) = snd (snd y)" by (simp add: length_xattr_value [OF v(1)])
  with v Cons.IH [OF v(2)] show ?case by (simp add: algebra_simps)
qed simp

lemma Inode_size: "Inode_Pickle h i = Some b \<Longrightarrow> of_nat (length b) = Inode_GetPickledSize i"
  by (auto simp: Inode_Pickle_def Inode_GetPickledSize_def foldl_add_word add.assoc pickle_xattrs_size
      split: Option.bind_splits)

lemma pickle_children_size:
  "(of_nat (length (pickle_children cs)) :: u64) =
   sum_list (map (\<lambda>c. 8 + 8 + of_nat (length (fst c))) cs)"
  by (induction cs) (simp_all add: algebra_simps)

text \<open>The buffer the caller allocates has exactly the size that \<^verbatim>\<open>Pickle\<close> fills.\<close>

lemma PickleObj_size:
  assumes "inode_ok i" "PickleObj h i = Some b"
  shows "of_nat (length b) = GetPickledSize i"
proof (cases "m_obj i")
  case (File buf)
  with assms show ?thesis
    by (auto simp: PickleObj_def File_Pickle_def GetPickledSize_def File_GetPickledSize_def Inode_size
        mem_read_def split: Option.bind_splits if_splits)
next
  case (Directory ch)
  with assms show ?thesis
    by (auto simp: PickleObj_def Directory_Pickle_def GetPickledSize_def Directory_GetPickledSize_def
        Inode_size foldl_add_word add.assoc pickle_children_size split: Option.bind_splits)
next
  case (SymLink l)
  with assms show ?thesis
    by (auto simp: PickleObj_def SymLink_Pickle_def GetPickledSize_def SymLink_GetPickledSize_def
        Inode_size split: Option.bind_splits)
next
  case (SpecialInode ty)
  with assms show ?thesis
    by (auto simp: PickleObj_def SpecialInode_Pickle_def GetPickledSize_def SpecialInode_GetPickledSize_def
        Inode_size split: Option.bind_splits)
qed

section \<open>The subclasses\<close>

lemma load_children_ok:
  "length cs < 2 ^ 64 \<Longrightarrow> \<forall>c \<in> set cs. length (fst c) < 2 ^ 64 \<Longrightarrow>
   load_children (length cs) (pickle_children cs @ rest) = Some (cs, rest)"
proof (induction cs)
  case (Cons c cs)
  have "unat (of_nat (length (fst c)) :: u64) = length (fst c)"
    using Cons.prems by (intro unat_of_nat_64) simp
  with Cons show ?case by simp
qed simp

lemma type_of_type_code [simp]: "type_of_code (type_code t) = Some t"
  by (cases t) (simp_all add: type_of_code_def)

text \<open>What loading needs of an object.\<close>

definition picklable :: "env \<Rightarrow> heap \<Rightarrow> Inode \<Rightarrow> bool" where
  "picklable e h i \<longleftrightarrow> inode_ok i \<and> xattrs_ok e (m_xattr i) \<and> env_new e \<and>
     (\<exists>b. PickleObj h i = Some b \<and> length b < 2 ^ 64) \<and>
     (case m_obj i of
        File _ \<Rightarrow> st_blksize (i_attr i) = BufBlockSize \<and> env_alloc e (BufBlockSize * st_blocks (i_attr i))
      | Directory _ \<Rightarrow> True
      | SymLink l \<Rightarrow> length l < 2 ^ 64
      | SpecialInode _ \<Rightarrow> S_ISCHR (GetMode i) \<or> S_ISBLK (GetMode i) \<or> S_ISSOCK (GetMode i) \<or>
          S_ISFIFO (GetMode i) \<or> GetMode i = 0)"

lemma dir_bytes_ge: "c \<in> set ch \<Longrightarrow> length (fst c) \<le> dir_bytes ch" "length ch \<le> dir_bytes ch"
proof -
  show "c \<in> set ch \<Longrightarrow> length (fst c) \<le> dir_bytes ch"
    by (induction ch) (auto simp: dir_bytes_def)
  show "length ch \<le> dir_bytes ch" by (induction ch) (auto simp: dir_bytes_def)
qed

text \<open>The loaded object shares everything but addresses with the original.\<close>

lemma loaded_inode_ok:
  assumes i: "inode_ok i" and j: "m_fuseEntryParam j = m_fuseEntryParam i" "map fst (m_xattr j) = map fst (m_xattr i)"
    and ob: "m_obj j = m_obj i \<or> (\<exists>b c. m_obj i = File b \<and> m_obj j = File c \<and> length c = length b)"
  shows "inode_ok j"
  using assms
  by (cases "m_obj i") (auto simp: inode_ok_def mode_matches_def GetMode_def file_ok_def dir_ok_def
      Size_def UsedBlocks_def Let_def)

definition loads_as :: "heap \<Rightarrow> Inode \<Rightarrow> heap \<Rightarrow> heap \<Rightarrow> Inode \<Rightarrow> bool" where
  "loads_as h i h0 h1 j \<longleftrightarrow> same_view h i h1 j \<and> inode_ok j \<and> heap_wf h1 \<and> extends h0 h1 \<and> in_heap h1 (m_xattr j)"

lemma loads_asI:
  assumes "inode_ok i" "xattr_view h1 x' = xattr_view h (m_xattr i)" "heap_wf h1" "extends h0 h1" "in_heap h1 x'"
    "map fst x' = map fst (m_xattr i)"
    and j: "j = i0\<lparr>m_markedForDeletion := m_markedForDeletion i, m_nlookup := m_nlookup i,
          m_fuseEntryParam := m_fuseEntryParam i, m_xattr := x', m_obj := ob\<rparr>"
    and ob: "ob = m_obj i \<or> (\<exists>b c. m_obj i = File b \<and> ob = File c \<and> length c = length b \<and>
      take (unat (Size i)) c = take (unat (Size i)) b)"
  shows "loads_as h i h0 h1 j"
proof -
  have "inode_ok j" by (rule loaded_inode_ok [OF assms(1)]) (use j ob assms(6) in auto)
  moreover have "obj_view j = obj_view i"
    using ob by (cases "m_obj i") (auto simp: obj_view_def file_data_def j Size_def)
  ultimately show ?thesis using assms by (simp add: loads_as_def same_view_def j)
qed

lemma picklable_base:
  assumes "picklable e h i" "PickleObj h i = Some b"
  obtains b0 pl where "Inode_Pickle h i = Some b0" "b = b0 @ pl" "unat (of_nat (length b0) :: size_t) = length b0"
    "pl = (case m_obj i of
       File buf \<Rightarrow> take (unat (Size i)) buf
     | Directory _ \<Rightarrow> enc_u64 (of_nat (length (m_children i))) @ pickle_children (m_children i)
     | SymLink _ \<Rightarrow> bytes_of_string (m_link i)
     | SpecialInode t \<Rightarrow> enc_u32 (type_code t))"
    "case m_obj i of File buf \<Rightarrow> unat (Size i) \<le> length buf | _ \<Rightarrow> True"
proof -
  obtain b0 where b0: "Inode_Pickle h i = Some b0"
    using assms by (auto simp: PickleObj_def File_Pickle_def Directory_Pickle_def SymLink_Pickle_def
        SpecialInode_Pickle_def split: inode_obj.splits Option.bind_splits)
  have len: "length b < 2 ^ 64" using assms by (auto simp: picklable_def)
  then have "length b0 \<le> length b \<Longrightarrow> unat (of_nat (length b0) :: size_t) = length b0"
    by (intro unat_of_nat_64) simp
  then show ?thesis
    using assms(2) b0 that [of b0 "drop (length b0) b"]
    by (auto simp: PickleObj_def File_Pickle_def Directory_Pickle_def SymLink_Pickle_def mem_read_def
        SpecialInode_Pickle_def Size_def split: inode_obj.splits if_splits)
qed

lemma memcpy_into_zeros:
  "length d \<le> n \<Longrightarrow> memcpy_at 0 d (replicate n 0) = Some (d @ replicate (n - length d) 0)"
  by (simp add: memcpy_at_def blit_def)

text \<open>
  The class-specific part of \<^verbatim>\<open>Load\<close>, one lemma per class: once \<^verbatim>\<open>Inode::Load\<close> has read the common part
  \<open>b0\<close> into \<open>j0\<close>, the rest of the stream gives the payload.
\<close>

lemma load_file:
  assumes pk: "picklable e h i" and f: "m_obj i = File f" "unat (Size i) \<le> length f"
    and b0: "unat (of_nat (length b0) :: size_t) = length b0"
    and base: "Inode_Load e (b0 @ take (unat (Size i)) f @ rest) (h0, new_Inode (env_param e) (File [])) =
      Some (of_nat (length b0), h1, j0)" "m_fuseEntryParam j0 = m_fuseEntryParam i"
  shows "load_object e (GetMode i) (b0 @ take (unat (Size i)) f @ rest) h0 =
    Some (Inr (of_nat (length b0 + length (take (unat (Size i)) f)), h1,
      j0\<lparr>m_obj := File (take (unat (Size i)) f @ replicate (length f - unat (Size i)) 0)\<rparr>))"
proof -
  have ok: "inode_ok i" and new: "env_new e" using pk by (simp_all add: picklable_def)
  then have mm: "mode_matches i" and "file_ok i" using f by (simp_all add: inode_ok_def)
  then have lf: "length f = 512 * unat (UsedBlocks i)" "unat (UsedBlocks i) = blocks_for (unat (Size i))"
    "unat (Size i) < 2 ^ 63" using f by (auto elim: file_okE)
  have n: "unat (BufBlockSize * st_blocks (i_attr i)) = length f"
    using blocks_for_small [OF lf(3)] lf by (subst unat_mult_64) (simp_all add: BufBlockSize_def UsedBlocks_def)
  show ?thesis
    using mm new pk f base b0 n
    by (simp add: mode_matches_def load_object_def File_Load_def new_File_def picklable_def
        memcpy_into_zeros Size_def Let_def)
qed

lemma load_directory:
  assumes pk: "picklable e h i" and d: "m_obj i = Directory ch"
    and b0: "unat (of_nat (length b0) :: size_t) = length b0"
    and pl: "pl = enc_u64 (of_nat (length ch)) @ pickle_children ch"
    and base: "Inode_Load e (b0 @ pl @ rest) (h0, new_Inode (env_param e) (Directory [])) =
      Some (of_nat (length b0), h1, j0)" "m_obj j0 = Directory []"
  shows "load_object e (GetMode i) (b0 @ pl @ rest) h0 =
    Some (Inr (of_nat (length b0 + length pl), h1, j0\<lparr>m_obj := Directory ch\<rparr>))"
proof -
  have ok: "inode_ok i" and new: "env_new e" using pk by (simp_all add: picklable_def)
  then have mm: "mode_matches i" and dir: "dir_ok i" using d by (simp_all add: inode_ok_def)
  have "m_children i = ch" using d by (simp add: m_children_def)
  with dir have "dir_bytes ch < 2 ^ 63" by (auto elim: dir_okE)
  then have len: "length ch < 2 ^ 64" "\<forall>c \<in> set ch. length (fst c) < 2 ^ 64"
    using dir_bytes_ge(1) [of _ ch] dir_bytes_ge(2) [of ch] by fastforce+
  have n: "unat (of_nat (length ch) :: u64) = length ch" using len by (intro unat_of_nat_64) simp
  show ?thesis
    using mm new d base b0 n load_children_ok [OF len, of rest]
    by (simp add: mode_matches_def load_object_def Directory_Load_def new_Directory_def pl set_children_def)
qed

lemma load_symlink:
  assumes pk: "picklable e h i" and l: "m_obj i = SymLink l"
    and b0: "unat (of_nat (length b0) :: size_t) = length b0"
    and base: "Inode_Load e (b0 @ bytes_of_string l @ rest) (h0, new_Inode (env_param e) (SymLink [])) =
      Some (of_nat (length b0), h1, j0)" "m_fuseEntryParam j0 = m_fuseEntryParam i" "m_obj j0 = SymLink []"
  shows "load_object e (GetMode i) (b0 @ bytes_of_string l @ rest) h0 =
    Some (Inr (of_nat (length b0 + length (bytes_of_string l)), h1, j0\<lparr>m_obj := SymLink l\<rparr>))"
proof -
  have ok: "inode_ok i" and new: "env_new e" using pk by (simp_all add: picklable_def)
  then have mm: "mode_matches i" and sw: "st_size (i_attr i) = of_nat (length l)"
    using l by (simp_all add: inode_ok_def Size_def)
  have "unat (Size i) = length l" using ok l pk by (simp add: inode_ok_def picklable_def unat_of_nat_64)
  then show ?thesis
    using mm new l base b0
    by (simp add: mode_matches_def load_object_def SymLink_Load_def new_SymLink_def Size_def sw)
qed

lemma load_special:
  assumes pk: "picklable e h i" and t: "m_obj i = SpecialInode ty"
    and b0: "unat (of_nat (length b0) :: size_t) = length b0"
    and base: "Inode_Load e (b0 @ enc_u32 (type_code ty) @ rest)
      (h0, new_Inode (env_param e) (SpecialInode SPECIAL_INODE_TYPE_NO_BLOCK)) = Some (of_nat (length b0), h1, j0)"
      "m_obj j0 = SpecialInode SPECIAL_INODE_TYPE_NO_BLOCK"
  shows "load_object e (GetMode i) (b0 @ enc_u32 (type_code ty) @ rest) h0 =
    Some (Inr (of_nat (length b0 + length (enc_u32 (type_code ty))), h1, j0\<lparr>m_obj := SpecialInode ty\<rparr>))"
proof -
  have "mode_matches i" "env_new e" using pk by (simp_all add: picklable_def inode_ok_def)
  then show ?thesis
    using t base b0 pk
    by (simp add: mode_matches_def load_object_def SpecialInode_Load_def picklable_def Let_def)
qed

lemma load_object_ok:
  assumes pk: "picklable e h i" and b: "PickleObj h i = Some b" and h0: "heap_wf h0"
  obtains h1 j where "load_object e (GetMode i) (b @ rest) h0 = Some (Inr (of_nat (length b), h1, j))"
    "loads_as h i h0 h1 j"
proof -
  from pk have ok: "inode_ok i" and x: "xattrs_ok e (m_xattr i)" by (simp_all add: picklable_def)
  obtain b0 pl where b0: "Inode_Pickle h i = Some b0" "b = b0 @ pl"
    "unat (of_nat (length b0) :: size_t) = length b0"
    and pl: "pl = (case m_obj i of
       File buf \<Rightarrow> take (unat (Size i)) buf
     | Directory _ \<Rightarrow> enc_u64 (of_nat (length (m_children i))) @ pickle_children (m_children i)
     | SymLink _ \<Rightarrow> bytes_of_string (m_link i)
     | SpecialInode t \<Rightarrow> enc_u32 (type_code t))"
    and buf: "case m_obj i of File buf \<Rightarrow> unat (Size i) \<le> length buf | _ \<Rightarrow> True"
    by (rule picklable_base [OF pk b])
  let ?i0 = "new_Inode (env_param e) (case m_obj i of File _ \<Rightarrow> File [] | Directory _ \<Rightarrow> Directory []
      | SymLink _ \<Rightarrow> SymLink [] | SpecialInode _ \<Rightarrow> SpecialInode SPECIAL_INODE_TYPE_NO_BLOCK)"
  obtain h1 x' where base: "Inode_Load e (b0 @ pl @ rest) (h0, ?i0) = Some (of_nat (length b0), h1,
       ?i0\<lparr>m_markedForDeletion := m_markedForDeletion i, m_nlookup := m_nlookup i,
          m_fuseEntryParam := m_fuseEntryParam i, m_xattr := x'\<rparr>)"
    and v: "xattr_view h1 x' = xattr_view h (m_xattr i)" "heap_wf h1" "extends h0 h1" "in_heap h1 x'"
      "map fst x' = map fst (m_xattr i)"
    by (rule Inode_Load_ok [OF b0(1) x h0])
  note la = loads_asI [OF ok v refl]
  show ?thesis
  proof (cases "m_obj i")
    case (File f)
    note base = base [unfolded pl File inode_obj.case]
    from load_file [OF pk File _ b0(3) base] buf File show ?thesis
      by (intro that [OF _ la [of "File (take (unat (Size i)) f @ replicate (length f - unat (Size i)) 0)"]])
        (simp_all add: b0(2) pl)
  next
    case (Directory ch)
    from load_directory [OF pk Directory b0(3) _ base [unfolded Directory inode_obj.case]] pl Directory
    show ?thesis
      by (intro that [OF _ la [of "Directory ch"]]) (simp_all add: b0(2) m_children_def new_Inode_def)
  next
    case (SymLink l)
    have "pl = bytes_of_string l" using pl SymLink by (simp add: m_link_def)
    with load_symlink [OF pk SymLink b0(3) base [unfolded this SymLink inode_obj.case]] SymLink show ?thesis
      by (intro that [OF _ la [of "SymLink l"]]) (simp_all add: b0(2) new_Inode_def)
  next
    case (SpecialInode ty)
    note base = base [unfolded pl SpecialInode inode_obj.case]
    from load_special [OF pk SpecialInode b0(3) base] SpecialInode show ?thesis
      by (intro that [OF _ la [of "SpecialInode ty"]]) (simp_all add: b0(2) pl new_Inode_def)
  qed
qed

end
