(* ===== verification/State_File.thy ===== *)
theory State_File
  imports Pickle_Roundtrip
begin

text \<open>
  The state file (\<^verbatim>\<open>pickle.cpp\<close>): a header with the length and the SHA-256 digest of what follows,
  then the capacity counters, the inode table, the queue of reusable numbers and the pool of
  checkpointed states. A throw of \<^verbatim>\<open>pickle_error\<close> is a value; \<open>None\<close> is an undefined access or the
  end of the process.
\<close>

section \<open>What comes from the system\<close>

type_synonym disk = "string \<rightharpoonup> byte list"

text \<open>
  The error numbers are 0 for success. \<open>os_write\<close> is the result of \<^verbatim>\<open>write(fd, buf, count)\<close> at a
  position: the number of bytes written or -1. \<open>os_order\<close> is the order in which a loop visits
  the unordered map of saved states.
\<close>

record os =
  os_open :: "string \<Rightarrow> int"
  os_read :: "string \<Rightarrow> int"
  os_lseek :: int
  os_write :: "nat \<Rightarrow> nat \<Rightarrow> int"
  os_errno :: int
  os_fstat :: int
  os_mmap :: int
  os_sha256 :: "byte list \<Rightarrow> byte list"
  os_sha_init :: bool
  os_sha_update :: bool
  os_order :: "pool \<Rightarrow> pool"

section \<open>Writing\<close>

text \<open>The file being written, the cursor, what was fed to the hash, and the queue iterated over.\<close>

record pk =
  pk_file :: "byte list"
  pk_pos :: nat
  pk_hash :: "byte list"
  pk_queue :: "ino_t list"

text \<open>\<open>Some n\<close> in the second component is a thrown \<^verbatim>\<open>pickle_error(n)\<close>.\<close>

type_synonym pk_result = "(pk \<times> int option) option"

definition pk_then :: "pk_result \<Rightarrow> (pk \<Rightarrow> pk_result) \<Rightarrow> pk_result" where
  "pk_then r k =
     (case r of None \<Rightarrow> None | Some (p, Some n) \<Rightarrow> Some (p, Some n) | Some (p, None) \<Rightarrow> k p)"

text \<open>
  \<^verbatim>\<open>size_t res = write(...)\<close>: the result -1 becomes the largest \<^verbatim>\<open>size_t\<close> and passes the test
  \<^verbatim>\<open>res < count\<close>; a short write leaves \<^verbatim>\<open>errno\<close> at the 0 it was set to.
\<close>

definition write_to_file :: "os \<Rightarrow> byte list \<Rightarrow> pk \<Rightarrow> pk \<times> int option" where
  "write_to_file os data p =
     (let r = os_write os (pk_pos p) (length data);
          n = (if r < 0 then 0 else nat r);
          p' = p\<lparr>pk_file := (if n = 0 then pk_file p else spec_write (pk_pos p) (take n data) (pk_file p)),
                 pk_pos := pk_pos p + n\<rparr>;
          res = (word_of_int r :: size_t)
      in if res < of_nat (length data) then (p', Some 0) else (p', None))"

definition feed_hash :: "os \<Rightarrow> byte list \<Rightarrow> pk \<Rightarrow> pk \<times> int option" where
  "feed_hash os data p =
     (if \<not> os_sha_update os then (p, Some EPROTO) else (p\<lparr>pk_hash := pk_hash p @ data\<rparr>, None))"

definition write_and_hash :: "os \<Rightarrow> byte list \<Rightarrow> pk \<Rightarrow> pk_result" where
  "write_and_hash os data p = pk_then (Some (write_to_file os data p)) (\<lambda>p. Some (feed_hash os data p))"

text \<open>One iteration of the loop over an inode table.\<close>

definition pickle_inode :: "os \<Rightarrow> env \<Rightarrow> heap \<Rightarrow> Inode option \<Rightarrow> pk \<Rightarrow> pk_result" where
  "pickle_inode os e h slot p =
     (case slot of
        None \<Rightarrow> write_and_hash os (enc_inode_state False 0) p
      | Some i \<Rightarrow>
          let pickled_size = GetPickledSize i in
          if \<not> env_alloc e pickled_size then Some (p, Some ENOMEM)
          else (case PickleObj h i of
                  None \<Rightarrow> None
                | Some data \<Rightarrow>
                    if length data > unat pickled_size then None
                    else pk_then (write_and_hash os (enc_inode_state True (GetMode i)) p)
                      (write_and_hash os (data @ map (env_junk e) [length data..<unat pickled_size]))))"

primrec pickle_inodes :: "os \<Rightarrow> env \<Rightarrow> heap \<Rightarrow> Inode option list \<Rightarrow> pk \<Rightarrow> pk_result" where
  "pickle_inodes os e h [] p = Some (p, None)"
| "pickle_inodes os e h (slot # rest) p =
     pk_then (pickle_inode os e h slot p) (pickle_inodes os e h rest)"

text \<open>The queue is iterated by popping the front and pushing it back, \<open>n\<close> times.\<close>

primrec pickle_queue :: "os \<Rightarrow> nat \<Rightarrow> pk \<Rightarrow> pk_result" where
  "pickle_queue os 0 p = Some (p, None)"
| "pickle_queue os (Suc n) p =
     (case pk_queue p of
        [] \<Rightarrow> None
      | ino # rest \<Rightarrow> pk_then (write_and_hash os (enc_u64 ino) p)
                      (\<lambda>p. pickle_queue os n (p\<lparr>pk_queue := rest @ [ino]\<rparr>)))"

text \<open>One saved state; its queue is a local copy.\<close>

definition pickle_state :: "os \<Rightarrow> env \<Rightarrow> heap \<Rightarrow> u64 \<times> verifs2_state \<Rightarrow> pk \<Rightarrow> pk_result" where
  "pickle_state os e h = (\<lambda>(key, stored_files, stored_DeletedInodes, stored_m_stbuf) p.
     pk_then (write_and_hash os (enc_u64 key) p) (\<lambda>p.
     pk_then (write_and_hash os (enc_u64 (of_nat (length stored_files))) p) (\<lambda>p.
     pk_then (pickle_inodes os e h stored_files p) (\<lambda>p.
     pk_then (write_and_hash os (enc_u64 (of_nat (length stored_DeletedInodes))) p) (\<lambda>p.
     pk_then (map_option (\<lambda>(q, r). (q\<lparr>pk_queue := pk_queue p\<rparr>, r))
               (pickle_queue os (length stored_DeletedInodes) (p\<lparr>pk_queue := stored_DeletedInodes\<rparr>)))
       (write_and_hash os (enc_statvfs stored_m_stbuf)))))))"

primrec pickle_states :: "os \<Rightarrow> env \<Rightarrow> heap \<Rightarrow> pool \<Rightarrow> pk \<Rightarrow> pk_result" where
  "pickle_states os e h [] p = Some (p, None)"
| "pickle_states os e h (st # rest) p = pk_then (pickle_state os e h st p) (pickle_states os e h rest)"

text \<open>The body of the \<^verbatim>\<open>try\<close> block, and the function: a throw moves the cursor back.\<close>

definition pickle_body :: "os \<Rightarrow> env \<Rightarrow> fs \<Rightarrow> pk \<Rightarrow> pk_result" where
  "pickle_body os e s p =
     pk_then (write_and_hash os (enc_statvfs (m_stbuf s)) p) (\<lambda>p.
     pk_then (write_and_hash os (enc_u64 (of_nat (length (Inodes s)))) p) (\<lambda>p.
     pk_then (pickle_inodes os e (xheap s) (Inodes s) p) (\<lambda>p.
     pk_then (write_and_hash os (enc_u64 (of_nat (length (pk_queue p)))) p) (\<lambda>p.
     pk_then (pickle_queue os (length (pk_queue p)) p) (\<lambda>p.
     pk_then (write_and_hash os (enc_u64 (of_nat (length (get_state_pool s)))) p) (\<lambda>p.
     pickle_states os e (xheap s) (os_order os (get_state_pool s)) p))))))"

definition pickle_file_system :: "os \<Rightarrow> env \<Rightarrow> fs \<Rightarrow> pk \<Rightarrow> (int \<times> pk) option" where
  "pickle_file_system os e s p =
     map_option (\<lambda>(q, r). case r of None \<Rightarrow> (0, q) | Some n \<Rightarrow> (- n, q\<lparr>pk_pos := pk_pos p\<rparr>))
       (pickle_body os e s p)"

section \<open>The state file\<close>

definition VERIFS_PICKLE_CFG :: string where "VERIFS_PICKLE_CFG = ''/tmp/pickle.cfg''"
definition VERIFS_LOAD_CFG :: string where "VERIFS_LOAD_CFG = ''/tmp/pickle.cfg''"

abbreviation EFAULT :: int where "EFAULT \<equiv> 14"

definition open_rdonly :: "os \<Rightarrow> string \<Rightarrow> disk \<Rightarrow> int + byte list" where
  "open_rdonly os path d =
     (if os_open os path \<noteq> 0 then Inl (os_open os path)
      else case d path of None \<Rightarrow> Inl ENOENT | Some c \<Rightarrow> Inr c)"

text \<open>The path the configuration file names; a failed \<^verbatim>\<open>realloc\<close> gives the null pointer.\<close>

definition fetch_filepath :: "os \<Rightarrow> env \<Rightarrow> string \<Rightarrow> disk \<Rightarrow> int + string option" where
  "fetch_filepath os e cfgpath d =
     (case open_rdonly os cfgpath d of
        Inl n \<Rightarrow> Inl n
      | Inr content \<Rightarrow>
          if \<not> env_alloc e (of_nat PATH_MAX) then Inl ENOMEM
          else if os_read os cfgpath \<noteq> 0 then Inl (os_read os cfgpath)
          else
            let path = takeWhile (\<lambda>b. b \<noteq> 0) (take PATH_MAX content) in
            Inr (if env_alloc e (of_nat (length path) + 1) then Some (string_of_bytes path) else None))"

text \<open>\<^verbatim>\<open>struct state_file_header { size_t fsize; unsigned char hash[32]; }\<close>\<close>

definition enc_header :: "size_t \<Rightarrow> byte list \<Rightarrow> byte list" where
  "enc_header fsize hash = enc_u64 fsize @ hash"

definition header_size :: nat where "header_size = 40"

definition pickle_verifs2 :: "os \<Rightarrow> env \<Rightarrow> fs \<Rightarrow> disk \<Rightarrow> (int \<times> fs \<times> disk) option" where
  "pickle_verifs2 os e s d =
     (case fetch_filepath os e VERIFS_PICKLE_CFG d of
        Inl n \<Rightarrow> Some (- n, s, d)
      | Inr None \<Rightarrow> Some (- EFAULT, s, d)
      | Inr (Some path) \<Rightarrow>
          if os_open os path \<noteq> 0 then Some (- os_open os path, s, d)
          else if os_lseek os \<noteq> 0 then Some (- os_lseek os, s, d(path \<mapsto> []))
          else do {
            (res, q) \<leftarrow> pickle_file_system os e s
              \<lparr>pk_file = [], pk_pos = header_size, pk_hash = [], pk_queue = DeletedInodes s\<rparr>;
            let s' = s\<lparr>DeletedInodes := pk_queue q\<rparr>;
            if res < 0 then Some (- os_errno os, s', d(path \<mapsto> pk_file q))
            else
              let header = enc_header (of_nat (pk_pos q)) (os_sha256 os (pk_hash q));
                  r = os_write os 0 header_size;
                  file = (if r \<le> 0 then pk_file q else spec_write 0 (take (nat r) header) (pk_file q))
              in Some (if r \<ge> 0 then 0 else - os_errno os, s', d(path \<mapsto> file))
          })"

section \<open>Verifying\<close>

definition verify_file_size :: "os \<Rightarrow> byte list \<Rightarrow> size_t \<Rightarrow> int" where
  "verify_file_size os file expected =
     (if os_fstat os \<noteq> 0 then os_fstat os
      else if of_nat (length file) = expected then 0 else -1)"

text \<open>The loop over blocks of 4096 bytes: what has been fed to the hash.\<close>

function hash_blocks :: "byte list \<Rightarrow> byte list \<Rightarrow> byte list" where
  "hash_blocks fed rest = (if rest = [] then fed else hash_blocks (fed @ take 4096 rest) (drop 4096 rest))"
  by pat_completeness auto
termination by (relation "measure (length \<circ> snd)") auto

declare hash_blocks.simps [simp del]

definition verify_file_integrity :: "os \<Rightarrow> string \<Rightarrow> byte list \<Rightarrow> byte list \<Rightarrow> int" where
  "verify_file_integrity os path rest expected =
     (if \<not> os_sha_init os then -2
      else if os_read os path \<noteq> 0 then os_read os path
      else if os_sha256 os (hash_blocks [] rest) = expected then 0 else -3)"

definition verify_state_file :: "os \<Rightarrow> string \<Rightarrow> byte list \<Rightarrow> int" where
  "verify_state_file os path file =
     (if os_lseek os \<noteq> 0 then os_lseek os
      else if os_read os path \<noteq> 0 then os_read os path
      else if length file < header_size then ENOSPC
      else
        let fsize = of_nat (le_nat (take 8 file)); hash = take 32 (drop 8 file);
            res = verify_file_size os file fsize
        in if res \<noteq> 0 then res
           else verify_file_integrity os path (drop header_size file) hash)"

section \<open>Loading\<close>

text \<open>
  The loop over the inodes of a table. A slot that did not exist is skipped: nothing is pushed
  for it. On a throw the vector keeps what was pushed.
\<close>

primrec load_inodes ::
    "env \<Rightarrow> nat \<Rightarrow> byte list \<times> Inode option list \<times> heap
     \<Rightarrow> ((byte list \<times> Inode option list \<times> heap) \<times> int option) option" where
  "load_inodes e 0 st = Some (st, None)"
| "load_inodes e (Suc n) st = (let (ptr, inodes, h) = st in do {
     ((exist, mode), ptr) \<leftarrow> get_inode_state ptr;
     if \<not> exist then load_inodes e n (ptr, inodes, h)
     else do {
       r \<leftarrow> load_object e mode ptr h;
       case r of
         Inl err \<Rightarrow> Some ((ptr, inodes, h), Some err)
       | Inr (res, h', i) \<Rightarrow>
           if res = 0 then Some ((ptr, inodes @ [Some i], h'), Some ENOMEM)
           else load_inodes e n (drop (unat res) ptr, inodes @ [Some i], h')
     }
   })"

primrec load_queue :: "nat \<Rightarrow> byte list \<times> ino_t list \<Rightarrow> (byte list \<times> ino_t list) option" where
  "load_queue 0 st = Some st"
| "load_queue (Suc n) st = (let (ptr, q) = st in do {
     (ino, ptr) \<leftarrow> get_u64 ptr;
     load_queue n (ptr, q @ [ino])
   })"

primrec load_states ::
    "env \<Rightarrow> nat \<Rightarrow> byte list \<times> heap \<times> pool \<Rightarrow> ((byte list \<times> heap \<times> pool) \<times> int option) option" where
  "load_states e 0 st = Some (st, None)"
| "load_states e (Suc n) st = (let (ptr, h, pool) = st in do {
     (key, ptr) \<leftarrow> get_u64 ptr;
     (num, ptr) \<leftarrow> get_u64 ptr;
     ((ptr, cr_inodes, h), err) \<leftarrow> load_inodes e (unat num) (ptr, [], h);
     (case err of
        Some err \<Rightarrow> Some ((ptr, h, pool), Some err)
      | None \<Rightarrow> do {
          (num, ptr) \<leftarrow> get_u64 ptr;
          (ptr, cr_deleted) \<leftarrow> load_queue (unat num) (ptr, []);
          (sb, ptr) \<leftarrow> get_statvfs ptr;
          let (ret, pool') = insert_state key (cr_inodes, cr_deleted, sb) pool;
          if ret \<noteq> 0 then Some ((ptr, h, pool'), Some EINVAL)
          else load_states e n (ptr, h, pool')
        })
   })"

text \<open>The vector, the queue and the counters are those of the file system, by reference.\<close>

definition load_file_system :: "env \<Rightarrow> byte list \<Rightarrow> fs \<Rightarrow> (int \<times> fs) option" where
  "load_file_system e data s = do {
     (sb, ptr) \<leftarrow> get_statvfs data;
     let s = s\<lparr>m_stbuf := sb\<rparr>;
     (num, ptr) \<leftarrow> get_u64 ptr;
     ((ptr, inodes, h), err) \<leftarrow> load_inodes e (unat num) (ptr, Inodes s, xheap s);
     let s = s\<lparr>Inodes := inodes, xheap := h\<rparr>;
     case err of
       Some n \<Rightarrow> Some (- n, s)
     | None \<Rightarrow> do {
         (num, ptr) \<leftarrow> get_u64 ptr;
         (ptr, q) \<leftarrow> load_queue (unat num) (ptr, DeletedInodes s);
         let s = s\<lparr>DeletedInodes := q\<rparr>;
         (num, ptr) \<leftarrow> get_u64 ptr;
         ((ptr, h, pool), err) \<leftarrow> load_states e (unat num) (ptr, xheap s, state_pool s);
         let s = s\<lparr>xheap := h, state_pool := pool\<rparr>;
         Some (case err of Some n \<Rightarrow> - n | None \<Rightarrow> int (length data - length ptr), s)
       }
   }"

text \<open>The result of \<^verbatim>\<open>load_file_system\<close> is not looked at.\<close>

definition load_verifs2 :: "os \<Rightarrow> env \<Rightarrow> fs \<Rightarrow> disk \<Rightarrow> (int \<times> fs) option" where
  "load_verifs2 os e s d =
     (case fetch_filepath os e VERIFS_LOAD_CFG d of
        Inl n \<Rightarrow> Some (- n, s)
      | Inr None \<Rightarrow> Some (- EFAULT, s)
      | Inr (Some path) \<Rightarrow>
          (case open_rdonly os path d of
             Inl n \<Rightarrow> Some (- n, s)
           | Inr file \<Rightarrow>
               let res = verify_state_file os path file in
               if res > 0 then Some (- res, s)
               else if res = -1 then Some (- EMSGSIZE, s)
               else if res = -2 then Some (- EPROTO, s)
               else if res = -3 then Some (- EINVAL, s)
               else if os_fstat os \<noteq> 0 then Some (- os_fstat os, s)
               else if os_mmap os \<noteq> 0 then Some (- os_mmap os, s)
               else do {
                 (_, s') \<leftarrow> load_file_system e (drop header_size file)
                    ((clear_states s)\<lparr>Inodes := [], DeletedInodes := []\<rparr>);
                 Some (0, s')
               }))"

section \<open>The build against OpenSSL 3\<close>

text \<open>
  There the hash context is a pointer \<^verbatim>\<open>EVP_MD_CTX *ctx\<close> that is never assigned, and the first use of it is
  \<^verbatim>\<open>EVP_DigestInit_ex\<close>. A use of a pointer without a value is undefined, so that what is left of the two
  functions is what comes before it.
\<close>

definition EVP_DigestInit_unassigned :: "'a option" where
  "EVP_DigestInit_unassigned = None"

definition pickle_verifs2_openssl3 :: "os \<Rightarrow> env \<Rightarrow> fs \<Rightarrow> disk \<Rightarrow> (int \<times> fs \<times> disk) option" where
  "pickle_verifs2_openssl3 os e s d =
     (case fetch_filepath os e VERIFS_PICKLE_CFG d of
        Inl n \<Rightarrow> Some (- n, s, d)
      | Inr None \<Rightarrow> Some (- EFAULT, s, d)
      | Inr (Some path) \<Rightarrow>
          if os_open os path \<noteq> 0 then Some (- os_open os path, s, d)
          else if os_lseek os \<noteq> 0 then Some (- os_lseek os, s, d(path \<mapsto> []))
          else EVP_DigestInit_unassigned)"

definition verify_state_file_openssl3 :: "os \<Rightarrow> string \<Rightarrow> byte list \<Rightarrow> int option" where
  "verify_state_file_openssl3 os path file =
     (if os_lseek os \<noteq> 0 then Some (os_lseek os)
      else if os_read os path \<noteq> 0 then Some (os_read os path)
      else if length file < header_size then Some ENOSPC
      else
        let res = verify_file_size os file (of_nat (le_nat (take 8 file)))
        in if res \<noteq> 0 then Some res else EVP_DigestInit_unassigned)"

text \<open>The builds agree on every error before the hash; past it, only the older one is defined.\<close>

lemma openssl3_agrees:
  "pickle_verifs2_openssl3 os e s d = Some r \<Longrightarrow> pickle_verifs2 os e s d = Some r"
  "verify_state_file_openssl3 os path file = Some n \<Longrightarrow> verify_state_file os path file = n"
  by (auto simp: pickle_verifs2_openssl3_def pickle_verifs2_def verify_state_file_openssl3_def verify_state_file_def
      EVP_DigestInit_unassigned_def Let_def split: sum.splits option.splits if_splits)

lemma openssl3_writes_nothing:
  assumes "pickle_verifs2_openssl3 os e s d = Some (ret, s', d')"
  shows "s' = s \<and> (d' = d \<or> (\<exists>path. d' = d(path \<mapsto> [])))"
  using assms by (auto simp: pickle_verifs2_openssl3_def EVP_DigestInit_unassigned_def split: sum.splits option.splits if_splits)

end
