(* ===== verification/State_File_Roundtrip.thy ===== *)
theory State_File_Roundtrip
  imports State_File "HOL-Library.Multiset"
begin

text \<open>
  Writing the state file and reading it back. With a system on which every write is complete,
  \<^verbatim>\<open>pickle_verifs2\<close> produces the header and the concatenation of the encodings, and
  \<^verbatim>\<open>load_verifs2\<close> of such a file passes the checks and rebuilds counters, queue, saved states and
  the objects of the table in order; empty slots of the table are dropped.
\<close>

section \<open>Writing appends\<close>

definition writes_ok :: "os \<Rightarrow> bool" where
  "writes_ok os \<longleftrightarrow> (\<forall>p n. os_write os p n = int n) \<and> os_sha_update os"

text \<open>The state after writing and hashing \<open>bs\<close> behind the space left for the header.\<close>

definition pk_at :: "ino_t list \<Rightarrow> byte list \<Rightarrow> pk \<Rightarrow> bool" where
  "pk_at q bs p \<longleftrightarrow> pk_pos p = header_size + length bs \<and> pk_hash p = bs \<and> pk_queue p = q \<and>
     pk_file p = (if bs = [] then [] else replicate header_size 0 @ bs)"

text \<open>A step that, whatever was written before, writes \<open>bs\<close> and does not throw.\<close>

definition emits :: "ino_t list \<Rightarrow> (pk \<Rightarrow> pk_result) \<Rightarrow> byte list \<Rightarrow> bool" where
  "emits q f bs \<longleftrightarrow> (\<forall>p acc. pk_at q acc p \<longrightarrow> (\<exists>p'. f p = Some (p', None) \<and> pk_at q (acc @ bs) p'))"

lemma spec_write_end:
  "spec_write (length c) d c = c @ d" "spec_write n d [] = replicate n 0 @ d"
  by (simp_all add: spec_write_def)

lemma emits_write: "writes_ok os \<Longrightarrow> emits q (write_and_hash os d) d"
  unfolding emits_def
proof (intro allI impI)
  fix p acc assume ok: "writes_ok os" and p: "pk_at q acc p"
  have cont: "(if length d = 0 then pk_file p else spec_write (pk_pos p) (take (length d) d) (pk_file p)) =
      (if acc @ d = [] then [] else replicate header_size 0 @ acc @ d)"
    using p spec_write_end(1) [of "replicate header_size 0 @ acc" d]
    by (auto simp: pk_at_def spec_write_end)
  let ?p = "p\<lparr>pk_file := (if acc @ d = [] then [] else replicate header_size 0 @ acc @ d),
      pk_pos := pk_pos p + length d, pk_hash := pk_hash p @ d\<rparr>"
  have "write_and_hash os d p = Some (?p, None)"
    using ok cont by (simp add: write_and_hash_def write_to_file_def feed_hash_def pk_then_def writes_ok_def)
  with p show "\<exists>p'. write_and_hash os d p = Some (p', None) \<and> pk_at q (acc @ d) p'"
    by (auto simp: pk_at_def)
qed

lemma emits_then:
  assumes "emits q f bs" "emits q k cs"
  shows "emits q (\<lambda>p. pk_then (f p) k) (bs @ cs)"
  unfolding emits_def
proof (intro allI impI)
  fix p acc assume "pk_at q acc p"
  with assms(1) obtain p1 where p1: "f p = Some (p1, None)" "pk_at q (acc @ bs) p1"
    unfolding emits_def by blast
  with assms(2) obtain p2 where "k p1 = Some (p2, None)" "pk_at q (acc @ bs @ cs) p2"
    unfolding emits_def by fastforce
  with p1 show "\<exists>p'. pk_then (f p) k = Some (p', None) \<and> pk_at q (acc @ bs @ cs) p'"
    by (simp add: pk_then_def)
qed

lemma emits_Nil: "emits q (\<lambda>p. Some (p, None)) []"
  by (simp add: emits_def)

text \<open>Steps that look at the state, as long as it has the given queue.\<close>

lemma emits_cong:
  assumes "\<And>p acc. pk_at q acc p \<Longrightarrow> f p = g p" shows "emits q f bs = emits q g bs"
  using assms by (auto simp: emits_def)

section \<open>The bytes of each part\<close>

definition slot_bytes :: "heap \<Rightarrow> Inode option \<Rightarrow> byte list" where
  "slot_bytes h slot =
     (case slot of None \<Rightarrow> enc_inode_state False 0
      | Some i \<Rightarrow> enc_inode_state True (GetMode i) @ the (PickleObj h i))"

definition table_bytes :: "heap \<Rightarrow> Inode option list \<Rightarrow> byte list" where
  "table_bytes h tab = concat (map (slot_bytes h) tab)"

definition queue_bytes :: "ino_t list \<Rightarrow> byte list" where
  "queue_bytes q = concat (map enc_u64 q)"

definition state_bytes :: "heap \<Rightarrow> u64 \<times> verifs2_state \<Rightarrow> byte list" where
  "state_bytes h = (\<lambda>(key, tab, dels, sb). enc_u64 key @ enc_u64 (of_nat (length tab)) @ table_bytes h tab
     @ enc_u64 (of_nat (length dels)) @ queue_bytes dels @ enc_statvfs sb)"

definition fs_bytes :: "os \<Rightarrow> fs \<Rightarrow> byte list" where
  "fs_bytes os s = enc_statvfs (m_stbuf s) @ enc_u64 (of_nat (length (Inodes s)))
     @ table_bytes (xheap s) (Inodes s) @ enc_u64 (of_nat (length (DeletedInodes s)))
     @ queue_bytes (DeletedInodes s) @ enc_u64 (of_nat (length (state_pool s)))
     @ concat (map (state_bytes (xheap s)) (os_order os (state_pool s)))"

definition table_picklable :: "env \<Rightarrow> heap \<Rightarrow> Inode option list \<Rightarrow> bool" where
  "table_picklable e h tab \<longleftrightarrow> length tab < 2 ^ 64 \<and>
     (\<forall>i. Some i \<in> set tab \<longrightarrow> picklable e h i \<and> env_alloc e (GetPickledSize i))"

lemma emits_inode:
  assumes os: "writes_ok os" and i: "\<And>i. slot = Some i \<Longrightarrow> picklable e h i \<and> env_alloc e (GetPickledSize i)"
  shows "emits q (pickle_inode os e h slot) (slot_bytes h slot)"
proof (cases slot)
  case None
  with emits_write [OF os] show ?thesis by (simp add: pickle_inode_def [abs_def] slot_bytes_def)
next
  case (Some i)
  with i have pk: "picklable e h i" and al: "env_alloc e (GetPickledSize i)" by simp_all
  then obtain b where b: "PickleObj h i = Some b" "length b < 2 ^ 64" and ok: "inode_ok i"
    by (auto simp: picklable_def)
  have "unat (of_nat (length b) :: u64) = length b" using b(2) by (rule unat_of_nat_64)
  then have sz: "unat (GetPickledSize i) = length b" using PickleObj_size [OF ok b(1)] by simp
  have "pickle_inode os e h slot = (\<lambda>p. pk_then (write_and_hash os (enc_inode_state True (GetMode i)) p)
      (write_and_hash os b))"
    using Some b al sz by (simp add: pickle_inode_def [abs_def])
  with emits_then [OF emits_write [OF os] emits_write [OF os]] Some b show ?thesis
    by (simp add: slot_bytes_def)
qed

lemma emits_table:
  assumes os: "writes_ok os" and tab: "\<And>i. Some i \<in> set tab \<Longrightarrow> picklable e h i \<and> env_alloc e (GetPickledSize i)"
  shows "emits q (pickle_inodes os e h tab) (table_bytes h tab)"
  using tab
proof (induction tab)
  case Nil
  then show ?case using emits_Nil by (simp add: table_bytes_def pickle_inodes_def)
next
  case (Cons slot tab)
  have "emits q (\<lambda>p. pk_then (pickle_inode os e h slot p) (pickle_inodes os e h tab))
      (slot_bytes h slot @ table_bytes h tab)"
    by (intro emits_then emits_inode os Cons) (use Cons.prems in auto)
  then show ?case by (simp add: table_bytes_def)
qed

text \<open>Rotating the queue \<open>length\<close> times writes it and gives it back.\<close>

lemma pickle_queue_at:
  assumes os: "writes_ok os"
  shows "pk_at (q @ done') acc p \<Longrightarrow>
    \<exists>p'. pickle_queue os (length q) p = Some (p', None) \<and> pk_at (done' @ q) (acc @ queue_bytes q) p'"
proof (induction q arbitrary: done' acc p)
  case (Cons x q)
  obtain p1 where p1: "write_and_hash os (enc_u64 x) p = Some (p1, None)"
    "pk_at ((x # q) @ done') (acc @ enc_u64 x) p1"
    using emits_write [OF os, of "(x # q) @ done'" "enc_u64 x"] Cons.prems unfolding emits_def by blast
  have "pk_at (q @ done' @ [x]) (acc @ enc_u64 x) (p1\<lparr>pk_queue := (q @ done') @ [x]\<rparr>)"
    using p1(2) by (simp add: pk_at_def)
  from Cons.IH [OF this] obtain p2 where
    "pickle_queue os (length q) (p1\<lparr>pk_queue := (q @ done') @ [x]\<rparr>) = Some (p2, None)"
    "pk_at ((done' @ [x]) @ q) ((acc @ enc_u64 x) @ queue_bytes q) p2" by auto
  moreover have "pk_queue p = x # q @ done'" using Cons.prems by (simp add: pk_at_def)
  ultimately show ?case using p1(1) by (simp add: pk_then_def queue_bytes_def)
qed (simp add: queue_bytes_def)

lemma emits_queue:
  assumes "writes_ok os" shows "emits q (pickle_queue os (length q)) (queue_bytes q)"
  using pickle_queue_at [OF assms, of q "[]"] by (simp add: emits_def)

text \<open>The local queue of a saved state.\<close>

lemma emits_local_queue:
  assumes os: "writes_ok os"
  shows "emits q (\<lambda>p. map_option (\<lambda>(p', r). (p'\<lparr>pk_queue := pk_queue p\<rparr>, r))
      (pickle_queue os (length d) (p\<lparr>pk_queue := d\<rparr>))) (queue_bytes d)"
  unfolding emits_def
proof (intro allI impI)
  fix p acc assume p: "pk_at q acc p"
  then have "pk_at d acc (p\<lparr>pk_queue := d\<rparr>)" by (simp add: pk_at_def)
  with emits_queue [OF os, of d] obtain p' where
    "pickle_queue os (length d) (p\<lparr>pk_queue := d\<rparr>) = Some (p', None)" "pk_at d (acc @ queue_bytes d) p'"
    unfolding emits_def by blast
  with p show "\<exists>p'. map_option (\<lambda>(p', r). (p'\<lparr>pk_queue := pk_queue p\<rparr>, r))
      (pickle_queue os (length d) (p\<lparr>pk_queue := d\<rparr>)) = Some (p', None) \<and> pk_at q (acc @ queue_bytes d) p'"
    by (auto simp: pk_at_def)
qed

definition state_picklable :: "env \<Rightarrow> heap \<Rightarrow> u64 \<times> verifs2_state \<Rightarrow> bool" where
  "state_picklable e h = (\<lambda>(key, tab, dels, sb). table_picklable e h tab \<and> length dels < 2 ^ 64)"

lemma emits_state:
  assumes os: "writes_ok os" and st: "state_picklable e h st"
  shows "emits q (pickle_state os e h st) (state_bytes h st)"
proof -
  obtain key tab dels sb where st': "st = (key, tab, dels, sb)" by (cases st)
  with st have tab: "\<And>i. Some i \<in> set tab \<Longrightarrow> picklable e h i \<and> env_alloc e (GetPickledSize i)"
    by (simp add: state_picklable_def table_picklable_def)
  show ?thesis
    unfolding st' pickle_state_def state_bytes_def prod.case
    by (intro emits_then emits_write emits_table emits_local_queue os tab)
qed

lemma emits_states:
  assumes os: "writes_ok os"
  shows "\<forall>st \<in> set sts. state_picklable e h st \<Longrightarrow>
    emits q (pickle_states os e h sts) (concat (map (state_bytes h) sts))"
proof (induction sts)
  case Nil
  then show ?case using emits_Nil by (simp add: pickle_states_def)
next
  case (Cons st sts)
  then have "emits q (\<lambda>p. pk_then (pickle_state os e h st p) (pickle_states os e h sts))
      (state_bytes h st @ concat (map (state_bytes h) sts))"
    by (intro emits_then emits_state os) auto
  then show ?case by simp
qed

text \<open>A state that can be written and loaded.\<close>

definition fs_picklable :: "os \<Rightarrow> env \<Rightarrow> fs \<Rightarrow> bool" where
  "fs_picklable os e s \<longleftrightarrow> table_picklable e (xheap s) (Inodes s) \<and> length (DeletedInodes s) < 2 ^ 64 \<and>
     length (state_pool s) < 2 ^ 64 \<and> (\<forall>st \<in> set (state_pool s). state_picklable e (xheap s) st) \<and>
     mset (os_order os (state_pool s)) = mset (state_pool s) \<and> distinct (map fst (state_pool s))"

lemma emits_body:
  assumes os: "writes_ok os" and s: "fs_picklable os e s"
  shows "emits (DeletedInodes s) (pickle_body os e s) (fs_bytes os s)"
proof -
  let ?q = "DeletedInodes s"
  have tab: "\<And>i. Some i \<in> set (Inodes s) \<Longrightarrow> picklable e (xheap s) i \<and> env_alloc e (GetPickledSize i)"
    using s by (simp add: fs_picklable_def table_picklable_def)
  have sts: "\<forall>st \<in> set (os_order os (state_pool s)). state_picklable e (xheap s) st"
    using s by (metis fs_picklable_def set_mset_mset)
  have len: "emits ?q (\<lambda>p. write_and_hash os (enc_u64 (of_nat (length (pk_queue p)))) p)
      (enc_u64 (of_nat (length ?q)))"
    using emits_write [OF os, of ?q "enc_u64 (of_nat (length ?q))"]
    by (auto simp: emits_def pk_at_def)
  have que: "emits ?q (\<lambda>p. pickle_queue os (length (pk_queue p)) p) (queue_bytes ?q)"
    using emits_queue [OF os, of ?q] by (auto simp: emits_def pk_at_def)
  show ?thesis
    unfolding pickle_body_def [abs_def] fs_bytes_def get_state_pool_def
    by (intro emits_then emits_write emits_table emits_states len que os tab sts)
qed

section \<open>Loading\<close>

definition loaded :: "heap \<Rightarrow> heap \<Rightarrow> Inode \<Rightarrow> Inode \<Rightarrow> bool" where
  "loaded h h1 i j \<longleftrightarrow> same_view h i h1 j \<and> inode_ok j \<and> in_heap h1 (m_xattr j)"

lemma loaded_extends: "loaded h h1 i j \<Longrightarrow> extends h1 h2 \<Longrightarrow> loaded h h2 i j"
  by (auto simp: loaded_def same_view_def extends_view extends_in_heap)

text \<open>The objects of the existing slots, in order, and nothing for the others.\<close>

definition existing :: "Inode option list \<Rightarrow> Inode list" where
  "existing tab = map the (filter (\<lambda>x. x \<noteq> None) tab)"

lemma existing_simps [simp]:
  "existing [] = []" "existing (None # tab) = existing tab" "existing (Some i # tab) = i # existing tab"
  by (simp_all add: existing_def)

definition table_loaded :: "heap \<Rightarrow> heap \<Rightarrow> Inode option list \<Rightarrow> Inode option list \<Rightarrow> bool" where
  "table_loaded h h1 tab tab' \<longleftrightarrow>
     (\<exists>js. tab' = map Some js \<and> list_all2 (loaded h h1) (existing tab) js)"

lemma table_loaded_extends: "table_loaded h h1 tab tab' \<Longrightarrow> extends h1 h2 \<Longrightarrow> table_loaded h h2 tab tab'"
  unfolding table_loaded_def by (metis list_all2_mono loaded_extends)

lemma PickleObj_nonempty:
  assumes "PickleObj h i = Some b" shows "b \<noteq> []"
proof -
  have base: "Inode_Pickle h i = Some b0 \<Longrightarrow> b0 \<noteq> []" for b0
    by (auto simp: Inode_Pickle_def split: Option.bind_splits)
  show ?thesis
    using assms base
    by (cases "m_obj i"; cases "Inode_Pickle h i")
      (auto simp: PickleObj_def File_Pickle_def Directory_Pickle_def SymLink_Pickle_def
        SpecialInode_Pickle_def split: Option.bind_splits)
qed

lemma get_inode_state_enc [simp]:
  "get_inode_state (enc_inode_state ex m @ rest) = Some ((ex, m), rest)"
  using inode_state.get_enc [of "(ex, m)" rest] by simp

lemma load_inodes_ok:
  assumes "\<forall>i. Some i \<in> set tab \<longrightarrow> picklable e h i" "heap_wf h0"
  shows "\<exists>js h1. load_inodes e (length tab) (table_bytes h tab @ rest, acc, h0) =
      Some ((rest, acc @ map Some js, h1), None) \<and>
    list_all2 (loaded h h1) (existing tab) js \<and> heap_wf h1 \<and> extends h0 h1"
  using assms
proof (induction tab arbitrary: acc h0)
  case Nil
  then show ?case by (auto simp: table_bytes_def existing_simps intro!: exI [of _ "[]"] exI [of _ h0])
next
  case (Cons slot tab)
  let ?rest = "table_bytes h tab @ rest"
  show ?case
  proof (cases slot)
    case None
    have "load_inodes e (length (slot # tab)) (table_bytes h (slot # tab) @ rest, acc, h0) =
        load_inodes e (length tab) (?rest, acc, h0)"
      by (simp add: None table_bytes_def slot_bytes_def)
    with Cons.IH [of h0 acc] Cons.prems None show ?thesis by (simp add: existing_simps)
  next
    case (Some i)
    then have pk: "picklable e h i" using Cons.prems by simp
    then obtain b where b: "PickleObj h i = Some b" "length b < 2 ^ 64" by (auto simp: picklable_def)
    have ub: "unat (of_nat (length b) :: size_t) = length b" using b(2) by (rule unat_of_nat_64)
    then have nz: "(of_nat (length b) :: size_t) \<noteq> 0" using PickleObj_nonempty [OF b(1)] by auto
    obtain h1 j where l: "load_object e (GetMode i) (b @ ?rest) h0 = Some (Inr (of_nat (length b), h1, j))"
      "loads_as h i h0 h1 j" by (rule load_object_ok [OF pk b(1) Cons.prems(2)])
    then have h1: "heap_wf h1" "extends h0 h1" and lj: "loaded h h1 i j"
      by (simp_all add: loads_as_def loaded_def)
    have step: "load_inodes e (length (slot # tab)) (table_bytes h (slot # tab) @ rest, acc, h0) =
        load_inodes e (length tab) (?rest, acc @ [Some j], h1)"
      using l(1) nz ub by (simp add: Some b table_bytes_def slot_bytes_def)
    obtain js h2 where ih: "load_inodes e (length tab) (?rest, acc @ [Some j], h1) =
        Some ((rest, (acc @ [Some j]) @ map Some js, h2), None)"
      "list_all2 (loaded h h2) (existing tab) js" "heap_wf h2" "extends h1 h2"
      using Cons.IH [OF _ h1(1), of "acc @ [Some j]"] Cons.prems(1) by auto
    have "loaded h h2 i j" by (rule loaded_extends [OF lj ih(4)])
    with ih step Some extends_trans [OF h1(2) ih(4)] show ?thesis
      by (intro exI [of _ "j # js"] exI [of _ h2]) (simp add: existing_simps)
  qed
qed

lemma load_table_ok:
  assumes tab: "table_picklable e h tab" and h0: "heap_wf h0"
  obtains tab' h1 where
    "load_inodes e (unat (of_nat (length tab) :: size_t)) (table_bytes h tab @ rest, [], h0) =
      Some ((rest, tab', h1), None)"
    "table_loaded h h1 tab tab'" "heap_wf h1" "extends h0 h1"
proof -
  have n: "unat (of_nat (length tab) :: size_t) = length tab"
    using tab by (intro unat_of_nat_64) (simp add: table_picklable_def)
  from load_inodes_ok [of tab e h h0 rest "[]"] tab h0 that n show ?thesis
    by (auto simp: table_picklable_def table_loaded_def)
qed

lemma load_queue_ok: "load_queue (length q) (queue_bytes q @ rest, acc) = Some (rest, acc @ q)"
  by (induction q arbitrary: acc) (simp_all add: queue_bytes_def)

definition state_loaded :: "heap \<Rightarrow> heap \<Rightarrow> u64 \<times> verifs2_state \<Rightarrow> u64 \<times> verifs2_state \<Rightarrow> bool" where
  "state_loaded h h1 = (\<lambda>(k, tab, dels, sb) (k', tab', dels', sb').
     k' = k \<and> dels' = dels \<and> sb' = sb \<and> table_loaded h h1 tab tab')"

lemma state_loaded_extends: "state_loaded h h1 st st' \<Longrightarrow> extends h1 h2 \<Longrightarrow> state_loaded h h2 st st'"
  by (auto simp: state_loaded_def table_loaded_extends)

lemma load_states_ok:
  assumes "\<forall>st \<in> set sts. state_picklable e h st" "heap_wf h0" "distinct (map fst sts)"
    "fst ` set sts \<inter> fst ` set pool = {}"
  shows "\<exists>sts' h1. load_states e (length sts) (concat (map (state_bytes h) sts) @ rest, h0, pool) =
      Some ((rest, h1, pool @ sts'), None) \<and>
    list_all2 (state_loaded h h1) sts sts' \<and> heap_wf h1 \<and> extends h0 h1"
  using assms
proof (induction sts arbitrary: h0 pool)
  case Nil
  then show ?case by (auto intro!: exI [of _ "[]"] exI [of _ h0])
next
  case (Cons st sts)
  obtain key tab dels sb where st: "st = (key, tab, dels, sb)" by (cases st)
  have tab: "table_picklable e h tab" and dl: "length dels < 2 ^ 64"
    using Cons.prems(1) by (simp_all add: st state_picklable_def)
  have n: "unat (of_nat (length dels) :: size_t) = length dels" using dl by (rule unat_of_nat_64)
  let ?more = "concat (map (state_bytes h) sts) @ rest"
  let ?rest = "enc_u64 (of_nat (length dels)) @ queue_bytes dels @ enc_statvfs sb @ ?more"
  obtain tab' h1 where t: "load_inodes e (unat (of_nat (length tab) :: size_t)) (table_bytes h tab @ ?rest, [], h0) =
      Some ((?rest, tab', h1), None)" "table_loaded h h1 tab tab'" "heap_wf h1" "extends h0 h1"
    by (rule load_table_ok [OF tab Cons.prems(2)])
  let ?new = "(key, tab', dels, sb)"
  have none: "map_of pool key = None" using Cons.prems(4) by (auto simp: st map_of_eq_None_iff)
  have step: "load_states e (length (st # sts)) (concat (map (state_bytes h) (st # sts)) @ rest, h0, pool) =
      load_states e (length sts) (?more, h1, pool @ [?new])"
    using t(1) n load_queue_ok [of dels "enc_statvfs sb @ ?more" "[]"] none
    by (simp add: st state_bytes_def insert_state_def)
  obtain sts' h2 where ih: "load_states e (length sts) (?more, h1, pool @ [?new]) =
      Some ((rest, h2, (pool @ [?new]) @ sts'), None)"
    "list_all2 (state_loaded h h2) sts sts'" "heap_wf h2" "extends h1 h2"
    using Cons.IH [OF _ t(3), of "pool @ [?new]"] Cons.prems by (auto simp: st)
  have "state_loaded h h2 st ?new"
    using table_loaded_extends [OF t(2) ih(4)] by (simp add: st state_loaded_def)
  with ih step extends_trans [OF t(4) ih(4)] show ?case
    by (intro exI [of _ "?new # sts'"] exI [of _ h2]) simp
qed

section \<open>The file\<close>

text \<open>
  A system on which the calls succeed, SHA-256 digests have 32 bytes, and the configuration file
  names another file.
\<close>

definition system_ok :: "os \<Rightarrow> env \<Rightarrow> string \<Rightarrow> disk \<Rightarrow> bool" where
  "system_ok os e path d \<longleftrightarrow> writes_ok os \<and> os_open os VERIFS_PICKLE_CFG = 0 \<and> os_open os path = 0 \<and>
     os_read os VERIFS_PICKLE_CFG = 0 \<and> os_read os path = 0 \<and> os_lseek os = 0 \<and> os_fstat os = 0 \<and>
     os_mmap os = 0 \<and> os_sha_init os \<and> (\<forall>x. length (os_sha256 os x) = 32) \<and>
     env_alloc e (of_nat PATH_MAX) \<and> env_alloc e (of_nat (length path) + 1) \<and>
     d VERIFS_PICKLE_CFG = Some (bytes_of_string path) \<and> path \<noteq> VERIFS_PICKLE_CFG \<and>
     CHR 0x00 \<notin> set path \<and> length path \<le> PATH_MAX"

lemma of_char_eq_0: "(of_char c :: byte) = 0 \<longleftrightarrow> c = CHR 0x00"
proof -
  have "string_of_bytes (bytes_of_string [c]) = [c]" by simp
  then have "char_of (unat (of_char c :: byte)) = c"
    by (simp add: string_of_bytes_def bytes_of_string_def)
  moreover have "char_of (0 :: nat) = CHR 0x00" by (simp add: char_of_def)
  ultimately show ?thesis by auto
qed

lemma fetch_filepath_ok:
  assumes "system_ok os e path d" "d' VERIFS_PICKLE_CFG = d VERIFS_PICKLE_CFG"
  shows "fetch_filepath os e VERIFS_PICKLE_CFG d' = Inr (Some path)"
    "fetch_filepath os e VERIFS_LOAD_CFG d' = Inr (Some path)"
proof -
  have tw: "takeWhile (\<lambda>b. b \<noteq> 0) (bytes_of_string path) = bytes_of_string path"
    using assms(1) by (intro takeWhile_eq_all_conv [THEN iffD2])
      (auto simp: bytes_of_string_def of_char_eq_0 system_ok_def)
  from assms show "fetch_filepath os e VERIFS_PICKLE_CFG d' = Inr (Some path)"
    by (simp add: fetch_filepath_def open_rdonly_def system_ok_def tw)
  then show "fetch_filepath os e VERIFS_LOAD_CFG d' = Inr (Some path)"
    by (simp add: VERIFS_LOAD_CFG_def VERIFS_PICKLE_CFG_def)
qed

definition file_bytes :: "os \<Rightarrow> fs \<Rightarrow> byte list" where
  "file_bytes os s =
     enc_header (of_nat (header_size + length (fs_bytes os s))) (os_sha256 os (fs_bytes os s)) @ fs_bytes os s"

lemma fs_bytes_nonempty: "fs_bytes os s \<noteq> []"
proof
  assume "fs_bytes os s = []"
  then have "length (enc_statvfs (m_stbuf s)) = 0" by (simp add: fs_bytes_def)
  then show False by simp
qed

lemma pickle_verifs2_ok:
  assumes sys: "system_ok os e path d" and s: "fs_picklable os e s"
  shows "pickle_verifs2 os e s d = Some (0, s, d(path \<mapsto> file_bytes os s))"
proof -
  let ?p0 = "\<lparr>pk_file = [], pk_pos = header_size, pk_hash = [], pk_queue = DeletedInodes s\<rparr>"
  have w: "writes_ok os" using sys by (simp add: system_ok_def)
  have "pk_at (DeletedInodes s) [] ?p0" by (simp add: pk_at_def)
  with emits_body [OF w s] obtain q where q: "pickle_body os e s ?p0 = Some (q, None)"
    "pk_at (DeletedInodes s) (fs_bytes os s) q" unfolding emits_def by fastforce
  have run: "pickle_file_system os e s ?p0 = Some (0, q)"
    by (simp add: pickle_file_system_def q)
  have hl: "length (enc_header x (os_sha256 os y)) = header_size" for x y
    using sys by (simp add: enc_header_def header_size_def system_ok_def)
  have "spec_write 0 h (replicate header_size 0 @ b) = h @ b" if "length h = header_size" for h b
    using that by (simp add: spec_write_def)
  moreover have "pk_file q = replicate header_size 0 @ fs_bytes os s" "pk_pos q = header_size + length (fs_bytes os s)"
    "pk_hash q = fs_bytes os s" "pk_queue q = DeletedInodes s"
    using q(2) fs_bytes_nonempty [of os s] by (simp_all add: pk_at_def)
  moreover have "0 < header_size" by (simp add: header_size_def)
  ultimately show ?thesis
    using run sys hl fetch_filepath_ok(1) [OF sys, of d] w
    by (simp add: pickle_verifs2_def system_ok_def file_bytes_def writes_ok_def)
qed

lemma hash_blocks_all: "hash_blocks fed rest = fed @ rest"
proof (induction fed rest rule: hash_blocks.induct)
  case (1 fed rest)
  then show ?case by (subst hash_blocks.simps) auto
qed

lemma verify_ok:
  assumes sys: "system_ok os e path d" and len: "header_size + length (fs_bytes os s) < 2 ^ 64"
  shows "verify_state_file os path (file_bytes os s) = 0"
proof -
  let ?n = "header_size + length (fs_bytes os s)" and ?h = "os_sha256 os (fs_bytes os s)"
  have hl: "length ?h = 32" using sys by (simp add: system_ok_def)
  have "get_u64 (enc_u64 (of_nat ?n) @ ?h @ fs_bytes os s) = Some (of_nat ?n, ?h @ fs_bytes os s)" by simp
  then have sz: "of_nat (le_nat (take 8 (file_bytes os s))) = (of_nat ?n :: size_t)"
    by (simp add: get_u64_def get_bytes_def file_bytes_def enc_header_def)
  have "take 32 (drop 8 (file_bytes os s)) = ?h" "drop header_size (file_bytes os s) = fs_bytes os s"
    "length (file_bytes os s) = ?n"
    using hl by (simp_all add: file_bytes_def enc_header_def header_size_def)
  with sz sys show ?thesis
    by (simp add: verify_state_file_def verify_file_size_def verify_file_integrity_def hash_blocks_all
        system_ok_def)
qed

lemma load_file_system_ok:
  assumes s: "fs_picklable os e s" and h: "heap_wf (xheap t)" and t: "Inodes t = []" "DeletedInodes t = []"
    "state_pool t = []"
  obtains t' r where "load_file_system e (fs_bytes os s) t = Some (r, t')" "m_stbuf t' = m_stbuf s"
    "DeletedInodes t' = DeletedInodes s" "table_loaded (xheap s) (xheap t') (Inodes s) (Inodes t')"
    "list_all2 (state_loaded (xheap s) (xheap t')) (os_order os (state_pool s)) (state_pool t')"
    "heap_wf (xheap t')"
proof -
  let ?sts = "os_order os (state_pool s)" and ?h = "xheap s"
  have perm: "mset ?sts = mset (state_pool s)" using s by (simp add: fs_picklable_def)
  have len: "length ?sts = length (state_pool s)" using perm by (rule mset_eq_length)
  have "mset (map fst ?sts) = mset (map fst (state_pool s))" by (simp only: mset_map perm)
  then have "distinct (map fst ?sts) = distinct (map fst (state_pool s))" by (rule mset_eq_imp_distinct_iff)
  then have sts: "\<forall>st \<in> set ?sts. state_picklable e ?h st" "distinct (map fst ?sts)"
    using s mset_eq_setD [OF perm] by (simp_all add: fs_picklable_def)
  have n: "unat (of_nat (length (DeletedInodes s)) :: size_t) = length (DeletedInodes s)"
    "unat (of_nat (length (state_pool s)) :: size_t) = length ?sts"
    using s by (simp_all add: fs_picklable_def unat_of_nat_64 len)
  let ?r2 = "enc_u64 (of_nat (length (state_pool s))) @ concat (map (state_bytes ?h) ?sts)"
  let ?r1 = "enc_u64 (of_nat (length (DeletedInodes s))) @ queue_bytes (DeletedInodes s) @ ?r2"
  have tp: "table_picklable e ?h (Inodes s)" using s by (simp add: fs_picklable_def)
  obtain tab h1 where l: "load_inodes e (unat (of_nat (length (Inodes s)) :: size_t))
      (table_bytes ?h (Inodes s) @ ?r1, [], xheap t) = Some ((?r1, tab, h1), None)"
    "table_loaded ?h h1 (Inodes s) tab" "heap_wf h1" "extends (xheap t) h1"
    by (rule load_table_ok [OF tp h])
  obtain sts' h2 where l2: "load_states e (length ?sts) (concat (map (state_bytes ?h) ?sts), h1, []) =
      Some (([], h2, sts'), None)" "list_all2 (state_loaded ?h h2) ?sts sts'" "heap_wf h2" "extends h1 h2"
    using load_states_ok [OF sts(1) l(3) sts(2), of "[]" "[]"] by auto
  have "load_file_system e (fs_bytes os s) t = Some (int (length (fs_bytes os s)),
      t\<lparr>m_stbuf := m_stbuf s, Inodes := tab, xheap := h2, DeletedInodes := DeletedInodes s, state_pool := sts'\<rparr>)"
    using l(1) l2(1) load_queue_ok [of "DeletedInodes s" ?r2 "[]"] t n
    by (simp add: load_file_system_def fs_bytes_def)
  from that [OF this] l2 table_loaded_extends [OF l(2) l2(4)] show ?thesis by simp
qed

end
