(* ===== verification/Demo.thy ===== *)
theory Demo
  imports Fs_Invariant Checkpoint
begin

text \<open>
  A small concrete file system: the null inode, the root directory with one entry \<open>a\<close>, and the
  file it names, whose content is the two bytes \<open>hi\<close>. The witnesses of the properties are
  evaluated on it.
\<close>

definition demo_env :: env where
  "demo_env = \<lparr>env_now = \<lparr>tv_sec = 100, tv_nsec = 5\<rparr>, env_alloc = (\<lambda>_. True), env_new = True,
     env_junk = (\<lambda>_. 0xAA), env_param = zero_entry_param, env_inplace = True\<rparr>"

definition demo_ctx :: fuse_ctx where
  "demo_ctx = \<lparr>ctx_uid = 1000, ctx_gid = 100\<rparr>"

text \<open>An inode with the given number, mode, link count, size, blocks and payload.\<close>

definition demo_inode :: "ino_t \<Rightarrow> mode_t \<Rightarrow> u64 \<Rightarrow> off_t \<Rightarrow> u64 \<Rightarrow> inode_obj \<Rightarrow> Inode" where
  "demo_inode ino mode nlink sz blocks ob =
     \<lparr>m_markedForDeletion = False, m_nlookup = 1,
      m_fuseEntryParam = zero_entry_param\<lparr>e_ino := ino, e_attr := zero_stat\<lparr>st_ino := ino, st_mode := mode,
        st_nlink := nlink, st_size := sz, st_blocks := blocks, st_blksize := BufBlockSize\<rparr>\<rparr>,
      m_xattr = [], m_obj = ob\<rparr>"

definition demo_null :: Inode where
  "demo_null = demo_inode 0 0 0 0 0 (SpecialInode SPECIAL_INODE_TYPE_NO_BLOCK)"

definition demo_root :: Inode where
  "demo_root = demo_inode 1 0x41ED 2 244 1 (Directory [(''.'', 1), (''..'', 1), (''a'', 2)])"

definition demo_file :: Inode where
  "demo_file = demo_inode 2 0x81A4 1 2 1 (File ([104, 105] @ replicate 510 0))"

definition demo_stbuf :: statvfs where
  "demo_stbuf = \<lparr>f_bsize = 512, f_frsize = 512, f_blocks = 100, f_bfree = 98, f_bavail = 98, f_files = 10,
     f_ffree = 7, f_favail = 7, f_fsid = kFilesystemId, f_flag = 0, f_namemax = kMaxFilenameLength\<rparr>"

definition demo_fs :: fs where
  "demo_fs = \<lparr>Inodes = [Some demo_null, Some demo_root, Some demo_file], DeletedInodes = [],
     m_stbuf = demo_stbuf, xheap = empty_heap, readdirStates = [], state_pool = []\<rparr>"

lemma demo_env_simps [simp]:
  "env_now demo_env = \<lparr>tv_sec = 100, tv_nsec = 5\<rparr>" "env_alloc demo_env n" "env_new demo_env"
  "env_junk demo_env k = 0xAA" "env_param demo_env = zero_entry_param" "env_inplace demo_env"
  by (simp_all add: demo_env_def)

lemma demo_inode_simps [simp]:
  "m_markedForDeletion (demo_inode ino mode nlink sz blocks ob) = False"
  "m_nlookup (demo_inode ino mode nlink sz blocks ob) = 1"
  "m_xattr (demo_inode ino mode nlink sz blocks ob) = []"
  "m_obj (demo_inode ino mode nlink sz blocks ob) = ob"
  "GetIno (demo_inode ino mode nlink sz blocks ob) = ino"
  "GetMode (demo_inode ino mode nlink sz blocks ob) = mode"
  "Size (demo_inode ino mode nlink sz blocks ob) = sz"
  "UsedBlocks (demo_inode ino mode nlink sz blocks ob) = blocks"
  "st_nlink (i_attr (demo_inode ino mode nlink sz blocks ob)) = nlink"
  "st_mode (i_attr (demo_inode ino mode nlink sz blocks ob)) = mode"
  "st_size (i_attr (demo_inode ino mode nlink sz blocks ob)) = sz"
  "st_blocks (i_attr (demo_inode ino mode nlink sz blocks ob)) = blocks"
  "st_blksize (i_attr (demo_inode ino mode nlink sz blocks ob)) = BufBlockSize"
  by (simp_all add: demo_inode_def GetIno_def GetMode_def Size_def UsedBlocks_def)

lemma demo_inodes_ok: "inode_ok demo_null" "inode_ok demo_root" "inode_ok demo_file"
  by (simp_all add: demo_null_def demo_root_def demo_file_def inode_ok_def mode_matches_def Let_def
      dir_ok_def dir_bytes_def file_ok_def blocks_for_def)

lemma demo_fs_simps [simp]:
  "Inodes demo_fs = [Some demo_null, Some demo_root, Some demo_file]" "DeletedInodes demo_fs = []"
  "m_stbuf demo_fs = demo_stbuf" "xheap demo_fs = empty_heap" "readdirStates demo_fs = []"
  "state_pool demo_fs = []" "GetInode 1 demo_fs = Some demo_root" "GetInode 2 demo_fs = Some demo_file"
  "GetInode 0 demo_fs = Some demo_null"
  by (simp_all add: demo_fs_def GetInode_def)

lemma demo_fs_ok: "fs_ok demo_fs"
proof -
  have "table_ok (Inodes demo_fs)"
    using demo_inodes_ok
    by (auto simp: table_ok_def less_Suc_eq demo_null_def demo_root_def demo_file_def)
  moreover have "queue_ok (Inodes demo_fs) (DeletedInodes demo_fs)"
    by (auto simp: queue_ok_def less_Suc_eq)
  moreover have "counters_ok (Inodes demo_fs) (m_stbuf demo_fs)"
    by (simp add: counters_ok_def demo_stbuf_def)
  ultimately show ?thesis by (simp add: fs_ok_def snapshot_ok_def)
qed

lemma demo_live [simp]: "live 1 demo_fs = Some demo_root" "live 2 demo_fs = Some demo_file"
  by (simp_all add: live_def HasNoLinks_def demo_root_def demo_file_def)

lemma demo_kinds [simp]: "is_Directory demo_root" "\<not> is_Directory demo_file" "is_File demo_file"
  "m_children demo_root = [(''.'', 1), (''..'', 1), (''a'', 2)]"
  by (simp_all add: is_Directory_def is_File_def demo_root_def demo_file_def m_children_def)

section \<open>A tree\<close>

text \<open>
  A second file system, with two directories below the root: \<open>d\<close>, which holds the empty file \<open>f\<close>, and
  the empty directory \<open>e\<close>, beside the file \<open>a\<close> of the first one.
\<close>

definition tree_root :: Inode where
  "tree_root = demo_inode 1 0x41ED 4 390 1
     (Directory [(''.'', 1), (''..'', 1), (''a'', 2), (''d'', 3), (''e'', 5)])"

definition tree_d :: Inode where
  "tree_d = demo_inode 3 0x41ED 2 244 1 (Directory [(''.'', 3), (''..'', 1), (''f'', 4)])"

definition tree_f :: Inode where
  "tree_f = demo_inode 4 0x81A4 1 0 0 (File [])"

definition tree_e :: Inode where
  "tree_e = demo_inode 5 0x41ED 2 171 1 (Directory [(''.'', 5), (''..'', 1)])"

definition demo_tree :: fs where
  "demo_tree = \<lparr>Inodes = [Some demo_null, Some tree_root, Some demo_file, Some tree_d, Some tree_f, Some tree_e],
     DeletedInodes = [], m_stbuf = demo_stbuf\<lparr>f_bfree := 96, f_bavail := 96, f_ffree := 4, f_favail := 4\<rparr>,
     xheap = empty_heap, readdirStates = [], state_pool = []\<rparr>"

lemma tree_inodes_ok: "inode_ok tree_root" "inode_ok tree_d" "inode_ok tree_f" "inode_ok tree_e"
  by (simp_all add: tree_root_def tree_d_def tree_f_def tree_e_def inode_ok_def mode_matches_def Let_def
      dir_ok_def dir_bytes_def file_ok_def blocks_for_def)

lemma demo_tree_simps [simp]:
  "DeletedInodes demo_tree = []"
  "m_stbuf demo_tree = demo_stbuf\<lparr>f_bfree := 96, f_bavail := 96, f_ffree := 4, f_favail := 4\<rparr>"
  "GetInode 0 demo_tree = Some demo_null" "GetInode 1 demo_tree = Some tree_root"
  "GetInode 2 demo_tree = Some demo_file" "GetInode 3 demo_tree = Some tree_d"
  "GetInode 4 demo_tree = Some tree_f" "GetInode 5 demo_tree = Some tree_e"
  by (simp_all add: demo_tree_def GetInode_def)

lemma demo_tree_ok: "fs_ok demo_tree"
proof -
  have "table_ok (Inodes demo_tree)"
    using demo_inodes_ok tree_inodes_ok
    by (auto simp: table_ok_def less_Suc_eq demo_tree_def demo_null_def demo_file_def tree_root_def tree_d_def
        tree_f_def tree_e_def)
  moreover have "queue_ok (Inodes demo_tree) (DeletedInodes demo_tree)"
    by (auto simp: queue_ok_def less_Suc_eq demo_tree_def)
  moreover have "counters_ok (Inodes demo_tree) (m_stbuf demo_tree)"
    by (simp add: counters_ok_def demo_stbuf_def demo_tree_def)
  ultimately show ?thesis by (simp add: fs_ok_def snapshot_ok_def demo_tree_def)
qed

lemma tree_live [simp]:
  "live 1 demo_tree = Some tree_root" "live 2 demo_tree = Some demo_file" "live 3 demo_tree = Some tree_d"
  "live 4 demo_tree = Some tree_f" "live 5 demo_tree = Some tree_e" "live 0 demo_tree = None"
  by (simp_all add: live_def HasNoLinks_def demo_null_def demo_file_def tree_root_def tree_d_def tree_f_def tree_e_def)

lemma tree_kinds [simp]:
  "is_Directory tree_root" "is_Directory tree_d" "is_Directory tree_e" "\<not> is_Directory tree_f" "is_File tree_f"
  "m_children tree_root = [(''.'', 1), (''..'', 1), (''a'', 2), (''d'', 3), (''e'', 5)]"
  "m_children tree_d = [(''.'', 3), (''..'', 1), (''f'', 4)]" "m_children tree_e = [(''.'', 5), (''..'', 1)]"
  by (simp_all add: is_Directory_def is_File_def tree_root_def tree_d_def tree_f_def tree_e_def m_children_def)

lemma tree_attrs [simp]:
  "st_nlink (i_attr tree_root) = 4" "st_nlink (i_attr tree_d) = 2" "st_nlink (i_attr tree_e) = 2"
  "st_nlink (i_attr tree_f) = 1" "st_nlink (i_attr demo_file) = 1"
  "UsedBlocks tree_root = 1" "UsedBlocks tree_d = 1" "UsedBlocks tree_e = 1"
  by (simp_all add: tree_root_def tree_d_def tree_f_def tree_e_def demo_file_def)

end
