(* ===== verification/Machine.thy ===== *)
theory Machine
  imports Handler_Safety Readdir State_File_Roundtrip Demo
begin

text \<open>
  The whole file system as a state machine: the ioctl entry point, a request of the kernel as a
  datatype, the dispatch that \<^verbatim>\<open>FuseRamFs::FuseOps\<close> sets up, a step relation on pairs of the file
  system state and the disk, and the states reachable from a mount.
\<close>

section \<open>Checkpoint, restore, pickle and load requests\<close>

text \<open>\<^verbatim>\<open>VERIFS2_IOC(n)\<close> is \<^verbatim>\<open>_IO('1', '1' + n)\<close>.\<close>

definition VERIFS2_IOC :: "u32 \<Rightarrow> u32" where
  "VERIFS2_IOC n = push_bit 8 0x31 OR (0x31 + n)"

definition VERIFS_CHECKPOINT :: u32 where "VERIFS_CHECKPOINT = VERIFS2_IOC 1"
definition VERIFS_RESTORE :: u32 where "VERIFS_RESTORE = VERIFS2_IOC 2"
definition VERIFS_PICKLE :: u32 where "VERIFS_PICKLE = VERIFS2_IOC 3"
definition VERIFS_LOAD :: u32 where "VERIFS_LOAD = VERIFS2_IOC 4"

lemmas ioctl_codes = VERIFS_CHECKPOINT_def VERIFS_RESTORE_def VERIFS_PICKLE_def VERIFS_LOAD_def VERIFS2_IOC_def

definition FuseIoctl ::
    "os \<Rightarrow> env \<Rightarrow> u32 \<Rightarrow> u64 \<Rightarrow> fs \<times> disk \<Rightarrow> (reply list \<times> notify list \<times> fs \<times> disk) option" where
  "FuseIoctl os e cmd arg = (\<lambda>(s, d). do {
     (ret, notes, s', d') \<leftarrow>
       (if cmd = VERIFS_CHECKPOINT
        then map_option (\<lambda>(ret, s'). (ret, [], s', d)) (checkpoint e arg s)
        else if cmd = VERIFS_RESTORE
        then map_option (\<lambda>(ret, notes, s'). (ret, notes, s', d)) (restore e arg s)
        else if cmd = VERIFS_PICKLE
        then map_option (\<lambda>(ret, s', d'). (ret, [], s', d')) (pickle_verifs2 os e s d)
        else if cmd = VERIFS_LOAD
        then map_option (\<lambda>(ret, s'). (ret, [], s', d)) (load_verifs2 os e s d)
        else Some (ENOSYS, [], s, d));
     Some ([if ret = 0 then ReplyIoctl else ReplyErr (- ret)], notes, s', d')
   })"

section \<open>Requests\<close>

datatype request =
    Req_Lookup ino_t string
  | Req_Forget ino_t u64
  | Req_GetAttr ino_t
  | Req_SetAttr ino_t stat u32
  | Req_ReadLink ino_t
  | Req_Mknod fuse_ctx ino_t string mode_t u64
  | Req_Mkdir fuse_ctx ino_t string mode_t
  | Req_Unlink ino_t string
  | Req_Rmdir ino_t string
  | Req_Symlink fuse_ctx string ino_t string
  | Req_Rename ino_t string ino_t string
  | Req_Link ino_t ino_t string
  | Req_Open ino_t
  | Req_Read ino_t size_t off_t
  | Req_Write ino_t "byte list option" off_t
  | Req_Flush ino_t
  | Req_Release ino_t
  | Req_Fsync ino_t
  | Req_OpenDir ino_t
  | Req_ReadDir ino_t size_t off_t
  | Req_ReleaseDir ino_t
  | Req_FsyncDir ino_t
  | Req_Statfs
  | Req_SetXAttr ino_t string "byte list" u32
  | Req_GetXAttr ino_t string size_t
  | Req_ListXAttr ino_t size_t
  | Req_RemoveXAttr ino_t string
  | Req_Access fuse_ctx ino_t u32
  | Req_Create fuse_ctx ino_t string mode_t
  | Req_GetLock ino_t
  | Req_Ioctl u32 u64

text \<open>What one request sees of the outside.\<close>

record world =
  w_env :: env
  w_rand :: "nat \<Rightarrow> u32"
  w_dsz :: "string \<Rightarrow> size_t"
  w_os :: os

text \<open>The dispatch table, on the file system alone; the ioctls also see the disk.\<close>

fun handle_fs :: "world \<Rightarrow> request \<Rightarrow> fs \<Rightarrow> outcome" where
  "handle_fs w (Req_Lookup p n) s = FuseLookup p n s"
| "handle_fs w (Req_Forget i n) s = FuseForget i n s"
| "handle_fs w (Req_GetAttr i) s = FuseGetAttr i s"
| "handle_fs w (Req_SetAttr i a f) s = FuseSetAttr (w_env w) i a f s"
| "handle_fs w (Req_ReadLink i) s = FuseReadLink i s"
| "handle_fs w (Req_Mknod c p n m r) s = FuseMknod (w_env w) c p n m r s"
| "handle_fs w (Req_Mkdir c p n m) s = FuseMkdir (w_env w) c p n m s"
| "handle_fs w (Req_Unlink p n) s = FuseUnlink (w_env w) p n s"
| "handle_fs w (Req_Rmdir p n) s = FuseRmdir (w_env w) p n s"
| "handle_fs w (Req_Symlink c l p n) s = FuseSymlink (w_env w) c l p n s"
| "handle_fs w (Req_Rename p n p' n') s = FuseRename (w_env w) p n p' n' s"
| "handle_fs w (Req_Link i p n) s = FuseLink i p n s"
| "handle_fs w (Req_Open i) s = FuseOpen i s"
| "handle_fs w (Req_Read i z off) s = FuseRead (w_env w) i z off s"
| "handle_fs w (Req_Write i b off) s = FuseWrite (w_env w) i b off s"
| "handle_fs w (Req_Flush i) s = FuseFlush i s"
| "handle_fs w (Req_Release i) s = FuseRelease i s"
| "handle_fs w (Req_Fsync i) s = FuseFsync i s"
| "handle_fs w (Req_OpenDir i) s = FuseOpenDir i s"
| "handle_fs w (Req_ReadDir i z off) s = FuseReadDir (w_env w) (w_rand w) (w_dsz w) i z off s"
| "handle_fs w (Req_ReleaseDir i) s = FuseReleaseDir i s"
| "handle_fs w (Req_FsyncDir i) s = FuseFsyncDir i s"
| "handle_fs w Req_Statfs s = FuseStatfs s"
| "handle_fs w (Req_SetXAttr i n v f) s = FuseSetXAttr (w_env w) i n v f s"
| "handle_fs w (Req_GetXAttr i n z) s = FuseGetXAttr i n z s"
| "handle_fs w (Req_ListXAttr i z) s = FuseListXAttr (w_env w) i z s"
| "handle_fs w (Req_RemoveXAttr i n) s = FuseRemoveXAttr i n s"
| "handle_fs w (Req_Access c i m) s = FuseAccess c i m s"
| "handle_fs w (Req_Create c p n m) s = FuseCreate (w_env w) c p n m s"
| "handle_fs w (Req_GetLock i) s = FuseGetLock i s"
| "handle_fs w (Req_Ioctl c a) s = None"

definition handle :: "world \<Rightarrow> request \<Rightarrow> fs \<times> disk \<Rightarrow> (reply list \<times> fs \<times> disk) option" where
  "handle w r = (\<lambda>(s, d).
     case r of
       Req_Ioctl c a \<Rightarrow>
         map_option (\<lambda>(rs, notes, s', d'). (rs, s', d')) (FuseIoctl (w_os w) (w_env w) c a (s, d))
     | _ \<Rightarrow> map_option (\<lambda>(rs, s'). (rs, s', d)) (handle_fs w r s))"

text \<open>
  What the kernel guarantees of the requests it sends, and that no state file is loaded: offsets
  and sizes stay below \<open>2 ^ 63\<close>, a mode change keeps the file type, a new entry fits the
  directory's size, a rename does not replace one of the directories it works in, a name to remove has been
  looked up, and the null inode, whose number the kernel is never given, is not forgotten.
\<close>

definition kernel_ok :: "request \<Rightarrow> fs \<Rightarrow> bool" where
  "kernel_ok r s =
     (case r of
        Req_SetAttr i a f \<Rightarrow>
          (flag_set f FUSE_SET_ATTR_SIZE \<longrightarrow> unat (st_size a) < 2 ^ 63) \<and>
          (flag_set f FUSE_SET_ATTR_MODE \<longrightarrow>
            (case GetInode i s of None \<Rightarrow> True | Some x \<Rightarrow> st_mode a AND S_IFMT = GetMode x AND S_IFMT))
      | Req_Mknod c p n m rdev \<Rightarrow> entry_fits p n s
      | Req_Mkdir c p n m \<Rightarrow> entry_fits p n s
      | Req_Create c p n m \<Rightarrow> entry_fits p n s
      | Req_Symlink c l p n \<Rightarrow> entry_fits p n s
      | Req_Link i p n \<Rightarrow> entry_fits p n s
      | Req_Rename p n p' n' \<Rightarrow> entry_fits p' n' s \<and> rename_target_ok p p' n' s
      | Req_Unlink p n \<Rightarrow> name_known p n s
      | Req_Forget i n \<Rightarrow> i \<noteq> 0
      | Req_Read i z off \<Rightarrow> unat off + unat z < 2 ^ 63
      | Req_Write i b off \<Rightarrow> (case b of None \<Rightarrow> True | Some d \<Rightarrow> unat off + length d < 2 ^ 63)
      | Req_Ioctl c a \<Rightarrow> c \<noteq> VERIFS_LOAD
      | _ \<Rightarrow> True)"

section \<open>Steps and reachable states\<close>

inductive step :: "fs \<times> disk \<Rightarrow> request \<Rightarrow> reply list \<Rightarrow> fs \<times> disk \<Rightarrow> bool" where
  serve: "kernel_ok r (fst st) \<Longrightarrow> handle w r st = Some (rs, st') \<Longrightarrow> step st r rs st'"

inductive_cases stepE: "step st r rs st'"

text \<open>A mount: the constructor and \<^verbatim>\<open>FuseInit\<close>, with at least two inodes configured (or none given).\<close>

inductive mounted :: "fs \<Rightarrow> bool" where
  mount: "inodes = 0 \<or> 2 \<le> unat inodes \<and> unat inodes < 2 ^ 63 \<Longrightarrow>
    FuseInit e umask gid uid (FuseRamFs_new blocks inodes) = Some s \<Longrightarrow> mounted s"

inductive reachable :: "fs \<times> disk \<Rightarrow> bool" where
  init: "mounted s \<Longrightarrow> reachable (s, d)"
| next_step: "reachable st \<Longrightarrow> step st r rs st' \<Longrightarrow> reachable st'"

end
