(* ===== verification/Machine_Invariant.thy ===== *)
theory Machine_Invariant
  imports Machine
begin

text \<open>
  The invariant of the global state holds in every reachable state: it is established by the
  constructor and \<^verbatim>\<open>FuseInit\<close> and kept by every request, extended attributes, listings and the
  ioctls (checkpoint, restore, pickle) included; saved states survive until they are restored.
\<close>

section \<open>Preservation\<close>

definition preserves :: "fs \<Rightarrow> outcome \<Rightarrow> bool" where
  "preserves s out \<longleftrightarrow> (\<forall>rs s'. out = Some (rs, s') \<longrightarrow> fs_ok s' \<and> state_pool s' = state_pool s)"

lemma served_preserves: "served s out \<Longrightarrow> preserves s out"
  by (auto simp: served_def preserves_def)

lemma preserves_live:
  assumes "fs_ok s" "\<And>i. live ino s = Some i \<Longrightarrow> preserves s (f i)"
  shows "preserves s (case live ino s of None \<Rightarrow> fuse_reply_err n s | Some i \<Rightarrow> f i)"
  using assms by (cases "live ino s") (simp_all add: preserves_def fuse_reply_err_def)

text \<open>Extended attributes only change the sorted list of names and addresses.\<close>

lemma SetXAttr_keeps:
  assumes "Inode_SetXAttrAndReply e name v flags pos (h, i) = Some (r, h', j)" "inode_ok i"
  shows "inode_ok j \<and> GetIno j = GetIno i"
proof -
  have sorted: "map_sorted (m_xattr i)" using assms(2) by (simp add: inode_ok_def)
  have "j = i \<or> (\<exists>x. j = i\<lparr>m_xattr := map_put name x (m_xattr i)\<rparr>)"
    using assms(1)
    by (auto simp: Inode_SetXAttrAndReply_def Let_def split: if_splits option.splits Option.bind_splits prod.splits)
  with sorted assms(2) show ?thesis by (auto simp: inode_ok_xattr)
qed

lemma FuseSetXAttr_preserves:
  assumes ok: "fs_ok s" shows "preserves s (FuseSetXAttr e ino name v flags s)"
  unfolding FuseSetXAttr_def
proof (rule preserves_live [OF ok], goal_cases)
  case (1 i)
  then have i: "GetInode ino s = Some i" using liveD by blast
  show ?case
    using SetXAttr_keeps [OF _ fs_ok_inode(1) [OF ok i]] fs_ok_put_inode [OF ok i]
    by (auto simp: preserves_def split: Option.bind_splits)
qed

lemma FuseXAttr_preserves:
  assumes ok: "fs_ok s"
  shows "preserves s (FuseGetXAttr ino name sz s)" "preserves s (FuseListXAttr e ino sz s)"
    "preserves s (FuseRemoveXAttr ino name s)"
proof -
  show "preserves s (FuseGetXAttr ino name sz s)" "preserves s (FuseListXAttr e ino sz s)"
    using ok by (auto simp: FuseGetXAttr_def FuseListXAttr_def preserves_def fuse_reply_err_def
        split: option.splits Option.bind_splits)
  show "preserves s (FuseRemoveXAttr ino name s)"
    unfolding FuseRemoveXAttr_def
  proof (rule preserves_live [OF ok], goal_cases)
    case (1 i)
    then have i: "GetInode ino s = Some i" using liveD by blast
    note iok = fs_ok_inode(1) [OF ok i]
    have "inode_ok (i\<lparr>m_xattr := map_erase name (m_xattr i)\<rparr>)"
      using iok by (intro inode_ok_xattr) (simp_all add: inode_ok_def)
    then show ?case
      using iok fs_ok_put_inode [OF ok i]
      by (auto simp: preserves_def Inode_RemoveXAttrAndReply_def split: option.splits)
  qed
qed

text \<open>A listing context stays within its copy of the children.\<close>

lemma fill_response_ctx:
  assumes "fill_response get dsz hb bs ctx b n acc = Some (ctx', ents)" "rd_it ctx \<le> length (rd_children ctx)"
  shows "rd_it ctx' \<le> length (rd_children ctx')"
  using assms
proof (induction "length (rd_children ctx) - rd_it ctx" arbitrary: ctx b n acc)
  case 0
  then show ?case using fill_response.simps [of get dsz hb bs ctx b n acc] by auto
next
  case (Suc m)
  let ?next = "ctx\<lparr>rd_it := Suc (rd_it ctx)\<rparr>"
  have lt: "rd_it ctx < length (rd_children ctx)" using Suc.hyps(2) by simp
  have m: "m = length (rd_children ?next) - rd_it ?next" "rd_it ?next \<le> length (rd_children ?next)"
    using Suc.hyps(2) by simp_all
  obtain name ino where c: "rd_children ctx ! rd_it ctx = (name, ino)" by (cases "rd_children ctx ! rd_it ctx")
  have skip: "fill_response get dsz hb bs ?next b n acc = Some (ctx', ents) \<Longrightarrow> ?case"
    using Suc.hyps(1) [OF m(1) _ m(2)] by simp
  have more: "fill_response get dsz hb bs (?next\<lparr>rd_cookie := k\<rparr>) b' n' acc' = Some (ctx', ents) \<Longrightarrow> ?case"
    for k b' n' acc'
    using Suc.hyps(1) [of "?next\<lparr>rd_cookie := k\<rparr>" b' n' acc'] m by simp
  show ?case
    using Suc.prems(1) lt c skip more
    by (subst (asm) fill_response.simps) (auto simp: Let_def split: option.splits if_splits)
qed

lemma FuseReadDir_preserves:
  assumes ok: "fs_ok s" shows "preserves s (FuseReadDir e rand dsz ino sz off s)"
  unfolding FuseReadDir_def
proof (rule preserves_live [OF ok], goal_cases)
  case (1 dir)
  have prep: "fs_ok s1 \<and> state_pool s1 = state_pool s"
    if "PrepareReaddir rand dir off s = Some (Inr (key, s1))" for key s1
    using that ok
    by (auto simp: PrepareReaddir_def fs_ok_def Let_def split: if_splits option.splits Option.bind_splits)
  have put: "fs_ok (RecycleStates (put_ctx key ctx' s1))"
    if "fs_ok s1" "map_of (readdirStates s1) key = Some ctx"
      "fill_response get dsz hb bs ctx b n acc = Some (ctx', ents)" for key s1 ctx ctx' get hb bs b n acc ents
  proof -
    have "rd_it ctx \<le> length (rd_children ctx)"
      using that(1) map_of_SomeD [OF that(2)] by (auto simp: fs_ok_def)
    from fill_response_ctx [OF that(3) this] that(1) show ?thesis
      by (auto simp: fs_ok_def RecycleStates_def put_ctx_def)
  qed
  have fill: "preserves s (do {
        ctx \<leftarrow> map_of (readdirStates s1) key;
        let bufSize = (if kReadDirBufSize < sz then kReadDirBufSize else sz);
        let hasbuf = env_alloc e bufSize;
        (ctx', ents) \<leftarrow> fill_response (\<lambda>k. GetInode k s1) dsz hasbuf bufSize ctx 0 0 [];
        Some ((if hasbuf then [] else [ReplyErr ENOMEM]) @ [ReplyDirents ents],
          RecycleStates (put_ctx key ctx' s1)) })"
    if s1: "fs_ok s1" "state_pool s1 = state_pool s" for key s1
    unfolding preserves_def
  proof (intro allI impI, goal_cases)
    case (1 rs s')
    then obtain ctx ctx' ents hb bs where "map_of (readdirStates s1) key = Some ctx"
      "fill_response (\<lambda>k. GetInode k s1) dsz hb bs ctx 0 0 [] = Some (ctx', ents)"
      "s' = RecycleStates (put_ctx key ctx' s1)"
      by (auto simp: Let_def split: Option.bind_splits)
    with put [OF s1(1)] s1(2) show ?case by (auto simp: RecycleStates_def put_ctx_def)
  qed
  show ?case
  proof (cases "PrepareReaddir rand dir off s")
    case None
    with ok show ?thesis by (simp add: preserves_def fuse_reply_err_def)
  next
    case (Some pr)
    with ok prep fill show ?thesis
      by (cases pr) (auto simp: fuse_reply_err_def preserves_def [of s "Some x" for x])
  qed
qed

section \<open>The ioctls\<close>

lemma copy_inode_same:
  assumes ok: "inode_ok i" and c: "copy_inode e i = Some r"
  shows "r = Inr i"
proof -
  have "copyable e i"
    using assms
    by (cases "m_obj i") (auto simp: copyable_def copy_inode_def inode_ok_def mode_matches_def Let_def is_kind_simps
        File_copy_def Directory_copy_def SymLink_copy_def SpecialInode_copy_def split: if_splits Option.bind_splits)
  from copy_inode_exact [OF this] c show ?thesis by simp
qed

lemma copy_inodes_same:
  "copy_inodes e tab = Some r \<Longrightarrow> \<forall>i. Some i \<in> set tab \<longrightarrow> inode_ok i \<Longrightarrow> r = Inr tab"
proof (induction e tab arbitrary: r rule: copy_inodes.induct)
  case (2 e rest)
  then obtain r' where "copy_inodes e rest = Some r'" "r = map_sum id (\<lambda>cs. None # cs) r'" by auto
  with 2 show ?case by simp
next
  case (3 e i rest)
  from "3.prems"(1) obtain c where c: "copy_inode e i = Some c" by (cases "copy_inode e i") auto
  with copy_inode_same [of i e c] "3.prems"(2) have ci: "c = Inr i" by simp
  with "3.prems"(1) c obtain r' where "copy_inodes e rest = Some r'" "r = map_sum id (\<lambda>cs. Some i # cs) r'" by auto
  moreover have "r' = Inr rest" using "3.IH" [OF c ci] "3.prems"(2) calculation by simp
  ultimately show ?case by simp
qed simp

lemma table_ok_member: "table_ok tab \<Longrightarrow> Some i \<in> set tab \<Longrightarrow> inode_ok i"
  by (auto simp: table_ok_def in_set_conv_nth)

lemma checkpoint_ok:
  assumes ok: "fs_ok s" and run: "checkpoint e key s = Some (r, s')"
  shows "fs_ok s' \<and> (\<forall>k st. map_of (state_pool s) k = Some st \<longrightarrow> map_of (state_pool s') k = Some st)"
proof -
  from run obtain c where c: "copy_inodes e (Inodes s) = Some c" by (auto simp: checkpoint_def split: Option.bind_splits)
  have "c = Inr (Inodes s)"
    using copy_inodes_same [OF c] table_ok_member [OF fs_okD(1) [OF ok]] by blast
  with run c have "s' = s \<or> s' = s\<lparr>state_pool := state_pool s @ [(key, Inodes s, DeletedInodes s, m_stbuf s)]\<rparr>"
    by (auto simp: checkpoint_def insert_state_def split: option.splits if_splits)
  then show ?thesis using ok by (auto simp: fs_ok_def map_add_Some_iff)
qed

lemma restore_ok:
  assumes ok: "fs_ok s" and run: "restore e key s = Some (r, ns, s')"
  shows "fs_ok s' \<and> (\<forall>k. k \<noteq> key \<longrightarrow> map_of (state_pool s') k = map_of (state_pool s) k)"
proof (cases "map_of (state_pool s) key")
  case None
  with run ok restore_missing [of s key e] show ?thesis by simp
next
  case (Some st)
  obtain tab dels sb where st: "st = (tab, dels, sb)" by (cases st)
  have snap: "snapshot_ok (tab, dels, sb)"
    using ok map_of_SomeD [OF Some] by (auto simp: fs_ok_def st)
  have "s' = s \<or> s' = s\<lparr>Inodes := tab, DeletedInodes := dels, m_stbuf := sb,
      state_pool := filter (\<lambda>x. fst x \<noteq> key) (state_pool s)\<rparr>"
    using run Some copy_inodes_same [of e tab] table_ok_member [of tab] snap
    by (auto simp: restore_def find_state_def remove_state_def st snapshot_ok_def
        split: if_splits Option.bind_splits sum.splits)
  then show ?thesis
    using ok snap by (auto simp: fs_ok_def map_of_filter_fst)
qed

text \<open>Pickling at most rotates the queue.\<close>

definition shuffles :: "(pk \<Rightarrow> pk_result) \<Rightarrow> bool" where
  "shuffles f \<longleftrightarrow> (\<forall>p p' r. f p = Some (p', r) \<longrightarrow> mset (pk_queue p') = mset (pk_queue p))"

lemma shuffles_then: "shuffles f \<Longrightarrow> shuffles k \<Longrightarrow> shuffles (\<lambda>p. pk_then (f p) k)"
  by (auto simp: shuffles_def pk_then_def split: option.splits)

lemma shuffles_write: "shuffles (write_and_hash os d)"
  by (auto simp: shuffles_def write_and_hash_def pk_then_def write_to_file_def feed_hash_def Let_def
      split: option.splits if_splits)

lemma shuffles_inode: "shuffles (pickle_inode os e h slot)"
proof (cases slot)
  case None
  then show ?thesis using shuffles_write by (simp add: pickle_inode_def [abs_def])
next
  case (Some i)
  have "shuffles (\<lambda>p. pk_then (write_and_hash os (enc_inode_state True (GetMode i)) p) (write_and_hash os x))" for x
    by (intro shuffles_then shuffles_write)
  with Some show ?thesis
    by (auto simp: pickle_inode_def [abs_def] shuffles_def Let_def split: option.splits if_splits)
qed

lemma shuffles_inodes: "shuffles (pickle_inodes os e h tab)"
proof (induction tab)
  case Nil
  show ?case by (simp add: shuffles_def)
next
  case (Cons slot tab)
  then show ?case using shuffles_then [OF shuffles_inode] by simp
qed

lemma shuffles_queue: "shuffles (pickle_queue os n)"
proof (induction n)
  case 0
  show ?case by (simp add: shuffles_def)
next
  case (Suc n)
  show ?case
    unfolding shuffles_def
  proof (intro allI impI)
    fix p p' r assume run: "pickle_queue os (Suc n) p = Some (p', r)"
    then obtain x q where q: "pk_queue p = x # q" by (cases "pk_queue p") auto
    with run obtain p1 e where w: "write_and_hash os (enc_u64 x) p = Some (p1, e)"
      by (auto simp: pk_then_def split: option.splits)
    have "mset (pk_queue p1) = mset (pk_queue p)" using shuffles_write [of os "enc_u64 x"] w unfolding shuffles_def by blast
    moreover have "mset (pk_queue p') = mset (q @ [x])" if "e = None"
    proof -
      have "pickle_queue os n (p1\<lparr>pk_queue := q @ [x]\<rparr>) = Some (p', r)"
        using run q w that by (simp add: pk_then_def)
      with Suc have "mset (pk_queue p') = mset (pk_queue (p1\<lparr>pk_queue := q @ [x]\<rparr>))"
        unfolding shuffles_def by blast
      then show ?thesis by simp
    qed
    moreover have "e \<noteq> None \<Longrightarrow> p' = p1" using run q w by (auto simp: pk_then_def split: option.splits)
    ultimately show "mset (pk_queue p') = mset (pk_queue p)" using q by (cases e) auto
  qed
qed

lemma shuffles_local: "shuffles (\<lambda>p. map_option (\<lambda>(p', r). (p'\<lparr>pk_queue := pk_queue p\<rparr>, r)) (f p))"
  by (auto simp: shuffles_def)

lemma shuffles_states: "shuffles (pickle_states os e h sts)"
proof (induction sts)
  case Nil
  show ?case by (simp add: shuffles_def)
next
  case (Cons st sts)
  obtain key tab dels sb where st: "st = (key, tab, dels, sb)" by (cases st)
  have "shuffles (pickle_state os e h st)"
    unfolding pickle_state_def st prod.case
    by (intro shuffles_then shuffles_write shuffles_inodes shuffles_local)
  from shuffles_then [OF this Cons.IH] show ?case by simp
qed

lemma shuffles_body: "shuffles (pickle_body os e s)"
proof -
  have "shuffles (\<lambda>p. write_and_hash os (enc_u64 (of_nat (length (pk_queue p)))) p)"
    "shuffles (\<lambda>p. pickle_queue os (length (pk_queue p)) p)"
    using shuffles_write shuffles_queue by (auto simp: shuffles_def)
  then show ?thesis
    unfolding pickle_body_def [abs_def]
    by (intro shuffles_then shuffles_write shuffles_inodes shuffles_states)
qed

lemma queue_ok_shuffle: "queue_ok tab q \<Longrightarrow> mset q' = mset q \<Longrightarrow> queue_ok tab q'"
  by (auto simp: queue_ok_def dest: mset_eq_setD mset_eq_imp_distinct_iff)

lemma pickle_verifs2_keeps:
  assumes ok: "fs_ok s" and run: "pickle_verifs2 os e s d = Some (r, s', d')"
  shows "fs_ok s' \<and> state_pool s' = state_pool s \<and> Inodes s' = Inodes s"
proof -
  have "s' = s \<or> (\<exists>p q r. pickle_file_system os e s p = Some (r, q) \<and> pk_queue p = DeletedInodes s \<and>
      s' = s\<lparr>DeletedInodes := pk_queue q\<rparr>)"
    using run
    by (auto simp: pickle_verifs2_def Let_def split: sum.splits option.splits if_splits Option.bind_splits)
      (metis pk.select_convs(4))+
  then show ?thesis
  proof (elim disjE exE conjE)
    fix p q r assume f: "pickle_file_system os e s p = Some (r, q)" "pk_queue p = DeletedInodes s"
      and s': "s' = s\<lparr>DeletedInodes := pk_queue q\<rparr>"
    from f(1) obtain q' x where "pickle_body os e s p = Some (q', x)" "pk_queue q = pk_queue q'"
      by (auto simp: pickle_file_system_def split: option.splits)
    with shuffles_body f(2) have m: "mset (pk_queue q) = mset (DeletedInodes s)"
      unfolding shuffles_def by metis
    show ?thesis using ok queue_ok_shuffle [OF fs_okD(2) [OF ok] m] by (simp add: fs_ok_def snapshot_ok_def s')
  qed (use ok in simp)
qed

section \<open>Every request\<close>

lemma handle_fs_preserves:
  assumes "fs_ok s" "kernel_ok r s"
  shows "preserves s (handle_fs w r s)"
proof (cases r)
  case (Req_SetAttr i a f)
  with assms show ?thesis
    by (auto simp: kernel_ok_def intro!: served_preserves FuseSetAttr_served)
next
  case (Req_Write i b off)
  with assms show ?thesis
    by (auto simp: kernel_ok_def intro!: served_preserves FuseWrite_served)
next
  case (Req_Read i z off)
  with assms show ?thesis by (auto simp: kernel_ok_def intro!: served_preserves FuseRead_served)
qed (use assms in \<open>auto simp: kernel_ok_def preserves_def [of s None]
  intro: served_preserves FuseLookup_served FuseForget_served FuseGetAttr_served FuseReadLink_served
    FuseMknod_served FuseMkdir_served FuseUnlink_served FuseRmdir_served FuseSymlink_served FuseRename_served
    FuseLink_served FuseOpen_served FuseRead_served FuseStatfs_served FuseAccess_served FuseCreate_served
    FuseSetXAttr_preserves FuseXAttr_preserves FuseReadDir_preserves\<close>)

text \<open>Requests that the handlers of the inode table serve.\<close>

definition plain :: "request \<Rightarrow> bool" where
  "plain r = (case r of Req_ReadDir _ _ _ \<Rightarrow> False | Req_SetXAttr _ _ _ _ \<Rightarrow> False | Req_GetXAttr _ _ _ \<Rightarrow> False
     | Req_ListXAttr _ _ \<Rightarrow> False | Req_Ioctl _ _ \<Rightarrow> False | _ \<Rightarrow> True)"

lemma FuseRemoveXAttr_served: "fs_ok s \<Longrightarrow> served s (FuseRemoveXAttr ino name s)"
  using FuseXAttr_preserves(3) [of s ino name]
  by (cases "live ino s")
    (auto simp: served_def preserves_def FuseRemoveXAttr_def fuse_reply_err_def case_prod_beta Let_def)

lemma handle_fs_served:
  assumes "fs_ok s" "kernel_ok r s" "plain r"
  shows "served s (handle_fs w r s)"
proof (cases r)
  case (Req_SetAttr i a f)
  with assms show ?thesis by (auto simp: kernel_ok_def intro!: FuseSetAttr_served)
next
  case (Req_Write i b off)
  with assms show ?thesis by (auto simp: kernel_ok_def intro!: FuseWrite_served)
next
  case (Req_Read i z off)
  with assms show ?thesis by (auto simp: kernel_ok_def intro!: FuseRead_served)
qed (use assms in \<open>auto simp: kernel_ok_def plain_def
  intro: FuseLookup_served FuseForget_served FuseGetAttr_served FuseReadLink_served
    FuseMknod_served FuseMkdir_served FuseUnlink_served FuseRmdir_served FuseSymlink_served FuseRename_served
    FuseLink_served FuseOpen_served FuseRead_served FuseStatfs_served FuseAccess_served FuseCreate_served
    FuseRemoveXAttr_served\<close>)

text \<open>What a step does to the saved states: only a restore removes one, and only the one it names.\<close>

definition keeps_state :: "u64 \<Rightarrow> request \<Rightarrow> bool" where
  "keeps_state key r = (case r of Req_Ioctl c a \<Rightarrow> \<not> (c = VERIFS_RESTORE \<and> a = key) | _ \<Rightarrow> True)"

lemma FuseIoctl_ok:
  assumes ok: "fs_ok s" and load: "c \<noteq> VERIFS_LOAD"
    and run: "FuseIoctl os e c a (s, d) = Some (rs, ns, s', d')"
  shows "fs_ok s' \<and> (c \<noteq> VERIFS_RESTORE \<or> a \<noteq> key \<longrightarrow>
    (\<forall>st. map_of (state_pool s) key = Some st \<longrightarrow> map_of (state_pool s') key = Some st))"
proof -
  consider (ck) r where "c = VERIFS_CHECKPOINT" "checkpoint e a s = Some (r, s')"
    | (rs) r ns where "c = VERIFS_RESTORE" "restore e a s = Some (r, ns, s')"
    | (pk) r where "pickle_verifs2 os e s d = Some (r, s', d')"
    | (other) "s' = s"
    using run load by (auto simp: FuseIoctl_def split: if_splits Option.bind_splits)
  then show ?thesis
  proof cases
    case ck
    with checkpoint_ok [OF ok] show ?thesis by blast
  next
    case rs
    with restore_ok [OF ok] show ?thesis by metis
  next
    case pk
    with pickle_verifs2_keeps [OF ok] show ?thesis by simp
  qed (use ok in simp)
qed

lemma step_ok:
  assumes "step (s, d) r rs (s', d')" "fs_ok s"
  shows "fs_ok s'" "keeps_state key r \<Longrightarrow> map_of (state_pool s) key = Some st \<Longrightarrow> map_of (state_pool s') key = Some st"
proof -
  from assms(1) obtain w where k: "kernel_ok r s" and h: "handle w r (s, d) = Some (rs, s', d')"
    by (auto elim: stepE)
  have "fs_ok s' \<and> (keeps_state key r \<longrightarrow> map_of (state_pool s) key = Some st \<longrightarrow> map_of (state_pool s') key = Some st)"
  proof (cases "\<exists>c a. r = Req_Ioctl c a")
    case True
    then obtain c a where r: "r = Req_Ioctl c a" by blast
    with h obtain ns where "FuseIoctl (w_os w) (w_env w) c a (s, d) = Some (rs, ns, s', d')"
      by (auto simp: handle_def)
    with FuseIoctl_ok [OF assms(2), of c "w_os w" "w_env w" a d rs ns s' d' key] k r show ?thesis
      by (cases st) (auto simp: kernel_ok_def keeps_state_def)
  next
    case False
    then have "handle_fs w r s = Some (rs, s')" using h by (cases r) (auto simp: handle_def)
    with handle_fs_preserves [OF assms(2) k, of w] show ?thesis by (simp add: preserves_def)
  qed
  then show "fs_ok s'" "keeps_state key r \<Longrightarrow> map_of (state_pool s) key = Some st \<Longrightarrow> map_of (state_pool s') key = Some st"
    by simp_all
qed

section \<open>Mounting\<close>

text \<open>Adding an entry that fits the last block never fails for lack of space.\<close>

lemma S_ISDIR_or: "S_ISDIR (S_IFDIR OR (0x1FF AND u))"
proof -
  have "(S_IFDIR OR (0x1FF AND u)) AND S_IFMT = (S_IFDIR AND S_IFMT) OR (u AND (0x1FF AND S_IFMT))"
    by (rule bit_word_eqI) (auto simp only: bit_and_iff bit_or_iff)
  then show ?thesis by simp
qed

lemma new_fs_ok:
  assumes "inodes = 0 \<or> 2 \<le> unat inodes \<and> unat inodes < 2 ^ 63"
  shows "fs_ok (FuseRamFs_new blocks inodes)" "2 \<le> unat (f_ffree (m_stbuf (FuseRamFs_new blocks inodes)))"
    "m_stbuf (FuseRamFs_new blocks inodes) = (let sb = m_stbuf (FuseRamFs_new blocks inodes) in
       sb\<lparr>f_bfree := f_blocks sb, f_bavail := f_blocks sb, f_ffree := f_files sb, f_favail := f_files sb, f_flag := 0\<rparr>)"
  using assms
  by (auto simp: fs_ok_def snapshot_ok_def table_ok_def queue_ok_def counters_ok_def FuseRamFs_new_def
      kTotalInodes_def Let_def)

lemma FuseInit_ok:
  assumes inodes: "inodes = 0 \<or> 2 \<le> unat inodes \<and> unat inodes < 2 ^ 63" and new: "env_new e"
  obtains s root nul where "FuseInit e umask gid uid (FuseRamFs_new blocks inodes) = Some s" "fs_ok s"
    "GetInode 1 s = Some root" "is_Directory root" "m_children root = [(''.'', 1), (''..'', 1)]"
    "st_nlink (i_attr root) = 2" "GetInode 0 s = Some nul" "HasNoLinks nul"
    "GetMode root = S_IFDIR OR (0x1FF AND NOT umask)" "m_nlookup root = 0"
    "m_obj nul = SpecialInode SPECIAL_INODE_TYPE_NO_BLOCK" "GetMode nul = 0" "m_nlookup nul = 0"
    "\<And>k. k \<noteq> 0 \<Longrightarrow> k \<noteq> 1 \<Longrightarrow> GetInode k s = None" "state_pool s = []"
proof -
  let ?s0 = "FuseRamFs_new blocks inodes"
  note n = new_fs_ok [OF inodes, of blocks]
  have e0: "Inodes ?s0 = []" "DeletedInodes ?s0 = []" "state_pool ?s0 = []" by (simp_all add: FuseRamFs_new_def Let_def)
  let ?null = "new_SpecialInode (env_param e) SPECIAL_INODE_TYPE_NO_BLOCK 0"
  have f0: "fresh_for 0 ?null" by (simp add: fresh_for_def new_SpecialInode_def new_Inode_def)
  have pos: "0 < unat (f_ffree (m_stbuf ?s0))" using n(2) by simp
  obtain ino s1 j where 1: "RegisterInode e ?null 0 0 gid uid ?s0 = Some (ino, s1)" "fs_ok s1"
    "GetInode ino s1 = Some j" "st_nlink (i_attr j) = 0" "ino = 0" "DeletedInodes s1 = []"
    "length (Inodes s1) = 1" "f_ffree (m_stbuf s1) = f_ffree (m_stbuf ?s0) - 1"
    "\<And>k. k \<noteq> ino \<Longrightarrow> GetInode k s1 = None" "GetMode j = 0" "m_obj j = SpecialInode SPECIAL_INODE_TYPE_NO_BLOCK"
    "m_nlookup j = 0" "state_pool s1 = []"
    by (rule RegisterInode_ok [OF n(1) pos f0, of e 0 gid uid])
      (simp add: e0 GetInode_def [of _ ?s0] new_SpecialInode_def new_Inode_def)
  let ?dir = "new_Directory (env_param e)" and ?mode = "S_IFDIR OR (0x1FF AND NOT umask)"
  have dirmode: "S_ISDIR ?mode" by (rule S_ISDIR_or)
  have f1: "fresh_for ?mode ?dir" using dirmode by (simp add: fresh_for_def new_Directory_def new_Inode_def)
  have "unat (f_ffree (m_stbuf ?s0) - 1) = unat (f_ffree (m_stbuf ?s0)) - 1"
    using unat_diff_64 [of 1 "f_ffree (m_stbuf ?s0)"] pos by (simp add: word_le_nat_alt)
  then have pos1: "0 < unat (f_ffree (m_stbuf s1))" using n(2) 1(8) by simp
  obtain rno s2 r2 where 2: "RegisterInode e ?dir ?mode 2 gid uid s1 = Some (rno, s2)" "fs_ok s2"
    "GetInode rno s2 = Some r2" "\<And>k. k \<noteq> rno \<Longrightarrow> GetInode k s2 = GetInode k s1" "st_nlink (i_attr r2) = 2"
    "m_obj r2 = Directory []" "rno = 1" "GetMode r2 = ?mode" "m_nlookup r2 = 0" "state_pool s2 = state_pool s1"
    by (rule RegisterInode_ok [OF 1(2) pos1 f1, of e 2 gid uid])
      (simp add: 1 new_Directory_def new_Inode_def)
  obtain s3 s4 r4 where 3: "on_inode 1 (AddChild ''.'' 1) s2 = Some (0, s3)"
    "on_inode 1 (AddChild ''..'' 1) s3 = Some (0, s4)" "fs_ok s4" "touches {1} s2 s4" "GetInode 1 s4 = Some r4"
    "is_Directory r4" "m_children r4 = [(''.'', 1), (''..'', 1)]" "st_nlink (i_attr r4) = st_nlink (i_attr r2)"
    "GetMode r4 = GetMode r2" "m_nlookup r4 = m_nlookup r2"
    by (rule add_both_dots [OF 2(2) _ 2(6), of 1 1]) (use 2(3,7) in simp_all)
  have nul: "GetInode 0 s4 = Some j"
    using touchesD(1) [OF 3(4), of 0] 2(4) [of 0] 2(7) 1(3,5) by simp
  have run: "FuseInit e umask gid uid ?s0 = Some s4"
    using new 1(1) 2(1,7) 3(1,2) n(3) by (simp add: FuseInit_def Let_def)
  show ?thesis
    by (rule that [OF run 3(3,5,6,7) _ nul])
      (use 3(4,8-) 2(4,5,7-) 1(4,5,9-) touchesD [OF 3(4)] in \<open>simp_all add: HasNoLinks_def\<close>)
qed

end
