(* ===== verification/Machine_Props.thy ===== *)
theory Machine_Props
  imports Machine_Invariant
begin

text \<open>
  The properties of the whole server: runs of requests, the invariant in every state reachable from
  a mount, that every request on the inode table is served, and that a checkpoint followed by
  any requests and a restore gives back the checkpointed file system.
\<close>

section \<open>Runs\<close>

inductive run :: "fs \<times> disk \<Rightarrow> request list \<Rightarrow> fs \<times> disk \<Rightarrow> bool" where
  stop: "run st [] st"
| more: "step st r rs st' \<Longrightarrow> run st' rest st'' \<Longrightarrow> run st (r # rest) st''"

inductive_simps run_Nil [simp]: "run st [] st'"
inductive_simps run_Cons: "run st (r # rest) st'"

text \<open>A world with an operating system that accepts every call, for the witnesses.\<close>

definition demo_os :: os where
  "demo_os = \<lparr>os_open = (\<lambda>_. 0), os_read = (\<lambda>_. 0), os_lseek = 0, os_write = (\<lambda>_ n. int n), os_errno = 0,
     os_fstat = 0, os_mmap = 0, os_sha256 = (\<lambda>x. replicate 32 (of_nat (length x))), os_sha_init = True,
     os_sha_update = True, os_order = (\<lambda>p. p)\<rparr>"

definition demo_world :: world where
  "demo_world = \<lparr>w_env = demo_env, w_rand = of_nat, w_dsz = (\<lambda>n. 24 + of_nat (length n)), w_os = demo_os\<rparr>"

lemma run_ok:
  assumes "run st reqs st'" "fs_ok (fst st)"
  shows "fs_ok (fst st') \<and> (list_all (keeps_state key) reqs \<longrightarrow>
    map_of (state_pool (fst st)) key = Some sv \<longrightarrow> map_of (state_pool (fst st')) key = Some sv)"
  using assms
proof (induction rule: run.induct)
  case (stop st)
  then show ?case by simp
next
  case (more st r rs st' rest st'')
  obtain s d s' d' where st: "st = (s, d)" "st' = (s', d')" by (cases st; cases st')
  have "fs_ok s" using more.prems st by simp
  from step_ok(1) [OF more.hyps(1) [unfolded st] this] step_ok(2) [OF more.hyps(1) [unfolded st] this, of key sv] more.IH st show ?case by auto
qed

lemma mounted_ok: "mounted s \<Longrightarrow> fs_ok s"
proof (induction rule: mounted.induct)
  case (mount inodes e umask gid uid blocks s)
  have "env_new e" using mount(2) by (auto simp: FuseInit_def Let_def split: if_splits)
  from FuseInit_ok [OF mount(1) this, of umask gid uid blocks] mount(2) show ?case by auto
qed

lemma reachable_ok: "reachable st \<Longrightarrow> fs_ok (fst st)"
proof (induction rule: reachable.induct)
  case (init s d)
  then show ?case by (simp add: mounted_ok)
next
  case (next_step st r rs st')
  obtain s d s' d' where st: "st = (s, d)" "st' = (s', d')" by (cases st; cases st')
  from step_ok(1) [OF next_step.hyps(2) [unfolded st]] next_step.IH show ?case by (simp add: st)
qed

lemma reachable_run: "reachable st \<Longrightarrow> run st reqs st' \<Longrightarrow> reachable st'"
  by (rotate_tac, induction rule: run.induct) (auto intro: reachable.next_step)

text \<open>A mounted file system to evaluate the properties of reachable states on.\<close>

lemma demo_mounted:
  obtains s root where "reachable (s, d)" "fs_ok s" "GetInode 1 s = Some root" "is_Directory root"
    "m_children root = [(''.'', 1), (''..'', 1)]" "st_nlink (i_attr root) = 2"
proof -
  obtain s root nul where s: "FuseInit demo_env 0x12 0 0 (FuseRamFs_new 100 10) = Some s" "fs_ok s"
    "GetInode 1 s = Some root" "is_Directory root" "m_children root = [(''.'', 1), (''..'', 1)]"
    "st_nlink (i_attr root) = 2"
    by (rule FuseInit_ok [where inodes = 10 and e = demo_env and umask = "0x12" and gid = 0 and uid = 0 and blocks = 100])
      simp_all
  have "mounted s" by (rule mounted.mount [OF _ s(1)]) simp
  then have "reachable (s, d)" by (rule reachable.init)
  with s that show ?thesis by blast
qed

lemma Ioctl_checkpoint:
  assumes ok: "fs_ok s" and mem: "env_new e" "\<And>n. env_alloc e n" and new: "map_of (state_pool s) key = None"
  shows "FuseIoctl os e VERIFS_CHECKPOINT key (s, d) = Some ([ReplyIoctl], [],
    s\<lparr>state_pool := state_pool s @ [(key, Inodes s, DeletedInodes s, m_stbuf s)]\<rparr>, d)"
proof -
  have "\<forall>i. Some i \<in> set (Inodes s) \<longrightarrow> copyable e i"
    using table_ok_member [OF fs_okD(1) [OF ok]] mem by (simp add: copyable_def)
  from checkpoint_new [OF this new] show ?thesis by (simp add: FuseIoctl_def)
qed

lemma Ioctl_restore:
  assumes ok: "fs_ok s" and mem: "env_new e" "\<And>n. env_alloc e n"
    and saved: "map_of (state_pool s) key = Some (tab, dels, sb)" and ne: "tab \<noteq> []"
  obtains ns where "FuseIoctl os e VERIFS_RESTORE key (s, d) = Some ([ReplyIoctl], ns,
    s\<lparr>Inodes := tab, DeletedInodes := dels, m_stbuf := sb,
      state_pool := filter (\<lambda>x. fst x \<noteq> key) (state_pool s)\<rparr>, d)"
proof -
  have "snapshot_ok (tab, dels, sb)" using ok map_of_SomeD [OF saved] by (auto simp: fs_ok_def)
  then have cp: "\<forall>i. Some i \<in> set tab \<longrightarrow> copyable e i"
    using table_ok_member [of tab] mem by (simp add: copyable_def snapshot_ok_def)
  have cur: "\<forall>i. Some i \<in> set (Inodes s) \<longrightarrow> mode_matches i"
    using table_ok_member [OF fs_okD(1) [OF ok]] by (auto simp: inode_ok_def)
  obtain ns where "restore e key s = Some (0, ns, s\<lparr>Inodes := tab, DeletedInodes := dels, m_stbuf := sb,
      state_pool := filter (\<lambda>x. fst x \<noteq> key) (state_pool s)\<rparr>)"
    by (rule restore_saved [OF saved _ cp cur]) (use ne in simp)
  moreover have "VERIFS_RESTORE \<noteq> VERIFS_CHECKPOINT" by (simp add: ioctl_codes)
  ultimately show ?thesis using that by (simp add: FuseIoctl_def)
qed

text \<open>A checkpoint, requests that leave its key alone, and the restore.\<close>

lemma checkpoint_run_restore:
  assumes ok: "fs_ok s" and key: "map_of (state_pool s) key = None" and ne: "Inodes s \<noteq> []"
    and mem: "env_new e" "\<forall>n. env_alloc e n"
    and ck: "FuseIoctl os e VERIFS_CHECKPOINT key (s, d) = Some (rs, ns, s1, d1)"
    and reqs: "run (s1, d1) reqs (s2, d2)" "list_all (keeps_state key) reqs"
  obtains ns' where "rs = [ReplyIoctl]" "FuseIoctl os e VERIFS_RESTORE key (s2, d2) = Some ([ReplyIoctl], ns',
    s2\<lparr>Inodes := Inodes s, DeletedInodes := DeletedInodes s, m_stbuf := m_stbuf s,
      state_pool := filter (\<lambda>x. fst x \<noteq> key) (state_pool s2)\<rparr>, d2)"
proof -
  let ?saved = "(Inodes s, DeletedInodes s, m_stbuf s)"
  have s1: "s1 = s\<lparr>state_pool := state_pool s @ [(key, ?saved)]\<rparr>" "rs = [ReplyIoctl]"
    using Ioctl_checkpoint [OF ok mem(1) _ key] mem(2) ck by simp_all
  have "map_of (state_pool s1) key = Some ?saved"
    using key by (simp add: s1 map_of_snoc map_of_eq_None_iff del: map_of_append)
  moreover have "fs_ok s1" using ok by (auto simp: s1 fs_ok_def)
  ultimately have s2: "fs_ok s2" "map_of (state_pool s2) key = Some ?saved"
    using run_ok [OF reqs(1), of key ?saved] reqs(2) by simp_all
  obtain ns' where "FuseIoctl os e VERIFS_RESTORE key (s2, d2) = Some ([ReplyIoctl], ns',
    s2\<lparr>Inodes := Inodes s, DeletedInodes := DeletedInodes s, m_stbuf := m_stbuf s,
      state_pool := filter (\<lambda>x. fst x \<noteq> key) (state_pool s2)\<rparr>, d2)"
    by (rule Ioctl_restore [OF s2(1) mem(1) _ s2(2) ne]) (use mem(2) in simp)
  with that s1(2) show ?thesis by blast
qed

section \<open>Properties of reachable states\<close>

text \<open>
  (C2) In every state reachable from a mount, through any sequence of requests of the kernel
  including checkpoints, restores and pickling, every object in the inode table is well-formed:
  its class agrees with the type bits of its mode, its size, block count and buffer or entry list
  agree, and it carries the number of its slot.
\<close>

theorem reachable_objects_ok:
  assumes "reachable (s, d)" "GetInode ino s = Some i"
  shows "inode_ok i \<and> GetIno i = ino"
  using fs_ok_inode [OF _ assms(2)] reachable_ok [OF assms(1)] by simp

theorem reachable_objects_ok_witness:
  "\<exists>s root. reachable (s, Map.empty) \<and> GetInode 1 s = Some root \<and> inode_ok root \<and> GetIno root = 1"
proof -
  obtain s root where s: "reachable (s, Map.empty)" "GetInode 1 s = Some root" by (rule demo_mounted)
  from reachable_objects_ok [OF s] s show ?thesis by blast
qed

text \<open>
  (C9) In every reachable state the queue of reusable inode numbers lists exactly the empty slots
  of the table, each once, so that a registered object never overwrites another one.
\<close>

theorem reachable_queue_ok:
  assumes "reachable (s, d)"
  shows "distinct (DeletedInodes s) \<and>
    (\<forall>ino. ino \<in> set (DeletedInodes s) \<longleftrightarrow> unat ino < length (Inodes s) \<and> GetInode ino s = None)"
  using fs_okD(2) [OF reachable_ok [OF assms, unfolded fst_conv]] by (auto simp: queue_ok_def GetInode_def)

theorem reachable_queue_ok_witness:
  "\<exists>s. reachable (s, Map.empty) \<and> distinct (DeletedInodes s) \<and> 1 \<notin> set (DeletedInodes s)"
proof -
  obtain s root where s: "reachable (s, Map.empty)" "GetInode 1 s = Some root" by (rule demo_mounted)
  from reachable_queue_ok [OF s(1)] s show ?thesis by auto
qed

text \<open>
  (C10) In every reachable state the free inode counter plus the number of occupied slots is the
  configured number of inodes, exactly and without wrap-around; the table is never longer than
  that number, and the counters for unprivileged users are equal to the general ones.
\<close>

theorem reachable_counters_ok:
  assumes "reachable (s, d)"
  shows "unat (f_ffree (m_stbuf s)) + live_count (Inodes s) = unat (f_files (m_stbuf s)) \<and>
    length (Inodes s) \<le> unat (f_files (m_stbuf s)) \<and> f_favail (m_stbuf s) = f_ffree (m_stbuf s) \<and>
    f_bavail (m_stbuf s) = f_bfree (m_stbuf s)"
  using fs_okD(3) [OF reachable_ok [OF assms, unfolded fst_conv]] by (simp add: counters_ok_def)

theorem reachable_counters_ok_witness:
  "\<exists>s. reachable (s, Map.empty) \<and>
     unat (f_ffree (m_stbuf s)) + live_count (Inodes s) = unat (f_files (m_stbuf s))"
proof -
  obtain s root where s: "reachable (s, Map.empty)" "GetInode 1 s = Some root" by (rule demo_mounted)
  from reachable_counters_ok [OF s(1)] s(1) show ?thesis by blast
qed

text \<open>
  (C4) Every request on the inode table (all but listings, the reading and writing of extended
  attributes, and the ioctls) that is as the kernel sends it is served in every reachable state: the handler
  returns, with no failed assertion, no null pointer, no access outside a buffer and no lock taken twice (a
  rename does not replace one of its own directories), and the invariant holds again.
\<close>

theorem request_served:
  assumes "reachable (s, d)" "kernel_ok r s" "plain r"
  shows "\<exists>rs s'. handle w r (s, d) = Some (rs, s', d) \<and> fs_ok s'"
proof -
  have "served s (handle_fs w r s)"
    using handle_fs_served [OF _ assms(2,3)] reachable_ok [OF assms(1)] by simp
  moreover have "handle w r (s, d) = map_option (\<lambda>(rs, s'). (rs, s', d)) (handle_fs w r s)"
    using assms(3) by (cases r) (simp_all add: handle_def plain_def)
  ultimately show ?thesis by (auto simp: served_def)
qed

theorem request_served_witness:
  "\<exists>s rs s'. reachable (s, Map.empty) \<and>
     handle demo_world (Req_Mkdir demo_ctx 1 ''sub'' 0x1ED) (s, Map.empty) = Some (rs, s', Map.empty) \<and> fs_ok s'"
proof -
  obtain s root where s: "reachable (s, Map.empty)" "fs_ok s" "GetInode 1 s = Some root" "is_Directory root"
    "m_children root = [(''.'', 1), (''..'', 1)]" by (rule demo_mounted)
  have "kernel_ok (Req_Mkdir demo_ctx 1 ''sub'' 0x1ED) s"
    using s by (simp add: kernel_ok_def entry_fits_def dir_bytes_def)
  from request_served [OF s(1) this, of demo_world] s(1) show ?thesis by (auto simp: plain_def)
qed

text \<open>
  (C3) Checkpoint and restore: after a checkpoint under a fresh key, whatever requests follow
  (other checkpoints, restores of other keys and pickling included), a restore of that key answers
  success and gives back the inode table, the queue and the capacity counters of the checkpoint,
  object by object and byte by byte, and the key is free again.
\<close>

theorem checkpoint_restore_exact:
  assumes ok: "fs_ok s" and key: "map_of (state_pool s) key = None" and ne: "Inodes s \<noteq> []"
    and mem: "env_new e" "\<forall>n. env_alloc e n"
    and ck: "FuseIoctl os e VERIFS_CHECKPOINT key (s, d) = Some (rs, ns, s1, d1)"
    and reqs: "run (s1, d1) reqs (s2, d2)" "list_all (keeps_state key) reqs"
  shows "\<exists>ns' s3. rs = [ReplyIoctl] \<and>
    FuseIoctl os e VERIFS_RESTORE key (s2, d2) = Some ([ReplyIoctl], ns', s3, d2) \<and>
    Inodes s3 = Inodes s \<and> DeletedInodes s3 = DeletedInodes s \<and> m_stbuf s3 = m_stbuf s \<and>
    map_of (state_pool s3) key = None"
proof -
  obtain ns' where "rs = [ReplyIoctl]" "FuseIoctl os e VERIFS_RESTORE key (s2, d2) = Some ([ReplyIoctl], ns',
    s2\<lparr>Inodes := Inodes s, DeletedInodes := DeletedInodes s, m_stbuf := m_stbuf s,
      state_pool := filter (\<lambda>x. fst x \<noteq> key) (state_pool s2)\<rparr>, d2)"
    by (rule checkpoint_run_restore [OF assms])
  then show ?thesis by (simp add: map_of_filter_fst)
qed

theorem checkpoint_restore_exact_witness:
  "\<exists>rs ns s1 s2 ns' s3.
     FuseIoctl demo_os demo_env VERIFS_CHECKPOINT 7 (demo_fs, Map.empty) = Some (rs, ns, s1, Map.empty) \<and>
     run (s1, Map.empty) [Req_Unlink 1 ''a'', Req_Write 2 (Some [1, 2, 3]) 600] (s2, Map.empty) \<and>
     FuseIoctl demo_os demo_env VERIFS_RESTORE 7 (s2, Map.empty) = Some ([ReplyIoctl], ns', s3, Map.empty) \<and>
     Inodes s3 = [Some demo_null, Some demo_root, Some demo_file]"
proof -
  let ?s1 = "demo_fs\<lparr>state_pool := [(7, Inodes demo_fs, [], demo_stbuf)]\<rparr>" and ?d = "Map.empty :: disk"
  have ck: "FuseIoctl demo_os demo_env VERIFS_CHECKPOINT 7 (demo_fs, ?d) = Some ([ReplyIoctl], [], ?s1, ?d)"
    using Ioctl_checkpoint [OF demo_fs_ok, of demo_env 7 demo_os ?d] by simp
  have ok1: "fs_ok ?s1" using demo_fs_ok by (simp add: fs_ok_def)
  let ?r1 = "Req_Unlink 1 ''a''" and ?r2 = "Req_Write 2 (Some [1, 2, 3]) 600"
  have k1: "kernel_ok ?r1 ?s1" by (simp add: kernel_ok_def name_known_def dir_lookup_def)
  obtain rs1 t where h1: "handle demo_world ?r1 (?s1, ?d) = Some (rs1, t, ?d)" "fs_ok t"
    using handle_fs_served [OF ok1 k1, of demo_world] by (auto simp: plain_def served_def handle_def)
  have k2: "kernel_ok ?r2 t" by (simp add: kernel_ok_def)
  obtain rs2 s2 where h2: "handle demo_world ?r2 (t, ?d) = Some (rs2, s2, ?d)"
    using handle_fs_served [OF h1(2) k2, of demo_world] by (auto simp: plain_def served_def handle_def)
  have r: "run (?s1, ?d) [?r1, ?r2] (s2, ?d)"
    using step.serve [OF _ h1(1)] step.serve [OF _ h2] k1 k2 by (intro run.more run.stop) auto
  have keep: "list_all (keeps_state 7) [?r1, ?r2]" by (simp add: keeps_state_def)
  from checkpoint_restore_exact [OF demo_fs_ok _ _ _ _ ck r keep] ck r show ?thesis
    by simp blast
qed

end
