(* ===== verification/Data_Props.thy ===== *)
theory Data_Props
  imports Handler_Safety Demo
begin

text \<open>
  Reading, writing and resizing files at the level of requests: each handler refines an operation on
  byte sequences, and the interface of a byte file holds of the requests themselves.
\<close>

section \<open>Runs of the data handlers\<close>

lemma put_inode_same: "GetInode ino s = Some i \<Longrightarrow> put_inode ino i s = s"
  by (simp add: put_inode_def GetInode_Some list_update_same_conv)

text \<open>The space test for growing a file from its size to \<open>n\<close> bytes.\<close>

lemma space_for_growth:
  assumes "unat (Size i) < unat n" "unat n < 2 ^ 63"
  shows "CheckHasSpaceFor (Some (usage_of i)) (n - Size i) sb \<longleftrightarrow>
    blocks_for (unat n) \<le> unat (UsedBlocks i) + unat (f_bfree sb)"
proof -
  have "Size i \<le> n" using assms(1) by (simp add: word_le_nat_alt)
  then have d: "unat (n - Size i) = unat n - unat (Size i)" by (rule unat_diff_64)
  have pos: "0 < unat (n - Size i)" and sum: "unat (Size i) + unat (n - Size i) = unat n"
    using assms(1) unfolding d by linarith+
  from CheckHasSpaceFor_iff [OF pos, of "Size i" "UsedBlocks i" sb] assms(2) show ?thesis
    unfolding sum by blast
qed

lemma FuseWrite_run:
  assumes ok: "fs_ok s" and i: "live ino s = Some i" "is_File i"
    and run: "File_WriteAndReply e d off (m_stbuf s, i) = Some (r, sb, j)"
    and step: "file_step (m_stbuf s, i) (sb, j)"
  obtains s' where "FuseWrite e ino (Some d) off s = Some ([r], s')" "fs_ok s'" "GetInode ino s' = Some j"
    "touches {ino} s s'" "m_stbuf s' = sb" "s' = (put_inode ino j s)\<lparr>m_stbuf := sb\<rparr>"
proof -
  have g: "GetInode ino s = Some i" using liveD [OF i(1)] by simp
  have w: "WriteAndReply e d off (m_stbuf s, i) = Some (r, sb, j)"
    using run i(2) by (auto simp: WriteAndReply_def is_kind_simps)
  obtain s' where s': "on_inode ino (WriteAndReply e d off) s = Some (r, s')" "fs_ok s'" "GetInode ino s' = Some j"
    "touches {ino} s s'" "m_stbuf s' = sb" by (rule on_inode_file [where f = "WriteAndReply e d off", OF ok g i(2) w step])
  have "s' = (put_inode ino j s)\<lparr>m_stbuf := sb\<rparr>" using s'(1) on_inode_run(1) [OF g, of "WriteAndReply e d off", OF w] by simp
  with that s' i(1) show ?thesis by (simp add: FuseWrite_def)
qed

lemma FuseWrite_ok:
  assumes ok: "fs_ok s" and i: "live ino s = Some i" "is_File i" and bound: "unat off + length d < 2 ^ 63"
    and room: "blocks_for (unat off + length d) \<le> unat (UsedBlocks i) + unat (f_bfree (m_stbuf s))"
    and mem: "\<forall>n. env_alloc e n"
  obtains s' j where "FuseWrite e ino (Some d) off s = Some ([ReplyWrite (of_nat (length d))], s')" "fs_ok s'"
    "GetInode ino s' = Some j" "file_data j = spec_write (unat off) d (file_data i)" "same_identity i j"
    "m_stbuf s' = UpdateUsedBlocks (UsedBlocks j - UsedBlocks i) (m_stbuf s)" "touches {ino} s s'"
proof -
  have f: "file_ok i" using inode_ok_file [OF fs_ok_inode(1) [OF ok]] liveD i by blast
  let ?n = "off + of_nat (length d)"
  have n: "unat ?n = unat off + length d" by (rule write_words(1) [OF f bound])
  have "unat (Size i) \<le> 512 * blocks_for (unat (Size i))" by (rule blocks_for_ge)
  then have space: "unat off + length d \<le> 512 * blocks_for (unat (Size i)) \<or>
      CheckHasSpaceFor (Some (usage_of i)) (?n - Size i) (m_stbuf s) \<and>
      env_alloc e (of_nat (512 * blocks_for (unat off + length d)))"
    using space_for_growth [of i ?n "m_stbuf s"] room bound mem unfolding n by (meson leI order.strict_trans1)
  obtain sb j where w: "File_WriteAndReply e d off (m_stbuf s, i) = Some (ReplyWrite (of_nat (length d)), sb, j)"
    "file_ok j" "file_data j = spec_write (unat off) d (file_data i)"
    "sb = UpdateUsedBlocks (UsedBlocks j - UsedBlocks i) (m_stbuf s)" "same_identity i j"
    by (rule file_write_ok [OF f bound space])
  then have "file_step (m_stbuf s, i) (sb, j)" by (simp add: file_step_def)
  from FuseWrite_run [OF ok i w(1) this] w that show ?thesis by metis
qed

section \<open>Properties\<close>

text \<open>
  (C6) Writing refines the write of a byte sequence: if the blocks the file needs afterwards are
  no more than those it has and those free, and memory is available, a write request answers the
  number of bytes given, the content of the file becomes the old content with the bytes at the
  offset (a gap is filled with zeros), the free block counter pays for exactly the added blocks,
  and no other object changes.
\<close>

theorem write_refines:
  assumes "fs_ok s" "live ino s = Some i" "is_File i" "unat off + length d < 2 ^ 63"
    "blocks_for (unat off + length d) \<le> unat (UsedBlocks i) + unat (f_bfree (m_stbuf s))"
    "\<forall>n. env_alloc e n"
  shows "\<exists>s' j. FuseWrite e ino (Some d) off s = Some ([ReplyWrite (of_nat (length d))], s') \<and> fs_ok s' \<and>
    GetInode ino s' = Some j \<and> file_data j = spec_write (unat off) d (file_data i) \<and> same_identity i j \<and>
    m_stbuf s' = UpdateUsedBlocks (UsedBlocks j - UsedBlocks i) (m_stbuf s) \<and> touches {ino} s s'"
  using FuseWrite_ok [OF assms] by metis

theorem write_refines_witness:
  "\<exists>s' j. FuseWrite demo_env 2 (Some [33, 34]) 5 demo_fs = Some ([ReplyWrite 2], s') \<and>
     GetInode 2 s' = Some j \<and> file_data j = [104, 105, 0, 0, 0, 33, 34]"
proof -
  have d: "file_data demo_file = [104, 105]" by (simp add: demo_file_def file_data_def)
  have "unat (UsedBlocks demo_file) = 1" by (simp add: demo_file_def)
  then have "blocks_for 7 \<le> unat (UsedBlocks demo_file) + unat (f_bfree (m_stbuf demo_fs))" by (simp add: blocks_for_def)
  moreover have "spec_write 5 [33, 34] [104, 105] = [104, 105, 0, 0, 0, 33, 34]" by code_simp
  ultimately show ?thesis
    using write_refines [OF demo_fs_ok demo_live(2), of 5 "[33, 34]" demo_env] by (auto simp: d)
qed

text \<open>
  (C19) A write that would need more blocks than the file has and the file system has free
  answers out-of-space, and nothing changes: not the file, not the counters, not any object.
\<close>

theorem write_no_space:
  assumes ok: "fs_ok s" and i: "live ino s = Some i" "is_File i" and bound: "unat off + length d < 2 ^ 63"
    and full: "unat (UsedBlocks i) + unat (f_bfree (m_stbuf s)) < blocks_for (unat off + length d)"
  shows "FuseWrite e ino (Some d) off s = Some ([ReplyErr ENOSPC], s)"
proof -
  have g: "GetInode ino s = Some i" using liveD i by blast
  have f: "file_ok i" using inode_ok_file [OF fs_ok_inode(1) [OF ok]] g i by blast
  let ?n = "off + of_nat (length d)"
  have n: "unat ?n = unat off + length d" by (rule write_words(1) [OF f bound])
  have used: "unat (UsedBlocks i) = blocks_for (unat (Size i))" using f by (auto elim: file_okE)
  have grow: "512 * blocks_for (unat (Size i)) < unat off + length d"
    using full used blocks_for_least [of "unat off + length d" "blocks_for (unat (Size i))"] by linarith
  have "unat (Size i) < unat ?n" using grow n blocks_for_ge [of "unat (Size i)"] by linarith
  then have "\<not> CheckHasSpaceFor (Some (usage_of i)) (?n - Size i) (m_stbuf s)"
    using space_for_growth [of i ?n "m_stbuf s"] full bound n by simp
  from FuseWrite_run [OF ok i file_write_error [OF f bound grow this] file_step_refl [OF f]]
  show ?thesis by (metis g put_inode_same fs.surjective fs.update_convs(3))
qed

theorem write_no_space_witness:
  "FuseWrite demo_env 2 (Some [1]) 50688 demo_fs = Some ([ReplyErr ENOSPC], demo_fs)"
proof -
  have "unat (UsedBlocks demo_file) = 1" by (simp add: demo_file_def)
  then show ?thesis
    using write_no_space [OF demo_fs_ok demo_live(2), of 50688 "[1]" demo_env]
    by (simp add: blocks_for_def demo_stbuf_def)
qed


lemma FuseRead_run:
  assumes ok: "fs_ok s" and i: "live ino s = Some i" "is_File i" and bound: "unat off + unat n < 2 ^ 63"
  obtains s' j where "FuseRead e ino n off s = Some ([ReplyBuf (spec_read (unat off) (unat n) (file_data i))], s')"
    "fs_ok s'" "GetInode ino s' = Some j" "file_data j = file_data i" "same_identity i j" "touches {ino} s s'"
    "m_stbuf s' = m_stbuf s"
proof -
  have g: "GetInode ino s = Some i" using liveD i by blast
  have iok: "inode_ok i" by (rule fs_ok_inode(1) [OF ok g])
  have f: "file_ok i" using inode_ok_file [OF iok i(2)] .
  obtain j where j: "File_ReadAndReply e n off i = Some (ReplyBuf (spec_read (unat off) (unat n) (file_data i)), j)"
    "file_ok j" "file_data j = file_data i" "same_identity i j" using file_read_ok [OF f bound, of e] by blast
  have "ReadAndReply e n off i = File_ReadAndReply e n off i" using i(2) by (auto simp: ReadAndReply_def is_kind_simps)
  then have r: "FuseRead e ino n off s = Some ([ReplyBuf (spec_read (unat off) (unat n) (file_data i))], put_inode ino j s)"
    using i(1) j(1) by (simp add: FuseRead_def)
  have "fs_ok (put_inode ino j s)"
    using fs_ok_put_inode [OF ok g] file_ok_keeps [OF iok f j(2,4)] by blast
  moreover have "GetInode ino (put_inode ino j s) = Some j" using g by (simp add: GetInode_put_inode GetInode_Some)
  ultimately show ?thesis using that r j touches_put_inode [of ino s j] by simp
qed

text \<open>
  (C12) Reading refines the read of a byte sequence: the reply carries exactly the bytes of the
  content between the offset and the offset plus the size asked for, cut at the end of the file;
  the content, the counters and the other objects stay as they are.
\<close>

theorem read_refines:
  assumes "fs_ok s" "live ino s = Some i" "is_File i" "unat off + unat n < 2 ^ 63"
  shows "\<exists>s' j. FuseRead e ino n off s = Some ([ReplyBuf (spec_read (unat off) (unat n) (file_data i))], s') \<and>
    fs_ok s' \<and> GetInode ino s' = Some j \<and> file_data j = file_data i \<and> same_identity i j \<and>
    m_stbuf s' = m_stbuf s \<and> touches {ino} s s'"
  using FuseRead_run [OF assms, of e] by metis

theorem read_refines_witness:
  "\<exists>s'. FuseRead demo_env 2 4096 1 demo_fs = Some ([ReplyBuf [105]], s')"
proof -
  have d: "spec_read 1 4096 (file_data demo_file) = [105]" by (simp add: demo_file_def file_data_def spec_read_def)
  from read_refines [OF demo_fs_ok demo_live(2), of 1 4096 demo_env] d show ?thesis by auto
qed

lemma FuseSetAttr_size_run:
  assumes ok: "fs_ok s" and i: "live ino s = Some i" "is_File i" and fl: "flag_set to_set FUSE_SET_ATTR_SIZE"
    and run: "File_FileTruncate e (st_size a) (m_stbuf s, i) = Some (r, sb, j)"
    and step: "file_step (m_stbuf s, i) (sb, j)"
  obtains s' where "FuseSetAttr e ino a to_set s =
      (if r = 0 then Some ([Inode_ReplyAttr j], s') else fuse_reply_err r s')" "fs_ok s'"
    "GetInode ino s' = Some j" "touches {ino} s s'" "m_stbuf s' = sb" "s' = (put_inode ino j s)\<lparr>m_stbuf := sb\<rparr>"
proof -
  have g: "GetInode ino s = Some i" using liveD [OF i(1)] by simp
  obtain s' where s': "on_inode ino (File_FileTruncate e (st_size a)) s = Some (r, s')" "fs_ok s'"
    "GetInode ino s' = Some j" "touches {ino} s s'" "m_stbuf s' = sb"
    by (rule on_inode_file [where f = "File_FileTruncate e (st_size a)", OF ok g i(2) run step])
  have "s' = (put_inode ino j s)\<lparr>m_stbuf := sb\<rparr>"
    using s'(1) on_inode_run(1) [OF g, of "File_FileTruncate e (st_size a)", OF run] by simp
  moreover have "FuseSetAttr e ino a to_set s = (if r = 0 then Some ([Inode_ReplyAttr j], s') else fuse_reply_err r s')"
    using s'(1,3) i fl by (simp add: FuseSetAttr_def)
  ultimately show ?thesis using that s' by blast
qed

lemma sint_diff_64:
  assumes "unat (x :: u64) < 2 ^ 63" "unat (y :: u64) < 2 ^ 63"
  shows "sint (x - y) = int (unat x) - int (unat y)"
proof -
  have p: "(2 :: int) ^ 63 = 9223372036854775808" by simp
  have b: "unat x < 9223372036854775808" "unat y < 9223372036854775808" using assms by simp_all
  have "sint (x - y) = signed_take_bit 63 (sint x - sint y)" by (simp add: sint_word_ariths(2))
  also have "\<dots> = sint x - sint y"
    by (rule signed_take_bit_int_eq_self; unfold sint_nonneg_64 [OF assms(1)] sint_nonneg_64 [OF assms(2)] p)
      (use b in linarith)+
  finally show ?thesis by (simp only: sint_nonneg_64 [OF assms(1)] sint_nonneg_64 [OF assms(2)])
qed

lemma space_for_size:
  assumes ok: "file_ok i" and bound: "unat n < 2 ^ 63"
  shows "CheckHasSpaceFor (Some (usage_of i)) (n - Size i) sb \<longleftrightarrow>
    blocks_for (unat n) \<le> unat (UsedBlocks i) + unat (f_bfree sb)"
proof (cases "unat (Size i) < unat n")
  case True
  then show ?thesis by (rule space_for_growth [OF _ bound])
next
  case False
  from ok have s: "unat (Size i) < 2 ^ 63" and u: "unat (UsedBlocks i) = blocks_for (unat (Size i))"
    by (auto elim: file_okE)
  have "sint (n - Size i) \<le> 0" using False sint_diff_64 [OF bound s] by linarith
  then have "CheckHasSpaceFor (Some (usage_of i)) (n - Size i) sb"
    by (rule CheckHasSpaceFor_shrink)
  moreover have "blocks_for (unat n) \<le> unat (UsedBlocks i)" using False u blocks_for_mono [of "unat n"] by simp
  ultimately show ?thesis by simp
qed


lemma FuseSetAttr_size_ok:
  assumes ok: "fs_ok s" and i: "live ino s = Some i" "is_File i" and fl: "flag_set to_set FUSE_SET_ATTR_SIZE"
    and bound: "unat (st_size a) < 2 ^ 63" and mem: "\<forall>n. env_alloc e n"
    and room: "blocks_for (unat (st_size a)) \<le> unat (UsedBlocks i) + unat (f_bfree (m_stbuf s))"
  obtains s' j where "FuseSetAttr e ino a to_set s = Some ([Inode_ReplyAttr j], s')" "fs_ok s'"
    "GetInode ino s' = Some j" "file_data j = spec_truncate (unat (st_size a)) (file_data i)"
    "same_identity i j" "m_stbuf s' = UpdateUsedBlocks (UsedBlocks j - UsedBlocks i) (m_stbuf s)"
    "touches {ino} s s'"
proof -
  have f: "file_ok i" using inode_ok_file [OF fs_ok_inode(1) [OF ok]] liveD i by blast
  have space: "CheckHasSpaceFor (Some (usage_of i)) (st_size a - Size i) (m_stbuf s)"
    using space_for_size [OF f bound] room by simp
  obtain sb j where t: "File_FileTruncate e (st_size a) (m_stbuf s, i) = Some (0, sb, j)" "file_ok j"
    "file_data j = spec_truncate (unat (st_size a)) (file_data i)"
    "sb = UpdateUsedBlocks (UsedBlocks j - UsedBlocks i) (m_stbuf s)" "same_identity i j"
    by (rule file_truncate_ok [OF f bound space, of e]) (use mem in blast)+
  then have "file_step (m_stbuf s, i) (sb, j)" by (simp add: file_step_def)
  from FuseSetAttr_size_run [OF ok i fl t(1) this] t that show ?thesis by (metis (full_types))
qed

text \<open>
  (C14) Changing the size of a file refines truncation of a byte sequence: when the blocks needed
  are at hand, the reply carries the attributes of the changed file, the content is cut or
  extended with zeros to exactly the new size, and the free block counter moves by the blocks
  gained or lost.
\<close>

theorem truncate_refines:
  assumes "fs_ok s" "live ino s = Some i" "is_File i" "flag_set to_set FUSE_SET_ATTR_SIZE"
    "unat (st_size a) < 2 ^ 63" "\<forall>n. env_alloc e n"
    "blocks_for (unat (st_size a)) \<le> unat (UsedBlocks i) + unat (f_bfree (m_stbuf s))"
  shows "\<exists>s' j. FuseSetAttr e ino a to_set s = Some ([Inode_ReplyAttr j], s') \<and> fs_ok s' \<and>
    GetInode ino s' = Some j \<and> file_data j = spec_truncate (unat (st_size a)) (file_data i) \<and>
    same_identity i j \<and> m_stbuf s' = UpdateUsedBlocks (UsedBlocks j - UsedBlocks i) (m_stbuf s) \<and>
    touches {ino} s s'"
  using FuseSetAttr_size_ok [OF assms] by metis

theorem truncate_refines_witness:
  "\<exists>s' j. FuseSetAttr demo_env 2 (zero_stat\<lparr>st_size := 5\<rparr>) FUSE_SET_ATTR_SIZE demo_fs = Some ([Inode_ReplyAttr j], s') \<and>
     GetInode 2 s' = Some j \<and> file_data j = [104, 105, 0, 0, 0]"
proof -
  have d: "file_data demo_file = [104, 105]" by (simp add: demo_file_def file_data_def)
  have u: "unat (UsedBlocks demo_file) = 1" by (simp add: demo_file_def)
  have "spec_truncate 5 [104, 105] = [104, 105, 0, 0, 0]" by code_simp
  then show ?thesis
    using truncate_refines [OF demo_fs_ok demo_live(2), of FUSE_SET_ATTR_SIZE "zero_stat\<lparr>st_size := 5\<rparr>" demo_env] u
    by (auto simp: d blocks_for_def)
qed

text \<open>
  A size change for which the blocks are missing leaves the whole state as it was, but the
  error sent is \<^verbatim>\<open>-ENOSPC\<close>: the handler passes the negative result of \<^verbatim>\<open>FileTruncate\<close> to
  \<^verbatim>\<open>fuse_reply_err\<close>, which takes a positive error number.
\<close>

theorem truncate_no_space:
  assumes ok: "fs_ok s" and i: "live ino s = Some i" "is_File i" and fl: "flag_set to_set FUSE_SET_ATTR_SIZE"
    and bound: "unat (st_size a) < 2 ^ 63"
    and full: "unat (UsedBlocks i) + unat (f_bfree (m_stbuf s)) < blocks_for (unat (st_size a))"
  shows "FuseSetAttr e ino a to_set s = Some ([ReplyErr (- ENOSPC)], s)"
proof -
  have g: "GetInode ino s = Some i" using liveD i by blast
  have f: "file_ok i" using inode_ok_file [OF fs_ok_inode(1) [OF ok]] g i by blast
  have "\<not> CheckHasSpaceFor (Some (usage_of i)) (st_size a - Size i) (m_stbuf s)"
    using space_for_size [OF f bound] full by simp
  from FuseSetAttr_size_run [OF ok i fl file_truncate_no_space [OF f this] file_step_refl [OF f]]
  have "FuseSetAttr e ino a to_set s = fuse_reply_err (- ENOSPC) s"
    by (metis g put_inode_same fs.surjective fs.update_convs(3) neg_equal_0_iff_equal zero_neq_numeral)
  then show ?thesis by (simp add: fuse_reply_err_def)
qed

theorem truncate_no_space_witness:
  "FuseSetAttr demo_env 2 (zero_stat\<lparr>st_size := 51200\<rparr>) FUSE_SET_ATTR_SIZE demo_fs = Some ([ReplyErr (- ENOSPC)], demo_fs)"
proof -
  have u: "unat (UsedBlocks demo_file) = 1" by (simp add: demo_file_def)
  then show ?thesis
    using truncate_no_space [OF demo_fs_ok demo_live(2), of FUSE_SET_ATTR_SIZE "zero_stat\<lparr>st_size := 51200\<rparr>" demo_env]
    by (simp add: blocks_for_def demo_stbuf_def)
qed


section \<open>The file interface on requests\<close>

text \<open>
  The interface of a byte file, implemented by the handlers: the file is the object of one inode
  number, an operation is a request answered with success.
\<close>

definition live_file :: "ino_t \<Rightarrow> fs \<Rightarrow> bool" where
  "live_file ino s \<longleftrightarrow> fs_ok s \<and> (case live ino s of None \<Rightarrow> False | Some i \<Rightarrow> is_File i)"

definition content_of :: "ino_t \<Rightarrow> fs \<Rightarrow> byte list" where
  "content_of ino s = (case GetInode ino s of None \<Rightarrow> [] | Some i \<Rightarrow> file_data i)"

definition req_wrote :: "ino_t \<Rightarrow> nat \<Rightarrow> byte list \<Rightarrow> fs \<Rightarrow> fs \<Rightarrow> bool" where
  "req_wrote ino off d s s' \<longleftrightarrow> off + length d < 2 ^ 63 \<and> d \<noteq> [] \<and>
     (\<exists>e. FuseWrite e ino (Some d) (of_nat off) s = Some ([ReplyWrite (of_nat (length d))], s'))"

definition req_resized :: "ino_t \<Rightarrow> nat \<Rightarrow> fs \<Rightarrow> fs \<Rightarrow> bool" where
  "req_resized ino n s s' \<longleftrightarrow> n < 2 ^ 63 \<and>
     (\<exists>e a fl i. flag_set fl FUSE_SET_ATTR_SIZE \<and> st_size a = of_nat n \<and>
        FuseSetAttr e ino a fl s = Some ([Inode_ReplyAttr i], s'))"

definition req_read :: "ino_t \<Rightarrow> nat \<Rightarrow> nat \<Rightarrow> fs \<Rightarrow> byte list \<Rightarrow> bool" where
  "req_read ino off n s out \<longleftrightarrow> off + n < 2 ^ 63 \<and>
     (\<exists>e s'. FuseRead e ino (of_nat n) (of_nat off) s = Some ([ReplyBuf out], s'))"

lemma live_fileE:
  assumes "live_file ino s"
  obtains i where "fs_ok s" "live ino s = Some i" "is_File i" "file_ok i" "GetInode ino s = Some i"
    "content_of ino s = file_data i"
proof -
  from assms obtain i where i: "fs_ok s" "live ino s = Some i" "is_File i"
    by (auto simp: live_file_def split: option.splits)
  moreover have g: "GetInode ino s = Some i" using liveD i by blast
  moreover have "file_ok i" using inode_ok_file [OF fs_ok_inode(1) [OF i(1) g] i(3)] .
  ultimately show ?thesis using that by (simp add: content_of_def)
qed

lemma live_fileI:
  assumes "fs_ok s" "GetInode ino s = Some j" "file_ok j" "same_identity i j" "\<not> HasNoLinks i"
  shows "live_file ino s" "content_of ino s = file_data j"
proof -
  have "is_File j" using assms(3) by (auto elim: file_okE simp: is_kind_simps)
  moreover have "\<not> HasNoLinks j" using assms(4,5) by (simp add: HasNoLinks_def same_identity_def)
  ultimately show "live_file ino s" using assms(1,2) by (simp add: live_file_def live_def)
  show "content_of ino s = file_data j" using assms(2) by (simp add: content_of_def)
qed

lemma req_wroteD:
  assumes lf: "live_file ino s" and w: "req_wrote ino off d s s'"
  shows "live_file ino s' \<and> content_of ino s' = spec_write off d (content_of ino s)"
proof -
  obtain i where i: "fs_ok s" "live ino s = Some i" "is_File i" "file_ok i" "GetInode ino s = Some i"
    "content_of ino s = file_data i" by (rule live_fileE [OF lf])
  from w obtain e where b: "off + length d < 2 ^ 63" "d \<noteq> []"
    and run: "FuseWrite e ino (Some d) (of_nat off) s = Some ([ReplyWrite (of_nat (length d))], s')"
    by (auto simp: req_wrote_def)
  have "unat (of_nat off :: off_t) + length d < 2 ^ 63" using b by (simp add: unat_of_nat_64)
  then obtain r sb j where f: "File_WriteAndReply e d (of_nat off) (m_stbuf s, i) = Some (r, sb, j)"
    "file_step (m_stbuf s, i) (sb, j)" by (rule file_write_keeps [OF i(4)])
  obtain t where t: "FuseWrite e ino (Some d) (of_nat off) s = Some ([r], t)" "fs_ok t" "GetInode ino t = Some j"
    by (rule FuseWrite_run [OF i(1-3) f])
  with run f b have "file_wrote off d i j" by (auto simp: file_wrote_def)
  from file_wroteD [OF i(4) this] have "file_ok j" "file_data j = spec_write off d (file_data i)" by simp_all
  with live_fileI [OF t(2,3), of i] f(2) i liveD [OF i(2)] t run show ?thesis by (simp add: file_step_def)
qed

lemma req_resizedD:
  assumes lf: "live_file ino s" and w: "req_resized ino n s s'"
  shows "live_file ino s' \<and> content_of ino s' = spec_truncate n (content_of ino s)"
proof -
  obtain i where i: "fs_ok s" "live ino s = Some i" "is_File i" "file_ok i" "GetInode ino s = Some i"
    "content_of ino s = file_data i" by (rule live_fileE [OF lf])
  from w obtain e a fl x where b: "n < 2 ^ 63" "flag_set fl FUSE_SET_ATTR_SIZE" and sz: "st_size a = of_nat n"
    and run: "FuseSetAttr e ino a fl s = Some ([Inode_ReplyAttr x], s')"
    by (auto simp: req_resized_def)
  have "unat (st_size a) < 2 ^ 63" using b by (simp add: sz unat_of_nat_64)
  then obtain r sb j where f: "File_FileTruncate e (st_size a) (m_stbuf s, i) = Some (r, sb, j)"
    "file_step (m_stbuf s, i) (sb, j)" by (rule file_truncate_keeps [OF i(4)])
  obtain t where t: "FuseSetAttr e ino a fl s = (if r = 0 then Some ([Inode_ReplyAttr j], t) else fuse_reply_err r t)"
    "fs_ok t" "GetInode ino t = Some j" by (rule FuseSetAttr_size_run [OF i(1-3) b(2) f])
  with run have r: "r = 0" "t = s'" by (auto simp: fuse_reply_err_def Inode_ReplyAttr_def split: if_splits)
  then have "file_truncated n i j" using f b sz by (auto simp: file_truncated_def)
  from file_truncatedD [OF i(4) this] have "file_ok j" "file_data j = spec_truncate n (file_data i)" by simp_all
  with live_fileI [OF t(2,3), of i] f(2) i liveD [OF i(2)] r show ?thesis by (simp add: file_step_def)
qed

lemma live_file_read:
  assumes lf: "live_file ino s" and b: "off + n < 2 ^ 63"
  obtains s' where "FuseRead e ino (of_nat n) (of_nat off) s = Some ([ReplyBuf (spec_read off n (content_of ino s))], s')"
proof -
  obtain i where i: "fs_ok s" "live ino s = Some i" "is_File i" "content_of ino s = file_data i"
    by (rule live_fileE [OF lf])
  have u: "unat (of_nat off :: off_t) = off" "unat (of_nat n :: size_t) = n" using b by (simp_all add: unat_of_nat_64)
  with FuseRead_run [OF i(1-3), of "of_nat off" "of_nat n" e] b that i(4) show ?thesis by (metis (no_types))
qed

lemma req_readD:
  assumes lf: "live_file ino s" and r: "req_read ino off n s out"
  shows "out = spec_read off n (content_of ino s)"
proof -
  from r obtain e s' where b: "off + n < 2 ^ 63"
    and run: "FuseRead e ino (of_nat n) (of_nat off) s = Some ([ReplyBuf out], s')" by (auto simp: req_read_def)
  show ?thesis by (rule live_file_read [OF lf b, of e]) (simp add: run)
qed

interpretation file_requests: byte_file "live_file ino" "content_of ino" "req_wrote ino" "req_resized ino" "req_read ino"
  for ino
  by unfold_locales (blast dest: req_wroteD req_resizedD req_readD)+



text \<open>
  A read request of the range a write request has just filled answers the written bytes.
\<close>

theorem read_request_after_write:
  assumes "live_file ino s" "off + length d < 2 ^ 63" "d \<noteq> []"
    "FuseWrite e ino (Some d) (of_nat off) s = Some ([ReplyWrite (of_nat (length d))], s1)"
  shows "\<exists>s2. FuseRead e' ino (of_nat (length d)) (of_nat off) s1 = Some ([ReplyBuf d], s2)"
proof -
  have w: "req_wrote ino off d s s1" using assms(2-4) by (auto simp: req_wrote_def)
  have lf: "live_file ino s1" using req_wroteD [OF assms(1) w] by simp
  obtain s2 where r: "FuseRead e' ino (of_nat (length d)) (of_nat off) s1 =
      Some ([ReplyBuf (spec_read off (length d) (content_of ino s1))], s2)"
    by (rule live_file_read [OF lf assms(2)])
  then have "req_read ino off (length d) s1 (spec_read off (length d) (content_of ino s1))"
    using assms(2) by (auto simp: req_read_def)
  from file_requests.read_after_write [OF assms(1) w this] r show ?thesis by auto
qed

lemma demo_live_file: "live_file 2 demo_fs" "content_of 2 demo_fs = [104, 105]"
  by (simp_all add: live_file_def content_of_def demo_fs_ok)
    (simp add: demo_file_def file_data_def)

theorem read_request_after_write_witness:
  "\<exists>s1 s2. FuseWrite demo_env 2 (Some [9, 8, 7]) 700 demo_fs = Some ([ReplyWrite 3], s1) \<and>
     FuseRead demo_env 2 3 700 s1 = Some ([ReplyBuf [9, 8, 7]], s2)"
proof -
  have u: "UsedBlocks demo_file = 1" by (simp add: demo_file_def)
  obtain s1 where w: "FuseWrite demo_env 2 (Some [9, 8, 7]) 700 demo_fs = Some ([ReplyWrite 3], s1)"
    by (rule FuseWrite_ok [OF demo_fs_ok demo_live(2), of 700 "[9, 8, 7]" demo_env])
      (simp_all add: u blocks_for_def demo_stbuf_def)
  from read_request_after_write [OF demo_live_file(1), of 700 "[9, 8, 7]" demo_env s1 demo_env] w show ?thesis by auto
qed

text \<open>
  A file that is cut to \<open>m\<close> bytes and then extended to \<open>n\<close> bytes reads as zeros in the extension:
  the old bytes do not come back.
\<close>

theorem shrunk_file_reads_zero:
  assumes "live_file ino s" "m \<le> n" "n < 2 ^ 63" "flag_set fl FUSE_SET_ATTR_SIZE"
    "st_size a1 = of_nat m" "FuseSetAttr e ino a1 fl s = Some ([Inode_ReplyAttr x], s1)"
    "st_size a2 = of_nat n" "FuseSetAttr e ino a2 fl s1 = Some ([Inode_ReplyAttr y], s2)"
  shows "\<exists>s3. FuseRead e ino (of_nat (n - m)) (of_nat m) s2 = Some ([ReplyBuf (replicate (n - m) 0)], s3)"
proof -
  have w1: "req_resized ino m s s1" and w2: "req_resized ino n s1 s2"
    using assms(2-) order.strict_trans1 [OF assms(2,3)] unfolding req_resized_def by blast+
  have lf: "live_file ino s2" using req_resizedD [OF _ w2] req_resizedD [OF assms(1) w1] by simp
  have b: "m + (n - m) < 2 ^ 63" using assms by simp
  obtain s3 where r: "FuseRead e ino (of_nat (n - m)) (of_nat m) s2 =
      Some ([ReplyBuf (spec_read m (n - m) (content_of ino s2))], s3)"
    by (rule live_file_read [OF lf b])
  then have "req_read ino m (n - m) s2 (spec_read m (n - m) (content_of ino s2))"
    using b by (auto simp: req_read_def)
  from file_requests.shrink_then_grow_reads_zero [OF assms(1) w1 w2 assms(2) this] r show ?thesis by auto
qed

theorem shrunk_file_reads_zero_witness:
  "\<exists>x y s1 s2 s3.
     FuseSetAttr demo_env 2 (zero_stat\<lparr>st_size := 1\<rparr>) FUSE_SET_ATTR_SIZE demo_fs = Some ([Inode_ReplyAttr x], s1) \<and>
     FuseSetAttr demo_env 2 (zero_stat\<lparr>st_size := 3\<rparr>) FUSE_SET_ATTR_SIZE s1 = Some ([Inode_ReplyAttr y], s2) \<and>
     FuseRead demo_env 2 2 1 s2 = Some ([ReplyBuf [0, 0]], s3)"
proof -
  let ?a = "\<lambda>n. zero_stat\<lparr>st_size := n\<rparr>"
  have u: "UsedBlocks demo_file = 1" by (simp add: demo_file_def)
  obtain s1 x where 1: "FuseSetAttr demo_env 2 (?a 1) FUSE_SET_ATTR_SIZE demo_fs = Some ([Inode_ReplyAttr x], s1)"
    "fs_ok s1" "GetInode 2 s1 = Some x" "same_identity demo_file x" "file_data x = spec_truncate 1 (file_data demo_file)"
    by (rule FuseSetAttr_size_ok [OF demo_fs_ok demo_live(2), of FUSE_SET_ATTR_SIZE "?a 1" demo_env])
      (simp_all add: u blocks_for_def demo_stbuf_def)
  have lf: "live_file 2 s1"
    using req_resizedD [OF demo_live_file(1), of 1 s1] 1(1) by (force simp: req_resized_def)
  obtain z where z: "live 2 s1 = Some z" "is_File z" "file_ok z" "GetInode 2 s1 = Some z"
    by (rule live_fileE [OF lf])
  have "length (file_data x) = unat (Size x)" using z 1(3) by (intro length_file_data) simp
  then have "unat (Size z) = 1" using 1(3,5) z(4) by simp
  then have used: "unat (UsedBlocks z) = 1" using z(3) by (auto elim!: file_okE simp: blocks_for_def)
  obtain s2 y where 2: "FuseSetAttr demo_env 2 (?a 3) FUSE_SET_ATTR_SIZE s1 = Some ([Inode_ReplyAttr y], s2)"
    by (rule FuseSetAttr_size_ok [OF 1(2) z(1,2), of FUSE_SET_ATTR_SIZE "?a 3" demo_env])
      (simp_all add: blocks_for_def used)
  have z2: "replicate 2 (0 :: byte) = [0, 0]" by (simp add: numeral_2_eq_2)
  from shrunk_file_reads_zero [OF demo_live_file(1), of 1 3 FUSE_SET_ATTR_SIZE "?a 1" demo_env x s1 "?a 3" y s2] 1(1) 2
  show ?thesis by (auto simp: z2)
qed

end
