(* ===== verification/Name_Props.thy ===== *)
theory Name_Props
  imports Data_Props
begin

text \<open>
  The name space at the level of requests: looking up, creating, unlinking, removing directories,
  linking and forgetting, each with what it leaves of the objects, the entries and the counters.
\<close>

section \<open>Looking up\<close>

lemma dir_lookup_dir: "dir_lookup i name = Some k \<Longrightarrow> is_Directory i"
  by (auto simp: dir_lookup_def m_children_def is_Directory_def split: inode_obj.splits)

lemma FuseLookup_found:
  assumes "live parent s = Some p" "dir_lookup p name = Some ino" "ino \<noteq> 0" "live ino s = Some i"
  shows "FuseLookup parent name s =
    Some ([ReplyEntry (m_fuseEntryParam i)], put_inode ino (i\<lparr>m_nlookup := m_nlookup i + 1\<rparr>) s)"
  using assms liveD [OF assms(4)] dir_lookup_dir [OF assms(2)]
  by (simp add: FuseLookup_def ChildInodeNumberWithName_lookup INO_NOTFOUND_def reply_entry_def Inode_ReplyEntry_def)

lemma FuseLookup_missing:
  assumes "live parent s = Some p" "is_Directory p" "dir_lookup p name = None"
  shows "FuseLookup parent name s = Some ([ReplyErr ENOENT], s)"
  using assms by (simp add: FuseLookup_def ChildInodeNumberWithName_lookup fuse_reply_err_def)

lemma liveI: "GetInode ino s = Some i \<Longrightarrow> st_nlink (i_attr i) \<noteq> 0 \<Longrightarrow> live ino s = Some i"
  by (simp add: live_def HasNoLinks_def)

lemma live_links: "live ino s = Some i \<Longrightarrow> st_nlink (i_attr i) \<noteq> 0"
  using liveD [of ino s i] by (simp add: HasNoLinks_def)

section \<open>Creating\<close>

lemma created_put:
  assumes c: "created parent name mode link ino 0 s s'" and j: "GetInode ino s' = Some j"
  shows "created parent name mode link ino 1 s (put_inode ino (j\<lparr>m_nlookup := m_nlookup j + 1\<rparr>) s')"
proof -
  let ?t = "put_inode ino (j\<lparr>m_nlookup := m_nlookup j + 1\<rparr>) s'"
  have k: "unat ino < length (Inodes s')" using j by (simp add: GetInode_Some)
  have g: "GetInode ino ?t = Some (j\<lparr>m_nlookup := m_nlookup j + 1\<rparr>)" "parent \<noteq> ino \<Longrightarrow> GetInode parent ?t = GetInode parent s'"
    using k by (simp_all add: GetInode_put_inode)
  have "touches {ino, parent} s ?t"
    using c touches_put_inode [of ino s'] by (auto simp: created_def intro: touches_trans)
  with c j g show ?thesis by (auto simp: created_def GetMode_def is_kind_simps)
qed

lemma created_reply:
  assumes c: "created parent name mode link ino 0 s s'"
  obtains j t where "reply_entry ino s' = Some ([ReplyEntry (m_fuseEntryParam j)], t)"
    "reply_create ino s' = Some ([ReplyCreate (m_fuseEntryParam j)], t)"
    "created parent name mode link ino 1 s t" "GetInode ino t = Some j"
proof -
  from c obtain j where j: "GetInode ino s' = Some j" by (auto simp: created_def)
  then have k: "unat ino < length (Inodes s')" by (simp add: GetInode_Some)
  let ?j = "j\<lparr>m_nlookup := m_nlookup j + 1\<rparr>"
  show ?thesis
    by (rule that [of ?j "put_inode ino ?j s'"])
      (use j k created_put [OF c j] in \<open>simp_all add: reply_entry_def reply_create_def Inode_ReplyEntry_def
        Inode_ReplyCreate_def GetInode_put_inode\<close>)
qed

text \<open>
  The common tail of the creating handlers: every error is positive and leaves the objects alone,
  every success binds the name to a new object of the mode asked for.
\<close>

definition made :: "ino_t \<Rightarrow> string \<Rightarrow> mode_t \<Rightarrow> string option \<Rightarrow> (fuse_entry_param \<Rightarrow> reply) \<Rightarrow> fs \<Rightarrow> outcome \<Rightarrow> bool" where
  "made parent name mode link rep s out \<longleftrightarrow>
     (\<exists>n t. out = Some ([ReplyErr n], t) \<and> 0 < n \<and> touches {} s t \<and> fs_ok t) \<or>
     (\<exists>ino j t. out = Some ([rep (m_fuseEntryParam j)], t) \<and> GetInode ino t = Some j \<and>
        created parent name mode link ino 1 s t \<and> fs_ok t)"

lemma made_err [simp]: "fs_ok s \<Longrightarrow> 0 < n \<Longrightarrow> made parent name mode link rep s (fuse_reply_err n s)"
  by (auto simp: made_def fuse_reply_err_def)

lemma create_node_made:
  assumes ok: "fs_ok s" and fits: "entry_fits parent name s" and p: "live parent s = Some p" "is_Directory p"
    and null: "GetInode 0 s \<noteq> None"
  shows "made parent name mode link ReplyEntry s (do { (ino, s') \<leftarrow> do_create_node e ctx parent name mode dev link s;
      if ino > 0 then reply_entry (word_of_int ino) s' else fuse_reply_err (- ino) s' })"
    "made parent name mode link ReplyCreate s (do { (ino, s') \<leftarrow> do_create_node e ctx parent name mode dev link s;
      if ino > 0 then reply_create (word_of_int ino) s' else fuse_reply_err (- ino) s' })"
proof -
  have gp: "GetInode parent s = Some p" using p liveD by blast
  obtain r s' where run: "do_create_node e ctx parent name mode dev link s = Some (r, s')" "fs_ok s'"
    "- r \<in> {EEXIST, EINVAL, ENOSPC} \<and> touches {} s s' \<or>
     (\<exists>ino. unat ino < 2 ^ 63 \<and> r = int (unat ino) \<and> created parent name mode link ino 0 s s')"
    by (rule do_create_node_ok [OF ok gp p(2) entry_fitsD [OF fits gp], of e ctx mode dev link])
  have "made parent name mode link ReplyEntry s (if r > 0 then reply_entry (word_of_int r) s' else fuse_reply_err (- r) s') \<and>
    made parent name mode link ReplyCreate s (if r > 0 then reply_create (word_of_int r) s' else fuse_reply_err (- r) s')"
    using run(3)
  proof (elim disjE exE conjE)
    assume "- r \<in> {EEXIST, EINVAL, ENOSPC}" "touches {} s s'"
    with run(2) show ?thesis by (auto simp: made_def fuse_reply_err_def)
  next
    fix ino assume i: "unat ino < 2 ^ 63" "r = int (unat ino)" and c: "created parent name mode link ino 0 s s'"
    have "ino \<noteq> 0" using c null by (auto simp: created_def)
    then have "r > 0" using i(2) by (metis of_nat_0_less_iff unat_gt_0)
    moreover have "word_of_int r = ino" using i by simp
    ultimately have r: "r > 0" "word_of_int r = ino" by blast+
    obtain j t where t: "reply_entry ino s' = Some ([ReplyEntry (m_fuseEntryParam j)], t)"
      "reply_create ino s' = Some ([ReplyCreate (m_fuseEntryParam j)], t)"
      "created parent name mode link ino 1 s t" "GetInode ino t = Some j" by (rule created_reply [OF c])
    from c obtain j' where "GetInode ino s' = Some j'" by (auto simp: created_def)
    from served_entry(1) [OF run(2) this refl] t(1) have "fs_ok t" by (simp add: served_def)
    with t r show ?thesis unfolding made_def by auto
  qed
  with run(1) show "made parent name mode link ReplyEntry s (do { (ino, s') \<leftarrow> do_create_node e ctx parent name mode dev link s;
      if ino > 0 then reply_entry (word_of_int ino) s' else fuse_reply_err (- ino) s' })"
    "made parent name mode link ReplyCreate s (do { (ino, s') \<leftarrow> do_create_node e ctx parent name mode dev link s;
      if ino > 0 then reply_create (word_of_int ino) s' else fuse_reply_err (- ino) s' })" by simp_all
qed

text \<open>
  (C20) Making a directory, with the permission bits that the kernel sends as its mode, is all or nothing for the objects: either the request is answered with a
  (positive) error and no object changes, or the reply carries the entry of a new directory, in a slot
  that was empty, with the two dot entries, two links and one lookup, bound under the name in the
  parent, whose link count goes up by one; every other object stays as it was.
\<close>

theorem mkdir_all_or_nothing:
  assumes "fs_ok s" "entry_fits parent name s" "live parent s = Some p" "GetInode 0 s \<noteq> None"
  shows "made parent name (mode OR S_IFDIR) None ReplyEntry s (FuseMkdir e ctx parent name mode s)"
  using assms create_node_made(1) [OF assms(1-3) _ assms(4)] by (simp add: FuseMkdir_def)

theorem mkdir_all_or_nothing_witness:
  "made 1 ''sub'' (0x1ED OR S_IFDIR) None ReplyEntry demo_fs (FuseMkdir demo_env demo_ctx 1 ''sub'' 0x1ED demo_fs)"
  by (rule mkdir_all_or_nothing [OF demo_fs_ok _ demo_live(1)]) (simp_all add: entry_fits_def dir_bytes_def)

text \<open>
  The same for a regular file made by a create request: a new empty file with one link, or an
  error and no change to any object.
\<close>

theorem create_all_or_nothing:
  assumes "fs_ok s" "entry_fits parent name s" "live parent s = Some p" "GetInode 0 s \<noteq> None"
  shows "made parent name (mode OR S_IFREG) None ReplyCreate s (FuseCreate e ctx parent name mode s)"
  using assms create_node_made(2) [OF assms(1-3) _ assms(4)] by (simp add: FuseCreate_def)

theorem create_all_or_nothing_witness:
  "made 1 ''b'' (0x1A4 OR S_IFREG) None ReplyCreate demo_fs (FuseCreate demo_env demo_ctx 1 ''b'' 0x1A4 demo_fs)"
  by (rule create_all_or_nothing [OF demo_fs_ok _ demo_live(1)]) (simp_all add: entry_fits_def dir_bytes_def)

text \<open>
  The same for device nodes, fifos, sockets and regular files made by a mknod request: the
  object gets the payload class of the file type asked for.
\<close>

theorem mknod_all_or_nothing:
  assumes "fs_ok s" "entry_fits parent name s" "live parent s = Some p" "GetInode 0 s \<noteq> None"
  shows "made parent name mode None ReplyEntry s (FuseMknod e ctx parent name mode rdev s)"
  using assms create_node_made(1) [OF assms(1-3) _ assms(4)] by (simp add: FuseMknod_def)

theorem mknod_all_or_nothing_witness:
  "made 1 ''p'' (S_IFIFO OR 0x1A4) None ReplyEntry demo_fs (FuseMknod demo_env demo_ctx 1 ''p'' (S_IFIFO OR 0x1A4) 0 demo_fs)"
  by (rule mknod_all_or_nothing [OF demo_fs_ok _ demo_live(1)]) (simp_all add: entry_fits_def dir_bytes_def)

section \<open>When creation succeeds\<close>

lemma Register_file_blocks:
  assumes "RegisterInode e (new_File junk) mode nlink gid uid s = Some (ino, s')"
  shows "f_bfree (m_stbuf s') = f_bfree (m_stbuf s)"
  using assms
  by (auto simp: RegisterInode_def Initialize_def new_File_def new_Inode_def AddInode_def UpdateInode_def
      PopOneDeletedInode_def put_inode_def split: if_splits Option.bind_splits list.splits)

lemma create_file_ok:
  assumes ok: "fs_ok s" and p: "live parent s = Some p" "is_Directory p" and fits: "entry_fits parent name s"
    and new: "name \<notin> dom (dir_lookup p)" and free: "0 < unat (f_ffree (m_stbuf s))" and mem: "env_new e"
    and reg: "S_ISREG mode"
    and room: "blocks_for (dir_bytes (m_children p) + 72 + length name) \<le>
      unat (UsedBlocks p) + unat (f_bfree (m_stbuf s))"
  obtains ino s' where "do_create_node e ctx parent name mode dev link s = Some (int (unat ino), s')"
    "created parent name mode link ino 0 s s'" "fs_ok s'" "unat ino < 2 ^ 63"
proof -
  have gp: "GetInode parent s = Some p" using p liveD by blast
  note fits' = entry_fitsD [OF fits gp]
  have dok: "dir_ok p" using inode_ok_dir [OF fs_ok_inode(1) [OF ok gp] p(2)] .
  have nd: "\<not> S_ISDIR mode" using reg by auto
  have obj: "create_object e mode dev link = Inr (new_File (env_param e), 1)" using reg mem by (simp add: create_object_def)
  have nf: "\<not> GetFreeInodes (m_stbuf s) \<le> 0" using free by (simp add: GetFreeInodes_def unat_gt_0)
  obtain ino s1 s2 j where c:
    "RegisterInode e (new_File (env_param e)) mode 1 (ctx_gid ctx) (ctx_uid ctx) s = Some (ino, s1)" "s1 = s2"
    "fs_ok s2" "GetInode ino s = None" "ino \<noteq> parent" "touches {ino} s s2" "unat ino < 2 ^ 63"
    by (rule create_unbound [OF ok gp nf obj, of ctx]) (use nd in simp)
  have p2: "GetInode parent s2 = Some p" using touchesD(1) [OF c(6), of parent] c(5) gp by simp
  have el: "unat (elem_size name) = 72 + length name" using fits' by (intro unat_elem_size) simp
  have sz: "unat (Size p) = dir_bytes (m_children p)" using dok by (auto elim: dir_okE)
  have "CheckHasSpaceFor (Some (usage_of p)) (elem_size name) (m_stbuf s2)"
    by (subst CheckHasSpaceFor_iff)
      (use fits' room Register_file_blocks [OF c(1)] in \<open>simp_all add: el sz c(2) add.assoc\<close>)
  then obtain sb p3 where a: "AddChild name ino (m_stbuf s2, p) = Some (0, sb, p3)"
    using AddChild_ok [OF dok new _ fits'] by metis
  obtain r s' where run: "do_create_node e ctx parent name mode dev link s = Some (r, s')" "fs_ok s'"
    "- r \<in> {EEXIST, EINVAL, ENOSPC} \<and> touches {} s s' \<or>
     (\<exists>ino. unat ino < 2 ^ 63 \<and> r = int (unat ino) \<and> created parent name mode link ino 0 s s')"
    by (rule do_create_node_ok [OF ok gp p(2) fits', of e ctx mode dev link])
  have "do_create_node e ctx parent name mode dev link s = Some (sint ino, (put_inode parent p3 s2)\<lparr>m_stbuf := sb\<rparr>)"
    using on_inode_run(1) [OF p2, of "AddChild name ino", OF a] c(1,2) obj nf nd by (simp add: do_create_node_def)
  with run(1) have "r = int (unat ino)" using sint_nonneg_64 [OF c(7)] by simp
  then have "- r \<le> 0" by simp
  then have "- r \<notin> {EEXIST, EINVAL, ENOSPC}" by auto
  with run that show ?thesis by auto
qed

text \<open>
  (C18) Creating a file succeeds whenever it should: with a free inode, a name not yet bound and the
  block the parent may need for the new entry at hand, the reply carries the new entry, and a lookup
  of the name in the new state answers the same inode.
\<close>

theorem create_then_lookup:
  assumes ok: "fs_ok s" and p: "live parent s = Some p" "is_Directory p" and fits: "entry_fits parent name s"
    and new: "name \<notin> dom (dir_lookup p)" and free: "0 < unat (f_ffree (m_stbuf s))" and mem: "env_new e"
    and reg: "S_ISREG (mode OR S_IFREG)" and null: "GetInode 0 s \<noteq> None"
    and room: "blocks_for (dir_bytes (m_children p) + 72 + length name) \<le>
      unat (UsedBlocks p) + unat (f_bfree (m_stbuf s))"
  shows "\<exists>ino j t t'. FuseCreate e ctx parent name mode s = Some ([ReplyCreate (m_fuseEntryParam j)], t) \<and>
    GetInode ino s = None \<and> GetInode ino t = Some j \<and> m_obj j = File [] \<and> st_nlink (i_attr j) = 1 \<and>
    FuseLookup parent name t = Some ([ReplyEntry (m_fuseEntryParam j)], t')"
proof -
  obtain ino s' where c: "do_create_node e ctx parent name (mode OR S_IFREG) 0 None s = Some (int (unat ino), s')"
    "created parent name (mode OR S_IFREG) None ino 0 s s'" "unat ino < 2 ^ 63"
    by (rule create_file_ok [OF ok p fits new free mem reg room])
  obtain j t where t: "reply_create ino s' = Some ([ReplyCreate (m_fuseEntryParam j)], t)"
    "created parent name (mode OR S_IFREG) None ino 1 s t" "GetInode ino t = Some j" by (rule created_reply [OF c(2)])
  have nz: "ino \<noteq> 0" using c(2) null by (auto simp: created_def)
  then have "0 < int (unat ino)" by (metis of_nat_0_less_iff unat_gt_0)
  then have run: "FuseCreate e ctx parent name mode s = Some ([ReplyCreate (m_fuseEntryParam j)], t)"
    using p c(1) t(1) by (simp add: FuseCreate_def)
  have j: "m_obj j = File []" "st_nlink (i_attr j) = 1" "GetInode ino s = None"
    using t(2,3) reg by (auto simp: created_def new_payload_def)
  from t(2) p obtain p' where p': "GetInode parent t = Some p'" "dir_lookup p' name = Some ino"
    "st_nlink (i_attr p') = st_nlink (i_attr p)"
    using reg liveD [OF p(1)] by (auto simp: created_def)
  have "live parent t = Some p'" by (rule liveI [OF p'(1)]) (use p'(3) live_links [OF p(1)] in simp)
  moreover have "live ino t = Some j" by (rule liveI [OF t(3)]) (simp add: j)
  ultimately show ?thesis using FuseLookup_found [of parent t p' name ino j] p'(2) nz run j t(3) by blast
qed

theorem create_then_lookup_witness:
  "\<exists>pr t t'. FuseCreate demo_env demo_ctx 1 ''b'' 0x1A4 demo_fs = Some ([ReplyCreate pr], t) \<and>
     FuseLookup 1 ''b'' t = Some ([ReplyEntry pr], t')"
proof -
  have "UsedBlocks demo_root = 1" by (simp add: demo_root_def)
  moreover have "S_ISREG (0x1A4 OR S_IFREG)" by simp
  ultimately show ?thesis
    using create_then_lookup [OF demo_fs_ok demo_live(1), of "''b''" demo_env "0x1A4" demo_ctx]
    by (auto simp: entry_fits_def dir_bytes_def dir_lookup_def blocks_for_def demo_stbuf_def)
qed

section \<open>Removing\<close>

lemma on_inode_RemoveChild_ok:
  assumes ok: "fs_ok s" and d: "GetInode k s = Some d" "dir_lookup d name = Some c"
  obtains s' d' where "on_inode k (RemoveChild e name) s = Some (0, s')" "fs_ok s'" "GetInode k s' = Some d'"
    "touches {k} s s'" "dir_step (m_stbuf s, d) (m_stbuf s', d')" "dir_lookup d' = (dir_lookup d)(name := None)"
proof -
  note dir = dir_lookup_dir [OF d(2)]
  obtain r s' d' where a: "on_inode k (RemoveChild e name) s = Some (r, s')" "fs_ok s'"
    "GetInode k s' = Some d'" "touches {k} s s'" "dir_step (m_stbuf s, d) (m_stbuf s', d')"
    "RemoveChild e name (m_stbuf s, d) = Some (r, m_stbuf s', d')"
    by (rule on_inode_RemoveChild [OF ok d(1) dir])
  have dok: "dir_ok d" by (rule inode_ok_dir [OF fs_ok_inode(1) [OF ok d(1)] dir])
  have ex: "name \<in> dom (dir_lookup d)" using d(2) by blast
  from RemoveChild_ok [OF dok ex, of e "m_stbuf s"] a(6) have r: "r = 0" by (metis Pair_inject option.inject)
  then have "child_removed name d d'" using a(6) by (auto simp: child_removed_def)
  from fs_dir.removed_entries [OF dok this] that a r show ?thesis by blast
qed

lemma child_number: "dir_lookup p name = Some ino \<Longrightarrow> ChildInodeNumberWithName name p = ino"
  by (simp add: ChildInodeNumberWithName_lookup)

text \<open>
  (C23) Unlinking a bound name answers success, takes exactly that entry out of the directory, lowers
  the link count of the object by one and touches nothing else; a lookup of the name then answers
  that there is no such entry.
\<close>

theorem unlink_removes:
  assumes ok: "fs_ok s" and p: "live parent s = Some p" "dir_lookup p name = Some ino"
    and i: "ino \<noteq> 0" "ino \<noteq> parent" "GetInode ino s = Some i"
  shows "\<exists>s' p'. FuseUnlink e parent name s = Some ([ReplyErr 0], s') \<and> fs_ok s' \<and>
    GetInode ino s' = Some (DecrementLinkCount i) \<and> GetInode parent s' = Some p' \<and>
    dir_lookup p' = (dir_lookup p)(name := None) \<and> touches {parent, ino} s s' \<and>
    FuseLookup parent name s' = Some ([ReplyErr ENOENT], s')"
proof -
  have gp: "GetInode parent s = Some p" using p liveD by blast
  obtain s1 p1 where 1: "on_inode parent (RemoveChild e name) s = Some (0, s1)" "fs_ok s1" "GetInode parent s1 = Some p1"
    "touches {parent} s s1" "dir_step (m_stbuf s, p) (m_stbuf s1, p1)" "dir_lookup p1 = (dir_lookup p)(name := None)"
    by (rule on_inode_RemoveChild_ok [OF ok gp p(2)])
  have i1: "GetInode ino s1 = Some i" using touchesD(1) [OF 1(4), of ino] i by simp
  obtain s2 where 2: "modify_inode ino DecrementLinkCount s1 = Some s2" "fs_ok s2"
    "GetInode ino s2 = Some (DecrementLinkCount i)" "touches {ino} s1 s2"
    by (rule modify_inode_ok [OF 1(2) i1, of DecrementLinkCount])
      (use fs_ok_inode(1) [OF 1(2) i1] in \<open>simp_all add: link_count_keeps\<close>)
  have p2: "GetInode parent s2 = Some p1" using touchesD(1) [OF 2(4), of parent] 1(3) i(2) by simp
  have t: "touches {parent, ino} s s2" by (rule touches_trans [OF 1(4) 2(4)]) simp
  have run: "FuseUnlink e parent name s = Some ([ReplyErr 0], s2)"
    using p i 1(1) 2(1) dir_lookup_dir [OF p(2)] by (simp add: FuseUnlink_def child_number INO_NOTFOUND_def fuse_reply_err_def)
  have "live parent s2 = Some p1" using p2 live_links [OF p(1)] 1(5) by (simp add: liveI dir_step_def)
  then have "FuseLookup parent name s2 = Some ([ReplyErr ENOENT], s2)"
    by (rule FuseLookup_missing) (use 1(5,6) in \<open>simp_all add: dir_step_def\<close>)
  with run 2 p2 1(6) t show ?thesis by blast
qed

theorem unlink_removes_witness:
  "\<exists>s' p'. FuseUnlink demo_env 1 ''a'' demo_fs = Some ([ReplyErr 0], s') \<and> GetInode 1 s' = Some p' \<and>
     dir_lookup p' ''a'' = None \<and> FuseLookup 1 ''a'' s' = Some ([ReplyErr ENOENT], s')"
proof -
  have "dir_lookup demo_root ''a'' = Some 2" by (simp add: dir_lookup_def)
  from unlink_removes [OF demo_fs_ok demo_live(1) this, of demo_file demo_env] show ?thesis by auto
qed

text \<open>
  A directory with an entry besides the two dot entries that names a linked object is not
  removed: the request answers that it is not empty and the state stays as it was.
\<close>

theorem rmdir_not_empty:
  assumes "live parent s = Some p" "dir_lookup p name = Some ino" "ino \<noteq> 0" "ino \<noteq> parent"
    "live ino s = Some d" "is_Directory d" "(n, k) \<in> set (m_children d)" "n \<noteq> ''.''" "n \<noteq> ''..''" "live k s = Some x"
  shows "FuseRmdir e parent name s = Some ([ReplyErr ENOTEMPTY], s)"
proof -
  have "\<not> Directory_IsEmpty (\<lambda>k. GetInode k s) d"
    using assms(7-9) liveD [OF assms(10)] by (force simp: Directory_IsEmpty_def list_all_iff)
  then show ?thesis
    using assms dir_lookup_dir [OF assms(2)] by (simp add: FuseRmdir_def child_number INO_NOTFOUND_def fuse_reply_err_def)
qed

theorem rmdir_not_empty_witness:
  "FuseRmdir demo_env 1 ''d'' demo_tree = Some ([ReplyErr ENOTEMPTY], demo_tree)"
  by (rule rmdir_not_empty [OF tree_live(1) _ _ _ tree_live(3), where n = "''f''" and k = 4 and x = tree_f])
    (simp_all add: dir_lookup_def)

lemma NumLinks_small: "unat (st_nlink (i_attr i)) < 2 ^ 31 \<Longrightarrow> NumLinks i = int (unat (st_nlink (i_attr i)))"
proof -
  assume a: "unat (st_nlink (i_attr i)) < 2 ^ 31"
  let ?w = "ucast (st_nlink (i_attr i)) :: u32"
  have u: "unat ?w = unat (st_nlink (i_attr i))" using a by (simp add: unsigned_ucast_eq take_bit_nat_eq_self)
  have "int (unat ?w) < int (2 ^ 31)" using a by (simp only: u of_nat_less_iff)
  then have "uint ?w < 2 ^ 31" by simp
  moreover have "- (2 ^ 31) \<le> uint ?w" by (rule order_trans [OF _ uint_ge_0]) simp
  ultimately have "signed_take_bit 31 (uint ?w) = uint ?w" by (intro signed_take_bit_int_eq_self)
  then have "sint ?w = int (unat ?w)" by (simp add: sint_uint)
  then show ?thesis by (simp only: NumLinks_def u)
qed

lemma drop_links_zero: "unat (st_nlink (i_attr i)) < 2 ^ 31 \<Longrightarrow> st_nlink (i_attr (drop_links i)) = 0"
proof (induction i rule: drop_links.induct)
  case (1 i)
  show ?case
  proof (cases "st_nlink (i_attr i) = 0")
    case True
    then show ?thesis using NumLinks_small [OF 1(2)] by (subst drop_links.simps) simp
  next
    case False
    let ?j = "DecrementLinkCount i"
    have "unat (st_nlink (i_attr ?j)) = unat (st_nlink (i_attr i)) - 1"
      using False by (simp add: DecrementLinkCount_def unat_minus_one)
    moreover have "NumLinks i > 0" using NumLinks_small [OF 1(2)] False by (metis of_nat_0_less_iff unat_gt_0)
    ultimately show ?thesis using 1 by (subst drop_links.simps) simp
  qed
qed


text \<open>
  (C24) Removing an empty directory answers success, takes its entry out of the parent, lowers the
  parent's link count by one and drops every link of the directory, so that it goes away with its
  last lookup; a lookup of the name then answers that there is no such entry.
\<close>

theorem rmdir_removes:
  assumes ok: "fs_ok s" and p: "live parent s = Some p" "dir_lookup p name = Some ino" "st_nlink (i_attr p) \<noteq> 1"
    and d: "ino \<noteq> 0" "ino \<noteq> parent" "live ino s = Some d" "is_Directory d"
    and empty: "Directory_IsEmpty (\<lambda>k. GetInode k s) d" and small: "unat (st_nlink (i_attr d)) < 2 ^ 31"
  shows "\<exists>s' p' d'. FuseRmdir e parent name s = Some ([ReplyErr 0], s') \<and> fs_ok s' \<and>
    GetInode parent s' = Some p' \<and> dir_lookup p' = (dir_lookup p)(name := None) \<and>
    st_nlink (i_attr p') = st_nlink (i_attr p) - 1 \<and> GetInode ino s' = Some d' \<and> HasNoLinks d' \<and>
    touches {parent, ino} s s' \<and> FuseLookup parent name s' = Some ([ReplyErr ENOENT], s')"
proof -
  have gp: "GetInode parent s = Some p" and gd: "GetInode ino s = Some d" using p d liveD by blast+
  obtain s1 p1 where 1: "on_inode parent (RemoveChild e name) s = Some (0, s1)" "fs_ok s1" "GetInode parent s1 = Some p1"
    "touches {parent} s s1" "dir_step (m_stbuf s, p) (m_stbuf s1, p1)" "dir_lookup p1 = (dir_lookup p)(name := None)"
    by (rule on_inode_RemoveChild_ok [OF ok gp p(2)])
  obtain s2 where 2: "modify_inode parent DecrementLinkCount s1 = Some s2" "fs_ok s2"
    "GetInode parent s2 = Some (DecrementLinkCount p1)" "touches {parent} s1 s2"
    by (rule modify_inode_ok [OF 1(2,3), of DecrementLinkCount])
      (use fs_ok_inode(1) [OF 1(2,3)] in \<open>simp_all add: link_count_keeps\<close>)
  have t2: "touches {parent} s s2" by (rule touches_trans [OF 1(4) 2(4)]) simp
  have d2: "GetInode ino s2 = Some d" using touchesD(1) [OF t2, of ino] d(2) gd by simp
  obtain s3 where 3: "modify_inode ino drop_links s2 = Some s3" "fs_ok s3" "GetInode ino s3 = Some (drop_links d)"
    "touches {ino} s2 s3"
    by (rule modify_inode_ok [OF 2(2) d2, of drop_links])
      (use fs_ok_inode(1) [OF 2(2) d2] in \<open>simp_all add: drop_links_keeps\<close>)
  let ?p = "DecrementLinkCount p1"
  have p3: "GetInode parent s3 = Some ?p" using touchesD(1) [OF 3(4), of parent] 2(3) d(2) by simp
  have t3: "touches {parent, ino} s s3" by (rule touches_trans [OF t2 3(4)]) simp
  have run: "FuseRmdir e parent name s = Some ([ReplyErr 0], s3)"
    using p d empty 1(1) 2(1) 3(1) dir_lookup_dir [OF p(2)]
    by (simp add: FuseRmdir_def child_number INO_NOTFOUND_def fuse_reply_err_def)
  have n: "st_nlink (i_attr ?p) = st_nlink (i_attr p) - 1" "is_Directory ?p"
    "dir_lookup ?p = (dir_lookup p)(name := None)"
    using 1(5,6) by (simp_all add: dir_step_def DecrementLinkCount_def dir_lookup_def is_kind_simps)
  have "live parent s3 = Some ?p" by (rule liveI [OF p3]) (use n(1) p(3) in simp)
  then have "FuseLookup parent name s3 = Some ([ReplyErr ENOENT], s3)"
    by (rule FuseLookup_missing) (use n in simp_all)
  moreover have "HasNoLinks (drop_links d)" using drop_links_zero [OF small] by (simp add: HasNoLinks_def)
  ultimately show ?thesis using run 3(2,3) p3 n(1,3) t3 by blast
qed

theorem rmdir_removes_witness:
  "\<exists>s' d'. FuseRmdir demo_env 1 ''e'' demo_tree = Some ([ReplyErr 0], s') \<and> GetInode 5 s' = Some d' \<and> HasNoLinks d' \<and>
     FuseLookup 1 ''e'' s' = Some ([ReplyErr ENOENT], s')"
proof -
  have "dir_lookup tree_root ''e'' = Some 5" by (simp add: dir_lookup_def)
  moreover have "Directory_IsEmpty (\<lambda>k. GetInode k demo_tree) tree_e" by (simp add: Directory_IsEmpty_def)
  ultimately show ?thesis
    using rmdir_removes [OF demo_tree_ok tree_live(1), of "''e''" 5 tree_e demo_env] by auto
qed

section \<open>Forgetting\<close>

text \<open>
  (C27) A forget request that takes back the last lookups of an object without links frees it: the
  slot becomes empty and its number is queued for reuse, the free inode counter goes up by one and
  the free block counter by the blocks of the object.
\<close>

theorem forget_frees:
  assumes ok: "fs_ok s" and i: "GetInode ino s = Some i" "st_nlink (i_attr i) = 0" "m_nlookup i = n"
  shows "\<exists>s'. FuseForget ino n s = Some ([ReplyNone], s') \<and> fs_ok s' \<and> GetInode ino s' = None \<and>
    DeletedInodes s' = DeletedInodes s @ [ino] \<and> touches {ino} s s' \<and>
    m_stbuf s' = UpdateUsedBlocks (- UsedBlocks i) (UpdateUsedInodes (-1) (m_stbuf s))"
proof -
  let ?s = "(DeleteInode ino s)\<lparr>m_stbuf := UpdateUsedBlocks (- UsedBlocks i) (UpdateUsedInodes (-1) (m_stbuf s))\<rparr>"
  have k: "unat ino < length (Inodes s)" using i by (simp add: GetInode_Some)
  have run: "FuseForget ino n s = Some ([ReplyNone], ?s)"
    using i by (simp add: FuseForget_def Inode_Forget_def Forgotten_def HasNoLinks_def UsedBlocks_def DeleteInode_def Let_def)
  have "fs_ok ?s" using FuseForget_served [OF ok, of ino n] run by (simp add: served_def)
  moreover have "touches {ino} s ?s"
    by (auto simp: touches_def GetInode_def DeleteInode_def word_unat_eq_iff)
  moreover have "GetInode ino ?s = None" using k by (simp add: GetInode_def DeleteInode_def)
  ultimately show ?thesis using run by (simp add: DeleteInode_def)
qed

theorem forget_frees_witness:
  "\<exists>s'. FuseForget 2 1 (put_inode 2 (DecrementLinkCount demo_file) demo_fs) = Some ([ReplyNone], s') \<and> GetInode 2 s' = None \<and>
     DeletedInodes s' = [2] \<and> f_bfree (m_stbuf s') = 99 \<and> f_ffree (m_stbuf s') = 8"
proof -
  let ?s = "put_inode 2 (DecrementLinkCount demo_file) demo_fs"
  have run: "modify_inode 2 DecrementLinkCount demo_fs = Some ?s" "GetInode 2 ?s = Some (DecrementLinkCount demo_file)"
    using modify_inode_run [OF demo_fs_simps(8)] by simp_all
  obtain s1 where "modify_inode 2 DecrementLinkCount demo_fs = Some s1" "chain demo_fs s1"
    by (rule chain_link_count [OF chain_refl [OF demo_fs_ok] demo_fs_simps(8)])
  with run have ok: "fs_ok ?s" by (simp add: chain_def)
  have f: "st_nlink (i_attr (DecrementLinkCount demo_file)) = 0" "m_nlookup (DecrementLinkCount demo_file) = 1"
    "UsedBlocks (DecrementLinkCount demo_file) = 1"
    by (simp_all add: DecrementLinkCount_def UsedBlocks_def demo_file_def demo_inode_def)
  from forget_frees [OF ok run(2) f(1,2)] f(3) show ?thesis
    by (auto simp: demo_stbuf_def UpdateUsedBlocks_def UpdateUsedInodes_def)
qed

text \<open>
  An object that is still linked, or still looked up elsewhere, survives a forget request: only its
  lookup count goes down, and neither the queue nor the counters move.
\<close>

theorem forget_keeps:
  assumes ok: "fs_ok s" and i: "GetInode ino s = Some i" "st_nlink (i_attr i) \<noteq> 0 \<or> m_nlookup i \<noteq> n"
  shows "\<exists>s'. FuseForget ino n s = Some ([ReplyNone], s') \<and> fs_ok s' \<and>
    GetInode ino s' = Some (i\<lparr>m_nlookup := m_nlookup i - n\<rparr>) \<and> touches {ino} s s' \<and>
    DeletedInodes s' = DeletedInodes s \<and> m_stbuf s' = m_stbuf s"
proof -
  let ?i = "i\<lparr>m_nlookup := m_nlookup i - n\<rparr>"
  have run: "FuseForget ino n s = Some ([ReplyNone], put_inode ino ?i s)"
    using i by (auto simp: FuseForget_def Inode_Forget_def Forgotten_def HasNoLinks_def Let_def)
  have "fs_ok (put_inode ino ?i s)" using FuseForget_served [OF ok, of ino n] run by (simp add: served_def)
  moreover have "GetInode ino (put_inode ino ?i s) = Some ?i"
    using i(1) by (simp add: GetInode_put_inode GetInode_Some)
  ultimately show ?thesis using run touches_put_inode [of ino s ?i] by auto
qed

theorem forget_keeps_witness:
  "\<exists>s'. FuseForget 2 1 demo_fs = Some ([ReplyNone], s') \<and> GetInode 2 s' = Some (demo_file\<lparr>m_nlookup := 0\<rparr>)"
proof -
  have "m_nlookup demo_file = 1" by (simp add: demo_file_def)
  with forget_keeps [OF demo_fs_ok demo_fs_simps(8), of 1] show ?thesis by auto
qed


section \<open>Hard links\<close>

lemma on_inode_AddChild_ok:
  assumes ok: "fs_ok s" and d: "GetInode k s = Some d" "is_Directory d" "name \<notin> dom (dir_lookup d)"
    and fits: "dir_bytes (m_children d) + 72 + length name < 2 ^ 63"
    and room: "blocks_for (dir_bytes (m_children d) + 72 + length name) \<le> unat (UsedBlocks d) + unat (f_bfree (m_stbuf s))"
  obtains s' d' where "on_inode k (AddChild name ino) s = Some (0, s')" "fs_ok s'" "GetInode k s' = Some d'"
    "touches {k} s s'" "dir_step (m_stbuf s, d) (m_stbuf s', d')" "dir_lookup d' = (dir_lookup d)(name \<mapsto> ino)"
proof -
  obtain r s' d' where a: "on_inode k (AddChild name ino) s = Some (r, s')" "fs_ok s'"
    "GetInode k s' = Some d'" "touches {k} s s'" "dir_step (m_stbuf s, d) (m_stbuf s', d')"
    "AddChild name ino (m_stbuf s, d) = Some (r, m_stbuf s', d')"
    by (rule on_inode_AddChild [OF ok d(1,2) fits])
  have dok: "dir_ok d" by (rule inode_ok_dir [OF fs_ok_inode(1) [OF ok d(1)] d(2)])
  have el: "unat (elem_size name) = 72 + length name" using fits by (intro unat_elem_size) simp
  have sz: "unat (Size d) = dir_bytes (m_children d)" using dok by (auto elim: dir_okE)
  have "CheckHasSpaceFor (Some (usage_of d)) (elem_size name) (m_stbuf s)"
    by (subst CheckHasSpaceFor_iff) (use fits room in \<open>simp_all add: el sz add.assoc\<close>)
  from AddChild_ok [OF dok d(3) this fits, of ino] a(6) have r: "r = 0" by (metis Pair_inject option.inject)
  then have "child_added name ino d d'" using a(6) fits by (auto simp: child_added_def)
  from fs_dir.added_entries [OF dok this] that a r show ?thesis by blast
qed

text \<open>
  A link request binds a second name to a linked object: the reply carries its entry, its link
  and lookup counts go up by one, the new name resolves to it and every older name still does; no
  other object changes.
\<close>

theorem link_adds_name:
  assumes ok: "fs_ok s" and i: "live ino s = Some i" "ino \<noteq> 0" "ino \<noteq> newparent" "st_nlink (i_attr i) + 1 \<noteq> 0"
    and p: "live newparent s = Some p" "is_Directory p" "newname \<notin> dom (dir_lookup p)"
    and fits: "entry_fits newparent newname s"
    and room: "blocks_for (dir_bytes (m_children p) + 72 + length newname) \<le>
      unat (UsedBlocks p) + unat (f_bfree (m_stbuf s))"
  shows "\<exists>s' j p' s''. FuseLink ino newparent newname s = Some ([ReplyEntry (m_fuseEntryParam j)], s') \<and> fs_ok s' \<and>
    GetInode ino s' = Some j \<and> st_nlink (i_attr j) = st_nlink (i_attr i) + 1 \<and> m_nlookup j = m_nlookup i + 1 \<and>
    GetInode newparent s' = Some p' \<and> dir_lookup p' = (dir_lookup p)(newname \<mapsto> ino) \<and>
    touches {ino, newparent} s s' \<and>
    FuseLookup newparent newname s' = Some ([ReplyEntry (m_fuseEntryParam j)], s'')"
proof -
  have gi: "GetInode ino s = Some i" and gp: "GetInode newparent s = Some p" using i p liveD by blast+
  obtain s1 p1 where 1: "on_inode newparent (AddChild newname ino) s = Some (0, s1)" "fs_ok s1"
    "GetInode newparent s1 = Some p1" "touches {newparent} s s1" "dir_step (m_stbuf s, p) (m_stbuf s1, p1)"
    "dir_lookup p1 = (dir_lookup p)(newname \<mapsto> ino)"
    by (rule on_inode_AddChild_ok [OF ok gp p(2,3) entry_fitsD [OF fits gp] room])
  have i1: "GetInode ino s1 = Some i" using touchesD(1) [OF 1(4), of ino] i gi by simp
  let ?i = "IncrementLinkCount i"
  let ?j = "?i\<lparr>m_nlookup := m_nlookup ?i + 1\<rparr>"
  obtain s2 where 2: "modify_inode ino IncrementLinkCount s1 = Some s2" "fs_ok s2" "GetInode ino s2 = Some ?i" "touches {ino} s1 s2"
    by (rule modify_inode_ok [OF 1(2) i1, of IncrementLinkCount])
      (use fs_ok_inode(1) [OF 1(2) i1] in \<open>simp_all add: link_count_keeps\<close>)
  let ?s = "put_inode ino ?j s2"
  have run: "FuseLink ino newparent newname s = Some ([ReplyEntry (m_fuseEntryParam ?j)], ?s)"
    using i(1) p 1(1) 2(1,3)
    by (simp add: FuseLink_def ChildInodeNumberWithName_lookup domIff reply_entry_def Inode_ReplyEntry_def)
  have j: "GetInode ino ?s = Some ?j" using 2(3) by (simp add: GetInode_put_inode GetInode_Some)
  have p2: "GetInode newparent ?s = Some p1"
    using touchesD(1) [OF 2(4), of newparent] 1(3) i(3) by (simp add: GetInode_put_inode)
  have "touches {ino, newparent} s s2" by (rule touches_trans [OF 1(4) 2(4)]) simp
  then have t: "touches {ino, newparent} s ?s" by (rule touches_trans [OF _ touches_put_inode]) simp
  have ok': "fs_ok ?s" using FuseLink_served [OF ok fits, of ino] run by (simp add: served_def)
  have n: "st_nlink (i_attr ?j) = st_nlink (i_attr i) + 1" "m_nlookup ?j = m_nlookup i + 1"
    by (simp_all add: IncrementLinkCount_def)
  have "live newparent ?s = Some p1" "live ino ?s = Some ?j"
    using liveI [OF p2] liveI [OF j] live_links [OF p(1)] 1(5) n(1) i(4) by (simp_all add: dir_step_def)
  then have "FuseLookup newparent newname ?s = Some ([ReplyEntry (m_fuseEntryParam ?j)], put_inode ino (?j\<lparr>m_nlookup := m_nlookup ?j + 1\<rparr>) ?s)"
    using i(2) 1(6) by (intro FuseLookup_found [where p = p1]) simp_all
  with run j p2 t ok' n 1(6) show ?thesis by blast
qed

theorem link_adds_name_witness:
  "\<exists>s' pr j s''. FuseLink 2 3 ''b'' demo_tree = Some ([ReplyEntry pr], s') \<and> GetInode 2 s' = Some j \<and>
     st_nlink (i_attr j) = 2 \<and> FuseLookup 3 ''b'' s' = Some ([ReplyEntry pr], s'')"
  using link_adds_name [OF demo_tree_ok tree_live(2) _ _ _ tree_live(3), of "''b''"]
  by (auto simp: entry_fits_def dir_bytes_def dir_lookup_def blocks_for_def)

section \<open>Block accounting of directories\<close>

lemma Register_directory:
  assumes "RegisterInode e (new_Directory junk) mode nlink gid uid s = Some (ino, s')"
  obtains d where "f_bfree (m_stbuf s') = f_bfree (m_stbuf s) - 2"
    "GetInode ino s' \<noteq> None \<Longrightarrow> GetInode ino s' = Some d" "UsedBlocks d = 1"
proof -
  have o: "m_obj (new_Directory junk) = Directory []" by (simp add: new_Directory_def new_Inode_def)
  from assms obtain s1 where s1: "(if DeletedInodes s = [] then Some (AddInode (new_Directory junk) s)
      else do { (ino, s') \<leftarrow> PopOneDeletedInode s; Some (ino, UpdateInode ino (new_Directory junk) s') }) = Some (ino, s1)"
    by (auto simp: RegisterInode_def Let_def split: Option.bind_splits)
  then have b1: "f_bfree (m_stbuf s1) = f_bfree (m_stbuf s)"
    by (auto simp: AddInode_def PopOneDeletedInode_def UpdateInode_def split: if_splits list.splits)
  let ?sb = "UpdateUsedInodes 1 (m_stbuf s1)"
  obtain sb j where j: "Directory_Initialize e ino mode nlink gid uid (?sb, new_Directory junk) = Some (sb, j)"
    "sb = UpdateUsedBlocks 1 ?sb" "UsedBlocks j = 1"
    by (rule Directory_Initialize_ok [OF o, of e ino mode nlink gid uid ?sb])
  have s': "s' = (put_inode ino j (s1\<lparr>m_stbuf := ?sb\<rparr>))\<lparr>m_stbuf := UpdateUsedBlocks (UsedBlocks j) sb\<rparr>"
    using assms s1 j(1) o by (simp add: RegisterInode_def Initialize_def Let_def)
  have b: "f_bfree (m_stbuf s') = f_bfree (m_stbuf s) - 2" by (simp add: s' j(2,3) b1)
  have "GetInode ino s' = Some j" if "GetInode ino s' \<noteq> None"
    using that by (simp add: s' GetInode_def put_inode_def split: if_splits)
  with that b j(3) show ?thesis by blast
qed

text \<open>
  Registering a directory takes two blocks off the free counter although the new directory
  occupies one: \<^verbatim>\<open>Directory::Initialize\<close> accounts for the block through \<^verbatim>\<open>UpdateSize\<close>, and
  \<^verbatim>\<open>RegisterInode\<close> subtracts \<^verbatim>\<open>UsedBlocks()\<close> again. Since a forget request gives back only the blocks of
  the object, each directory made and removed costs one block for good.
\<close>

theorem register_directory_charges_twice:
  assumes ok: "fs_ok s" "0 < unat (f_ffree (m_stbuf s))" and m: "S_ISDIR mode"
  shows "\<exists>ino s' d. RegisterInode e (new_Directory junk) mode nlink gid uid s = Some (ino, s') \<and> fs_ok s' \<and>
    GetInode ino s' = Some d \<and> UsedBlocks d = 1 \<and> f_bfree (m_stbuf s') = f_bfree (m_stbuf s) - 2"
proof -
  have "fresh_for mode (new_Directory junk)" using m by (simp add: fresh_for_def new_Directory_def new_Inode_def)
  from RegisterInode_ok [OF ok this, of e nlink gid uid] obtain ino s' j where
    r: "RegisterInode e (new_Directory junk) mode nlink gid uid s = Some (ino, s')" "fs_ok s'" "GetInode ino s' = Some j"
    by metis
  from Register_directory [OF r(1)] r show ?thesis by (metis option.distinct(1))
qed

theorem register_directory_charges_twice_witness:
  "\<exists>ino s' d. RegisterInode demo_env (new_Directory zero_entry_param) 0x41ED 2 0 0 demo_fs = Some (ino, s') \<and>
     GetInode ino s' = Some d \<and> UsedBlocks d = 1 \<and> f_bfree (m_stbuf s') = 96"
  using register_directory_charges_twice [OF demo_fs_ok, of "0x41ED" demo_env zero_entry_param 2 0 0]
  by (auto simp: demo_stbuf_def)

end
