(* ===== verification/Rename_Props.thy ===== *)
theory Rename_Props
  imports Name_Props
begin

text \<open>
  Renaming at the level of requests, stated on the entries of all directories at once.
\<close>

section \<open>The entries of all directories\<close>

definition entry :: "ino_t \<Rightarrow> string \<Rightarrow> fs \<Rightarrow> ino_t option" where
  "entry k n s = (case GetInode k s of None \<Rightarrow> None | Some d \<Rightarrow> dir_lookup d n)"

lemma entryE:
  assumes "entry k n s = Some ino"
  obtains d where "GetInode k s = Some d" "dir_lookup d n = Some ino" "is_Directory d"
  using assms dir_lookup_dir by (auto simp: entry_def split: option.splits)

lemma entry_touched:
  assumes "touches {k} s s'" "GetInode k s = Some d" "GetInode k s' = Some d'" "dir_lookup d' = f (dir_lookup d)"
  shows "entry m n s' = (if m = k then f (dir_lookup d) n else entry m n s)"
  using assms touchesD(1) [OF assms(1), of m] by (simp add: entry_def)

lemma entry_AddChild:
  assumes ok: "fs_ok s" and d: "GetInode k s = Some d" "is_Directory d" "name \<notin> dom (dir_lookup d)"
    and fits: "dir_bytes (m_children d) + 72 + length name < 2 ^ 63"
    and room: "blocks_for (dir_bytes (m_children d) + 72 + length name) \<le> unat (UsedBlocks d) + unat (f_bfree (m_stbuf s))"
  obtains s' where "on_inode k (AddChild_nolock name ino) s = Some (0, s')" "fs_ok s'" "touches {k} s s'"
    "\<And>m n. entry m n s' = (if m = k \<and> n = name then Some ino else entry m n s)" "GetInode k s' \<noteq> None"
proof -
  obtain s' d' where a: "on_inode k (AddChild name ino) s = Some (0, s')" "fs_ok s'" "GetInode k s' = Some d'"
    "touches {k} s s'" "dir_lookup d' = (dir_lookup d)(name \<mapsto> ino)"
    by (rule on_inode_AddChild_ok [OF ok d fits room])
  have "AddChild name ino = AddChild_nolock name ino" by (simp add: AddChild_def fun_eq_iff)
  moreover have "entry m n s' = (if m = k \<and> n = name then Some ino else entry m n s)" for m n
    using entry_touched [OF a(4) d(1) a(3), of "\<lambda>f. f(name \<mapsto> ino)" m n] a(5) d(1) by (simp add: entry_def)
  ultimately show ?thesis using that a by simp
qed

lemma entry_RemoveChild:
  assumes ok: "fs_ok s" and d: "entry k name s = Some c"
  obtains s' where "on_inode k (RemoveChild_nolock e name) s = Some (0, s')" "fs_ok s'" "touches {k} s s'"
    "\<And>m n. entry m n s' = (if m = k \<and> n = name then None else entry m n s)" "GetInode k s' \<noteq> None"
proof -
  obtain x where x: "GetInode k s = Some x" "dir_lookup x name = Some c" by (rule entryE [OF d])
  obtain s' d' where a: "on_inode k (RemoveChild e name) s = Some (0, s')" "fs_ok s'" "GetInode k s' = Some d'"
    "touches {k} s s'" "dir_lookup d' = (dir_lookup x)(name := None)"
    by (rule on_inode_RemoveChild_ok [OF ok x])
  have "RemoveChild e name = RemoveChild_nolock e name" by (simp add: RemoveChild_def fun_eq_iff)
  moreover have "entry m n s' = (if m = k \<and> n = name then None else entry m n s)" for m n
    using entry_touched [OF a(4) x(1) a(3), of "\<lambda>f. f(name := None)" m n] a(5) x(1) by (simp add: entry_def)
  ultimately show ?thesis using that a by simp
qed

lemma entry_UpdateChild:
  assumes ok: "fs_ok s" and d: "entry k name s = Some c"
  obtains s' where "modify_inode k (\<lambda>d. snd (UpdateChild_nolock e name ino d)) s = Some s'" "fs_ok s'" "touches {k} s s'"
    "\<And>m n. entry m n s' = (if m = k \<and> n = name then Some ino else entry m n s)"
proof -
  obtain x where x: "GetInode k s = Some x" "dir_lookup x name = Some c" "is_Directory x" by (rule entryE [OF d])
  let ?g = "\<lambda>d. snd (UpdateChild_nolock e name ino d)"
  have iok: "inode_ok x" by (rule fs_ok_inode(1) [OF ok x(1)])
  have dok: "dir_ok x" by (rule inode_ok_dir [OF iok x(3)])
  have ex: "name \<in> dom (dir_lookup x)" using x(2) by blast
  have u: "?g x = snd (UpdateChild e name ino x)" by (simp add: UpdateChild_def)
  have st: "inode_ok (?g x)" "GetIno (?g x) = GetIno x"
    using UpdateChild_keeps [OF iok x(3), of undefined e name ino] by (simp_all add: u dir_step_def)
  obtain s' where s': "modify_inode k ?g s = Some s'" "fs_ok s'" "GetInode k s' = Some (?g x)" "touches {k} s s'"
    by (rule modify_inode_ok [where g = ?g, OF ok x(1) st])
  have l: "dir_lookup (?g x) = (dir_lookup x)(name \<mapsto> ino)"
    using UpdateChild_ok [OF dok ex, of e ino] by (metis u snd_conv)
  have "entry m n s' = (if m = k \<and> n = name then Some ino else entry m n s)" for m n
    using entry_touched [OF s'(4) x(1) s'(3), of "\<lambda>f. f(name \<mapsto> ino)" m n] l x(1) by (simp add: entry_def)
  with that s' show ?thesis by blast
qed

lemma entry_links:
  assumes ok: "fs_ok s" and i: "GetInode k s = Some i"
  obtains s' where "modify_inode k DecrementLinkCount s = Some s'" "fs_ok s'" "touches {k} s s'"
    "GetInode k s' = Some (DecrementLinkCount i)" "\<And>m n. entry m n s' = entry m n s"
proof -
  obtain s' where s': "modify_inode k DecrementLinkCount s = Some s'" "fs_ok s'"
    "GetInode k s' = Some (DecrementLinkCount i)" "touches {k} s s'"
    by (rule modify_inode_ok [where g = DecrementLinkCount, OF ok i])
      (use fs_ok_inode(1) [OF ok i] in \<open>simp_all add: link_count_keeps\<close>)
  have "entry m n s' = entry m n s" for m n
    using touchesD(1) [OF s'(4), of m] s'(3) i
    by (cases "m = k") (simp_all add: entry_def dir_lookup_def DecrementLinkCount_def)
  with that s' show ?thesis by blast
qed

section \<open>Properties\<close>

lemma rename_target:
  assumes "entry k n s = x" "GetInode k s = Some d"
  shows "ChildInodeNumberWithName_nolock n d = (case x of None \<Rightarrow> 0 | Some c \<Rightarrow> c)"
  using ChildInodeNumberWithName_lookup [of n d] assms
  by (simp add: entry_def ChildInodeNumberWithName_def INO_NOTFOUND_def split: option.split)

text \<open>
  (C8) Renaming an object other than a directory to a name that is not bound, in the same directory or
  another, answers success and moves exactly that entry: afterwards the old name is unbound, the new
  name is bound to the object, every other entry of every directory is as before, and no object but the
  two directories changes.
\<close>

theorem rename_moves:
  assumes ok: "fs_ok s" and p: "live parent s = Some p" "entry parent name s = Some src"
    and np: "live newparent s = Some np" "is_Directory np" "entry newparent newname s = None"
    and x: "live src s = Some x" "\<not> is_Directory x" and null: "live 0 s = None"
    and fits: "entry_fits newparent newname s"
    and room: "blocks_for (dir_bytes (m_children np) + 72 + length newname) \<le>
      unat (UsedBlocks np) + unat (f_bfree (m_stbuf s))"
  shows "\<exists>s'. FuseRename e parent name newparent newname s = Some ([ReplyErr 0], s') \<and> fs_ok s' \<and>
    (\<forall>k n. entry k n s' = (if (k, n) = (parent, name) then None
      else if (k, n) = (newparent, newname) then Some src else entry k n s)) \<and>
    touches {parent, newparent} s s' \<and> GetInode src s' = Some x"
proof -
  have gp: "GetInode parent s = Some p" and gnp: "GetInode newparent s = Some np" and gx: "GetInode src s = Some x"
    using p np x liveD by blast+
  have pd: "dir_lookup p name = Some src" "is_Directory p"
    using p(2) gp dir_lookup_dir by (auto simp: entry_def)
  have ne: "src \<noteq> parent" "src \<noteq> newparent" using gp gnp gx x(2) pd(2) np(2) by auto
  have new: "newname \<notin> dom (dir_lookup np)" using np(3) gnp by (simp add: entry_def domIff)
  obtain s1 where 1: "on_inode newparent (AddChild_nolock newname src) s = Some (0, s1)" "fs_ok s1" "touches {newparent} s s1"
    "\<And>m n. entry m n s1 = (if m = newparent \<and> n = newname then Some src else entry m n s)"
    using entry_AddChild [OF ok gnp np(2) new entry_fitsD [OF fits gnp] room] by metis
  have "entry parent name s1 = Some src" using 1(4) p(2) by simp
  then obtain s2 where 2: "on_inode parent (RemoveChild_nolock e name) s1 = Some (0, s2)" "fs_ok s2" "touches {parent} s1 s2"
    "\<And>m n. entry m n s2 = (if m = parent \<and> n = name then None else entry m n s1)"
    using entry_RemoveChild [OF 1(2)] by metis
  have nd: "\<not> S_ISDIR (GetMode x)" using inode_ok_mode_dir [OF fs_ok_inode(1) [OF ok gx]] x(2) by simp
  have run: "rename_move e parent name newparent newname src x s = Some ([ReplyErr 0], s2)"
    using 1(1) 2(1) nd by (simp add: rename_move_def fuse_reply_err_def)
  have "\<not> NumLinks z > 0" if "GetInode 0 s = Some z" for z
    using null that by (simp add: live_def HasNoLinks_def NumLinks_def split: if_splits)
  then have "FuseRename e parent name newparent newname s = rename_move e parent name newparent newname src x s"
    using p np x pd rename_target [OF np(3) gnp] child_number [OF pd(1)]
    by (simp add: FuseRename_def Let_def split: option.splits)
  moreover have t: "touches {parent, newparent} s s2" by (rule touches_trans [OF 1(3) 2(3)]) simp
  moreover have "GetInode src s2 = Some x" using touchesD(1) [OF t, of src] ne gx by simp
  ultimately show ?thesis using run 2(2,4) 1(4) by auto
qed

theorem rename_moves_witness:
  "\<exists>s'. FuseRename demo_env 1 ''a'' 3 ''b'' demo_tree = Some ([ReplyErr 0], s') \<and> entry 1 ''a'' s' = None \<and>
     entry 3 ''b'' s' = Some 2 \<and> entry 3 ''f'' s' = Some 4"
proof -
  have "entry 1 ''a'' demo_tree = Some 2" "entry 3 ''b'' demo_tree = None" "entry 3 ''f'' demo_tree = Some 4"
    by (simp_all add: entry_def dir_lookup_def)
  with rename_moves [OF demo_tree_ok tree_live(1) this(1) tree_live(3) _ this(2) tree_live(2), of demo_env] show ?thesis
    by (auto simp: entry_fits_def dir_bytes_def blocks_for_def)
qed

lemma rename_replace_run:
  assumes ok: "fs_ok s" and p: "entry parent name s = Some src"
    and np: "entry newparent newname s = Some ex" and y: "GetInode ex s = Some y" and ne: "(parent, name) \<noteq> (newparent, newname)"
  obtains s1 s2 s3 where "modify_inode ex DecrementLinkCount s = Some s1"
    "modify_inode newparent (\<lambda>d. snd (UpdateChild_nolock e newname src d)) s1 = Some s2"
    "on_inode parent (RemoveChild_nolock e name) s2 = Some (0, s3)" "fs_ok s3" "touches {ex, newparent, parent} s s3"
    "\<And>m n. entry m n s3 = (if (m, n) = (parent, name) then None else if (m, n) = (newparent, newname) then Some src else entry m n s)"
    "ex \<noteq> parent \<Longrightarrow> ex \<noteq> newparent \<Longrightarrow> GetInode ex s3 = Some (DecrementLinkCount y)" "GetInode parent s3 \<noteq> None"
proof -
  obtain s1 where 1: "modify_inode ex DecrementLinkCount s = Some s1" "fs_ok s1" "touches {ex} s s1"
    "GetInode ex s1 = Some (DecrementLinkCount y)" "\<And>m n. entry m n s1 = entry m n s"
    by (rule entry_links [OF ok y]) blast
  have "entry newparent newname s1 = Some ex" using np 1(5) by simp
  then obtain s2 where 2: "modify_inode newparent (\<lambda>d. snd (UpdateChild_nolock e newname src d)) s1 = Some s2" "fs_ok s2"
    "touches {newparent} s1 s2" "\<And>m n. entry m n s2 = (if m = newparent \<and> n = newname then Some src else entry m n s1)"
    by (rule entry_UpdateChild [OF 1(2)]) blast
  have "entry parent name s2 = Some src" using p ne 1(5) 2(4) by auto
  then obtain s3 where 3: "on_inode parent (RemoveChild_nolock e name) s2 = Some (0, s3)" "fs_ok s3" "touches {parent} s2 s3"
    "\<And>m n. entry m n s3 = (if m = parent \<and> n = name then None else entry m n s2)" "GetInode parent s3 \<noteq> None"
    by (rule entry_RemoveChild [OF 2(2)]) blast
  have "touches {ex, newparent} s s2" by (rule touches_trans [OF 1(3) 2(3)]) simp
  then have "touches {ex, newparent, parent} s s3" by (rule touches_trans [OF _ 3(3)]) simp
  moreover have "GetInode ex s3 = Some (DecrementLinkCount y)" if "ex \<noteq> parent" "ex \<noteq> newparent"
    using that touchesD(1) [OF 3(3), of ex] touchesD(1) [OF 2(3), of ex] 1(4) by simp
  ultimately show ?thesis using that [OF 1(1) 2(1) 3(1,2)] 1(5) 2(4) 3(4,5) by auto
qed

text \<open>
  (C25) Renaming a non-directory over a name bound to another non-directory answers success: the new
  name is bound to the renamed object, the old name is unbound, every other entry stays, and the
  replaced object loses one link.
\<close>

theorem rename_replaces:
  assumes ok: "fs_ok s" and p: "live parent s = Some p" "entry parent name s = Some src"
    and np: "live newparent s = Some np" "entry newparent newname s = Some ex"
    and x: "live src s = Some x" "\<not> is_Directory x" and y: "GetInode ex s = Some y" "\<not> is_Directory y" "NumLinks y > 0"
    and ne: "ex \<noteq> src"
  shows "\<exists>s'. FuseRename e parent name newparent newname s = Some ([ReplyErr 0], s') \<and> fs_ok s' \<and>
    (\<forall>k n. entry k n s' = (if (k, n) = (parent, name) then None
      else if (k, n) = (newparent, newname) then Some src else entry k n s)) \<and>
    GetInode src s' = Some x \<and> GetInode ex s' = Some (DecrementLinkCount y) \<and>
    touches {parent, newparent, ex} s s'"
proof -
  have gp: "GetInode parent s = Some p" and gnp: "GetInode newparent s = Some np" and gx: "GetInode src s = Some x"
    using p np x liveD by blast+
  have pd: "dir_lookup p name = Some src" "is_Directory p" "is_Directory np"
    using p(2) gp np(2) gnp dir_lookup_dir by (auto simp: entry_def)
  have dist: "src \<noteq> parent" "src \<noteq> newparent" "ex \<noteq> parent" "ex \<noteq> newparent" using gp gnp gx x(2) y pd by auto
  have pairs: "(parent, name) \<noteq> (newparent, newname)" using p(2) np(2) ne by auto
  obtain s1 s2 s3 where r: "modify_inode ex DecrementLinkCount s = Some s1"
    "modify_inode newparent (\<lambda>d. snd (UpdateChild_nolock e newname src d)) s1 = Some s2"
    "on_inode parent (RemoveChild_nolock e name) s2 = Some (0, s3)" "fs_ok s3" "touches {ex, newparent, parent} s s3"
    "\<And>m n. entry m n s3 = (if (m, n) = (parent, name) then None else if (m, n) = (newparent, newname) then Some src else entry m n s)"
    "GetInode ex s3 = Some (DecrementLinkCount y)"
    by (rule rename_replace_run [OF ok p(2) np(2) y(1) pairs, of e]) (use dist in blast)
  have nd: "\<not> S_ISDIR (GetMode x)" "\<not> S_ISDIR (GetMode y)"
    using inode_ok_mode_dir [OF fs_ok_inode(1) [OF ok gx]] inode_ok_mode_dir [OF fs_ok_inode(1) [OF ok y(1)]] x(2) y(2) by simp_all
  have "FuseRename e parent name newparent newname s = Some ([ReplyErr 0], s3)"
    using p np x y pd rename_target [OF np(2) gnp] child_number [OF pd(1)] r(1-3) nd
    by (simp add: FuseRename_def rename_replace_def fuse_reply_err_def Let_def)
  moreover have "GetInode src s3 = Some x" using touchesD(1) [OF r(5), of src] dist ne gx by simp
  moreover have "touches {parent, newparent, ex} s s3" using r(5) by (simp add: insert_commute)
  ultimately show ?thesis using r(4,6,7) by blast
qed

theorem rename_replaces_witness:
  "\<exists>s'. FuseRename demo_env 1 ''a'' 3 ''f'' demo_tree = Some ([ReplyErr 0], s') \<and> entry 1 ''a'' s' = None \<and>
     entry 3 ''f'' s' = Some 2 \<and> GetInode 4 s' = Some (DecrementLinkCount tree_f)"
proof -
  have "entry 1 ''a'' demo_tree = Some 2" "entry 3 ''f'' demo_tree = Some 4" by (simp_all add: entry_def dir_lookup_def)
  moreover have "NumLinks tree_f > 0" by (simp add: NumLinks_small)
  ultimately show ?thesis
    using rename_replaces [OF demo_tree_ok tree_live(1) _ tree_live(3) _ tree_live(2), of "''a''" "''f''" 4 tree_f demo_env] by auto
qed

text \<open>
  A rename onto one of the two directories it works in (the name \<^verbatim>\<open>.\<close>, or the directory the source is in) has no
  result: \<^verbatim>\<open>IsEmpty\<close> asks for a lock that the handler holds itself. Every directory has such a name.
\<close>

lemma rename_onto_parent_locks_itself:
  assumes ok: "fs_ok s" and p: "live parent s = Some p" "is_Directory p" "live (ChildInodeNumberWithName name p) s = Some x"
    and np: "live newparent s = Some np" "entry newparent newname s = Some ex" and ex: "ex = parent \<or> ex = newparent"
    and y: "GetInode ex s = Some y" "NumLinks y > 0"
  shows "FuseRename e parent name newparent newname s = None"
proof -
  have gnp: "GetInode newparent s = Some np" using np liveD by blast
  then have npd: "is_Directory np" using np(2) dir_lookup_dir by (auto simp: entry_def)
  have gp: "GetInode parent s = Some p" using p liveD by blast
  have d: "is_Directory y" using ex y(1) gp gnp p(2) npd by auto
  then have "S_ISDIR (GetMode y)" using inode_ok_mode_dir [OF fs_ok_inode(1) [OF ok y(1)]] by simp
  then show ?thesis
    using p np npd y d ex rename_target [OF np(2) gnp] by (simp add: FuseRename_def rename_replace_def Let_def)
qed

lemma rename_onto_dot: "FuseRename demo_env 1 ''d'' 1 ''.'' demo_tree = None"
proof -
  have "NumLinks tree_root > 0" by (simp add: NumLinks_small tree_root_def)
  moreover have "entry 1 ''.'' demo_tree = Some 1" by (simp add: entry_def dir_lookup_def)
  ultimately show ?thesis
    using rename_onto_parent_locks_itself [OF demo_tree_ok tree_live(1) _ _ tree_live(1), where name = "''d''" and x = tree_d and y = tree_root] tree_live(3)
    by (auto simp: ChildInodeNumberWithName_def ChildInodeNumberWithName_nolock_def)
qed

text \<open>
  Renaming a directory over an empty directory takes three links off the replaced one: one
  at the start of the replacement and two more after the entry has been removed. A directory has two
  links, so its link count wraps around to the largest value and the object can never be freed.
\<close>

theorem rename_over_directory_wraps:
  assumes ok: "fs_ok s" and p: "live parent s = Some p" "entry parent name s = Some src"
    and np: "live newparent s = Some np" "entry newparent newname s = Some ex"
    and x: "live src s = Some x" "is_Directory x"
    and y: "GetInode ex s = Some y" "is_Directory y" "st_nlink (i_attr y) = 2" "Directory_IsEmpty (\<lambda>k. GetInode k s) y"
    and ne: "ex \<noteq> src" "ex \<noteq> parent" "ex \<noteq> newparent"
  shows "\<exists>s' y'. FuseRename e parent name newparent newname s = Some ([ReplyErr 0], s') \<and>
    GetInode ex s' = Some y' \<and> st_nlink (i_attr y') = 0xFFFFFFFFFFFFFFFF"
proof -
  have gp: "GetInode parent s = Some p" and gnp: "GetInode newparent s = Some np" and gx: "GetInode src s = Some x"
    using p np x liveD by blast+
  have pd: "dir_lookup p name = Some src" "is_Directory p" "is_Directory np"
    using p(2) gp np(2) gnp dir_lookup_dir by (auto simp: entry_def)
  have pairs: "(parent, name) \<noteq> (newparent, newname)" using p(2) np(2) ne by auto
  obtain s1 s2 s3 where r: "modify_inode ex DecrementLinkCount s = Some s1"
    "modify_inode newparent (\<lambda>d. snd (UpdateChild_nolock e newname src d)) s1 = Some s2"
    "on_inode parent (RemoveChild_nolock e name) s2 = Some (0, s3)" "fs_ok s3" "touches {ex, newparent, parent} s s3"
    "GetInode ex s3 = Some (DecrementLinkCount y)" "GetInode parent s3 \<noteq> None"
    by (rule rename_replace_run [OF ok p(2) np(2) y(1) pairs, of e]) (use ne in blast)
  obtain s4 where 4: "modify_inode ex DecrementLinkCount s3 = Some s4" "fs_ok s4" "touches {ex} s3 s4"
    "GetInode ex s4 = Some (DecrementLinkCount (DecrementLinkCount y))" by (rule entry_links [OF r(4,6)])
  obtain s5 where 5: "modify_inode ex DecrementLinkCount s4 = Some s5" "fs_ok s5" "touches {ex} s4 s5"
    "GetInode ex s5 = Some (DecrementLinkCount (DecrementLinkCount (DecrementLinkCount y)))" by (rule entry_links [OF 4(2,4)])
  have "GetInode parent s5 = GetInode parent s3" using touchesD(1) [OF 4(3), of parent] touchesD(1) [OF 5(3), of parent] ne by simp
  with r(7) obtain q where q: "GetInode parent s5 = Some q" by auto
  obtain s6 where 6: "modify_inode parent DecrementLinkCount s5 = Some s6" "touches {parent} s5 s6" by (rule entry_links [OF 5(2) q])
  have nd: "S_ISDIR (GetMode x)" "S_ISDIR (GetMode y)"
    using inode_ok_mode_dir [OF fs_ok_inode(1) [OF ok gx]] inode_ok_mode_dir [OF fs_ok_inode(1) [OF ok y(1)]] x(2) y(2) by simp_all
  have n: "NumLinks y > 0" using y(3) NumLinks_small [of y] by simp
  have "FuseRename e parent name newparent newname s = Some ([ReplyErr 0], s6)"
    using p np x y pd ne rename_target [OF np(2) gnp] child_number [OF pd(1)] r(1-3) nd n 4(1) 5(1) 6(1)
    by (simp add: FuseRename_def rename_replace_def fuse_reply_err_def Let_def)
  moreover have "GetInode ex s6 = Some (DecrementLinkCount (DecrementLinkCount (DecrementLinkCount y)))"
    using touchesD(1) [OF 6(2), of ex] 5(4) ne by simp
  ultimately show ?thesis using y(3) by (simp add: DecrementLinkCount_def)
qed

theorem rename_over_directory_wraps_witness:
  "\<exists>s' y'. FuseRename demo_env 1 ''d'' 1 ''e'' demo_tree = Some ([ReplyErr 0], s') \<and> GetInode 5 s' = Some y' \<and>
     st_nlink (i_attr y') = 0xFFFFFFFFFFFFFFFF"
proof -
  have "entry 1 ''d'' demo_tree = Some 3" "entry 1 ''e'' demo_tree = Some 5" by (simp_all add: entry_def dir_lookup_def)
  moreover have "Directory_IsEmpty (\<lambda>k. GetInode k demo_tree) tree_e" by (simp add: Directory_IsEmpty_def)
  ultimately show ?thesis
    using rename_over_directory_wraps [OF demo_tree_ok tree_live(1) _ tree_live(1) _ tree_live(3), of "''d''" "''e''" 5 tree_e demo_env] by auto
qed

end
