(* ===== verification/Attr_Props.thy ===== *)
theory Attr_Props
  imports Name_Props Pickle_Roundtrip
begin

text \<open>
  Extended attributes, access checks and symbolic links at the level of requests.
\<close>

section \<open>Extended attributes\<close>

text \<open>The bytes an object has under an attribute name; none for a name it does not have.\<close>

definition xattr_holds :: "heap \<Rightarrow> Inode \<Rightarrow> string \<Rightarrow> byte list \<Rightarrow> bool" where
  "xattr_holds h i name v =
     (case map_of (m_xattr i) name of
        None \<Rightarrow> v = []
      | Some (p, sz) \<Rightarrow> p \<noteq> nullptr \<and> h_mem h p = Some v \<and> unat sz = length v)"

lemma heap_realloc_ok:
  assumes "(if p = nullptr then Some [] else h_mem h p) = Some v" "heap_wf h" "env_alloc e n"
  obtains q h' new where "heap_realloc e p n h = Some (q, h')" "h_mem h' q = Some new" "length new = unat n" "q \<noteq> nullptr"
proof -
  obtain new where new: "realloc_buf e v n = Some new" using assms(3) by (simp add: realloc_buf_def)
  note len = length_realloc_buf [OF new]
  show ?thesis
  proof (cases "p \<noteq> nullptr \<and> env_inplace e")
    case True
    with assms(1) new have "heap_realloc e p n h = Some (p, h\<lparr>h_mem := (h_mem h)(p \<mapsto> new)\<rparr>)"
      by (simp add: heap_realloc_def)
    from that [OF this _ len] True show ?thesis by simp
  next
    case False
    with assms(1) new have "heap_realloc e p n h = Some (h_next h,
        h\<lparr>h_mem := (h_mem h)(p := None, h_next h \<mapsto> new), h_next := Suc (h_next h)\<rparr>)"
      by (auto simp: heap_realloc_def)
    from that [OF this _ len] assms(2) show ?thesis by (simp add: heap_wf_def)
  qed
qed

lemma SetXAttr_run:
  assumes old: "xattr_holds h i name v" and wf: "heap_wf h" and val: "value \<noteq> []" "length value < 2 ^ 63"
    and len: "length v < 2 ^ 64"
    and flags: "map_of (m_xattr i) name \<noteq> None \<longrightarrow> \<not> flag_set flags XATTR_CREATE"
      "map_of (m_xattr i) name = None \<longrightarrow> \<not> flag_set flags XATTR_REPLACE"
    and mem: "\<And>n. env_alloc e n"
  obtains h' p sz where "Inode_SetXAttrAndReply e name value flags 0 (h, i) =
      Some (ReplyErr 0, h', i\<lparr>m_xattr := map_put name (p, sz) (m_xattr i)\<rparr>)"
    "p \<noteq> nullptr" "h_mem h' p = Some (value @ drop (length value) v)" "unat sz = max (length value) (length v)"
proof -
  let ?n = "of_nat (length value) :: size_t"
  have n: "unat ?n = length value" using val by (simp add: unat_of_nat_64)
  obtain p sz where ps: "(case map_of (m_xattr i) name of None \<Rightarrow> (nullptr, 0) | Some x \<Rightarrow> x) = (p, sz)" by fastforce
  have sz: "unat sz = length v" and pv: "p = nullptr \<Longrightarrow> v = []" "p \<noteq> nullptr \<Longrightarrow> h_mem h p = Some v"
    using old ps by (auto simp: xattr_holds_def split: option.splits)
  show ?thesis
  proof (cases "length v < length value")
    case True
    then have lt: "sz < ?n" using sz n by (simp add: word_less_nat_alt)
    have "(if p = nullptr then Some [] else h_mem h p) = Some v" using pv by auto
    then obtain q h1 new where r: "heap_realloc e p ?n h = Some (q, h1)" "h_mem h1 q = Some new"
      "length new = unat ?n" "q \<noteq> nullptr"
      by (rule heap_realloc_ok [OF _ wf mem])
    note r = r(1,2,4) r(3) [unfolded n]
    then have "memcpy_at 0 value new = Some value" by (simp add: memcpy_at_def blit_def)
    with r lt ps flags val True that [of "h1\<lparr>h_mem := (h_mem h1)(q \<mapsto> value)\<rparr>" q ?n] n show ?thesis
      by (auto simp: Inode_SetXAttrAndReply_def)
  next
    case False
    then have ge: "\<not> sz < ?n" using sz n by (simp add: word_less_nat_alt)
    have p: "p \<noteq> nullptr"
    proof
      assume "p = nullptr"
      then have "v = []" by (rule pv(1))
      with False val(1) show False by simp
    qed
    have "memcpy_at 0 value v = Some (value @ drop (length value) v)" using False by (simp add: memcpy_at_def blit_def)
    with p pv(2) ge ps flags that [of "h\<lparr>h_mem := (h_mem h)(p \<mapsto> value @ drop (length value) v)\<rparr>" p sz] False sz show ?thesis
      by (auto simp: Inode_SetXAttrAndReply_def)
  qed
qed

text \<open>
  (C35) Setting an extended attribute and getting it back: a set request on a linked object answers
  success and a get request with a large enough buffer then answers the value set, followed by the
  bytes of the old value beyond its length. So a new attribute or a longer value is stored as given;
  a shorter value does not replace a longer one, whose tail stays.
\<close>

theorem xattr_set_then_get:
  assumes i: "live ino s = Some i" and old: "xattr_holds (xheap s) i name v" and wf: "heap_wf (xheap s)"
    and val: "value \<noteq> []" "length value < 2 ^ 63" and len: "length v < 2 ^ 64"
    and flags: "map_of (m_xattr i) name \<noteq> None \<longrightarrow> \<not> flag_set flags XATTR_CREATE"
      "map_of (m_xattr i) name = None \<longrightarrow> \<not> flag_set flags XATTR_REPLACE"
    and mem: "\<forall>n. env_alloc e n" and n: "max (length value) (length v) \<le> unat n"
  shows "\<exists>s'. FuseSetXAttr e ino name value flags s = Some ([ReplyErr 0], s') \<and>
    FuseGetXAttr ino name n s' = Some ([ReplyBuf (value @ drop (length value) v)], s')"
proof -
  obtain h p sz where r: "Inode_SetXAttrAndReply e name value flags 0 (xheap s, i) =
      Some (ReplyErr 0, h, i\<lparr>m_xattr := map_put name (p, sz) (m_xattr i)\<rparr>)"
    "p \<noteq> nullptr" "h_mem h p = Some (value @ drop (length value) v)" "unat sz = max (length value) (length v)"
    by (rule SetXAttr_run [OF old wf val len flags, of e]) (use mem in blast)+
  let ?i = "i\<lparr>m_xattr := map_put name (p, sz) (m_xattr i)\<rparr>"
  let ?s = "(put_inode ino ?i s)\<lparr>xheap := h\<rparr>"
  have run: "FuseSetXAttr e ino name value flags s = Some ([ReplyErr 0], ?s)" using i r(1) by (simp add: FuseSetXAttr_def)
  have "GetInode ino ?s = Some ?i" using liveD [OF i] by (simp add: GetInode_put_inode GetInode_Some)
  then have l: "live ino ?s = Some ?i" using live_links [OF i] by (simp add: liveI)
  have "length value \<le> unat n" using n by simp
  then have "n \<noteq> 0" using val(1) by auto
  moreover have "sz \<le> n" using n r(4) by (simp add: word_le_nat_alt)
  ultimately have "Inode_GetXAttrAndReply name n 0 (h, ?i) = Some (ReplyBuf (value @ drop (length value) v))"
    using r(2-4) by (auto simp: Inode_GetXAttrAndReply_def mem_read_def max_def)
  then have "FuseGetXAttr ino name n ?s = Some ([ReplyBuf (value @ drop (length value) v)], ?s)"
    using l by (simp add: FuseGetXAttr_def)
  with run show ?thesis by blast
qed

theorem xattr_set_then_get_witness:
  "\<exists>s'. FuseSetXAttr demo_env 2 ''user.k'' [7, 8] 0 demo_fs = Some ([ReplyErr 0], s') \<and>
     FuseGetXAttr 2 ''user.k'' 64 s' = Some ([ReplyBuf [7, 8]], s')"
proof -
  have h: "xattr_holds (xheap demo_fs) demo_file ''user.k'' []" "heap_wf (xheap demo_fs)"
    by (simp_all add: xattr_holds_def demo_file_def heap_wf_def empty_heap_def)
  from xattr_set_then_get [OF demo_live(2) h, of "[7, 8]" 0 demo_env 64] show ?thesis by simp
qed

text \<open>
  Removing an extended attribute: the request answers success, a get request for the name then
  answers that there is none, and every other attribute of the object reads as before.
\<close>

theorem xattr_remove_then_get:
  assumes i: "live ino s = Some i" "map_of (m_xattr i) name = Some v"
  shows "\<exists>s'. FuseRemoveXAttr ino name s = Some ([ReplyErr 0], s') \<and>
    FuseGetXAttr ino name n s' = Some ([ReplyErr ENODATA], s') \<and>
    (\<forall>other. other \<noteq> name \<longrightarrow>
      map_option fst (FuseGetXAttr ino other n s') = map_option fst (FuseGetXAttr ino other n s))"
proof -
  let ?i = "i\<lparr>m_xattr := map_erase name (m_xattr i)\<rparr>"
  let ?s = "put_inode ino ?i s"
  have run: "FuseRemoveXAttr ino name s = Some ([ReplyErr 0], ?s)"
    using i by (simp add: FuseRemoveXAttr_def Inode_RemoveXAttrAndReply_def)
  have "GetInode ino ?s = Some ?i" using liveD [OF i(1)] by (simp add: GetInode_put_inode GetInode_Some)
  then have l: "live ino ?s = Some ?i" using live_links [OF i(1)] by (simp add: liveI)
  have "Inode_GetXAttrAndReply other n 0 (xheap s, ?i) = Inode_GetXAttrAndReply other n 0 (xheap s, i)" if "other \<noteq> name" for other
    using that by (simp add: Inode_GetXAttrAndReply_def)
  then have "map_option fst (FuseGetXAttr ino other n ?s) = map_option fst (FuseGetXAttr ino other n s)" if "other \<noteq> name" for other
    using that l i(1) by (simp add: FuseGetXAttr_def split: Option.bind_split)
  moreover have "FuseGetXAttr ino name n ?s = Some ([ReplyErr ENODATA], ?s)"
    using l by (simp add: FuseGetXAttr_def Inode_GetXAttrAndReply_def)
  ultimately show ?thesis using run by blast
qed

theorem xattr_remove_then_get_witness:
  "\<exists>s s' s''. FuseSetXAttr demo_env 2 ''user.k'' [7, 8] 0 demo_fs = Some ([ReplyErr 0], s) \<and>
     FuseRemoveXAttr 2 ''user.k'' s = Some ([ReplyErr 0], s') \<and>
     FuseGetXAttr 2 ''user.k'' 64 s' = Some ([ReplyErr ENODATA], s'')"
proof -
  obtain h p sz where r: "Inode_SetXAttrAndReply demo_env ''user.k'' [7, 8] 0 0 (xheap demo_fs, demo_file) =
      Some (ReplyErr 0, h, demo_file\<lparr>m_xattr := map_put ''user.k'' (p, sz) (m_xattr demo_file)\<rparr>)"
    by (rule SetXAttr_run [of "xheap demo_fs" demo_file "''user.k''" "[]" "[7, 8]" 0 demo_env])
      (simp_all add: xattr_holds_def demo_file_def heap_wf_def empty_heap_def)
  let ?i = "demo_file\<lparr>m_xattr := map_put ''user.k'' (p, sz) (m_xattr demo_file)\<rparr>"
  let ?s = "(put_inode 2 ?i demo_fs)\<lparr>xheap := h\<rparr>"
  have run: "FuseSetXAttr demo_env 2 ''user.k'' [7, 8] 0 demo_fs = Some ([ReplyErr 0], ?s)"
    using r by (simp add: FuseSetXAttr_def)
  have "live 2 ?s = Some ?i" by (rule liveI) (simp_all add: GetInode_put_inode)
  moreover have "map_of (m_xattr ?i) ''user.k'' = Some (p, sz)" by simp
  ultimately show ?thesis using xattr_remove_then_get [of 2 ?s ?i "''user.k''" "(p, sz)" 64] run by blast
qed

section \<open>Access\<close>

text \<open>
  The file class rules of POSIX for a mask of read, write and execute bits: the owner is judged by
  the owner bits, else a member of the group by the group bits, else by the bits for others.
\<close>

definition posix_grants :: "u32 \<Rightarrow> u32 \<Rightarrow> u32 \<Rightarrow> stat \<Rightarrow> bool" where
  "posix_grants msk gid uid a =
     (let shift = (if uid = st_uid a then 6 else if gid = st_gid a then 3 else 0)
      in drop_bit shift (st_mode a) AND msk = msk)"


lemma bit_small_mask: "bit (a :: u32) j \<Longrightarrow> a < 8 \<Longrightarrow> j < 3"
proof -
  assume b: "bit a j" and "a < 8"
  then have "unat a < 2 ^ 3" by (simp add: word_less_nat_alt)
  then have "take_bit 3 a = a" 
    by (simp add: word_unat_eq_iff unsigned_take_bit_eq take_bit_nat_eq_self)
  with b show "j < 3" by (metis bit_take_bit_iff)
qed

lemma shifted_mask:
  assumes "msk < (8 :: u32)" "k \<le> 6"
  shows "m AND push_bit k msk = push_bit k msk \<longleftrightarrow> drop_bit k m AND msk = msk"
proof -
  have "m AND push_bit k msk = push_bit k (drop_bit k m AND msk)"
    by (rule bit_word_eqI) (auto simp: bit_simps)
  moreover have "drop_bit k (push_bit k a) = a" if "a < 8" for a :: u32
  proof (rule bit_word_eqI)
    fix j show "bit (drop_bit k (push_bit k a)) j = bit a j"
      using bit_small_mask [OF _ that, of j] assms(2) by (auto simp: bit_simps)
  qed
  moreover have "drop_bit k m AND msk < 8"
    using assms(1) word_and_le1 [of "drop_bit k m" msk] by (rule le_less_trans [rotated])
  ultimately show ?thesis using assms(1) by metis
qed

text \<open>
  The access check grants at least what the POSIX file classes grant: whenever the class of the
  caller (owner, else group, else others) has every permission asked for, the reply is success. The
  converse fails for an owner or group member whose class has fewer permissions than others.
\<close>

theorem access_grants_posix:
  assumes "live ino s = Some i" "msk < 8" "posix_grants msk (ctx_gid ctx) (ctx_uid ctx) (i_attr i)"
  shows "FuseAccess ctx ino msk s = Some ([ReplyErr 0], s)"
proof -
  have six: "push_bit 3 (push_bit 3 msk) = push_bit 6 msk" by (simp add: push_bit_push_bit)
  have "Inode_ReplyAccess msk (ctx_gid ctx) (ctx_uid ctx) i = ReplyErr 0"
    using assms(3) shifted_mask [OF assms(2), of 3 "st_mode (i_attr i)"] shifted_mask [OF assms(2), of 6 "st_mode (i_attr i)"]
    by (auto simp: Inode_ReplyAccess_def posix_grants_def six Let_def split: if_splits)
  with assms(1) show ?thesis by (simp add: FuseAccess_def)
qed

theorem access_grants_posix_witness:
  "posix_grants 4 0 0 (i_attr demo_file) \<and> FuseAccess \<lparr>ctx_uid = 0, ctx_gid = 0\<rparr> 2 4 demo_fs = Some ([ReplyErr 0], demo_fs)"
proof -
  have "posix_grants 4 0 0 (i_attr demo_file)" by code_simp
  with access_grants_posix [OF demo_live(2), of 4 "\<lparr>ctx_uid = 0, ctx_gid = 0\<rparr>"] show ?thesis by simp
qed

text \<open>A file with permissions for others only is open to its owner, whom POSIX would refuse.\<close>

lemma access_exceeds_posix:
  "\<not> posix_grants 4 0 0 (i_attr (demo_inode 2 0x8004 1 0 0 (File []))) \<and>
   Inode_ReplyAccess 4 0 0 (demo_inode 2 0x8004 1 0 0 (File [])) = ReplyErr 0"
  by code_simp

section \<open>Symbolic links\<close>

text \<open>
  (C36) A symbolic link reads back what it was made with: after a symlink request that has answered an
  entry, the name is bound in the parent to a new object, and a readlink request on it answers exactly
  the target given.
\<close>

theorem readlink_after_symlink:
  assumes ok: "fs_ok s" and fits: "entry_fits parent name s" and p: "live parent s = Some p" "is_Directory p"
    and null: "GetInode 0 s \<noteq> None"
    and run: "FuseSymlink e ctx link parent name s = Some (rs, t)" "ReplyEntry pr \<in> set rs"
  shows "\<exists>ino p'. GetInode ino s = None \<and> GetInode parent t = Some p' \<and>
    dir_lookup p' = (dir_lookup p)(name \<mapsto> ino) \<and> FuseReadLink ino t = Some ([ReplyReadlink link], t)"
proof -
  let ?mode = "0x1FF OR S_IFLNK :: mode_t"
  let ?out = "do { (ino, s') \<leftarrow> do_create_node e ctx parent name ?mode 0 (Some link) s;
      if ino > 0 then reply_entry (word_of_int ino) s' else fuse_reply_err (- ino) s' }"
  have "made parent name ?mode (Some link) ReplyEntry s ?out" by (rule create_node_made(1) [OF ok fits p null])
  moreover have "\<exists>rs'. ?out = Some (rs', t) \<and> ReplyEntry pr \<in> set rs'"
    using run p by (auto simp: FuseSymlink_def Let_def fuse_reply_err_def split: if_splits Option.bind_splits)
  ultimately obtain ino j where c: "created parent name ?mode (Some link) ino 1 s t" "GetInode ino t = Some j"
    by (auto simp: made_def)
  have "m_obj j = SymLink link" "st_nlink (i_attr j) = 1"
    using c by (auto simp: created_def new_payload_def)
  then have "FuseReadLink ino t = Some ([ReplyReadlink link], t)"
    using liveI [OF c(2)] by (simp add: FuseReadLink_def is_SymLink_def m_link_def)
  with c p liveD [OF p(1)] show ?thesis by (auto simp: created_def)
qed

fun is_entry_reply :: "reply list \<Rightarrow> bool" where
  "is_entry_reply [ReplyEntry pr] = True"
| "is_entry_reply rs = False"

lemma is_entry_replyD: "is_entry_reply rs \<Longrightarrow> \<exists>pr. rs = [ReplyEntry pr]"
  by (cases rs rule: is_entry_reply.cases) auto

theorem readlink_after_symlink_witness:
  "\<exists>pr t ino. FuseSymlink demo_env demo_ctx ''/t'' 1 ''l'' demo_fs = Some ([ReplyEntry pr], t) \<and>
     FuseReadLink ino t = Some ([ReplyReadlink ''/t''], t)"
proof -
  have "case FuseSymlink demo_env demo_ctx ''/t'' 1 ''l'' demo_fs of None \<Rightarrow> False | Some (rs, t) \<Rightarrow> is_entry_reply rs"
    by code_simp
  then obtain pr t where r: "FuseSymlink demo_env demo_ctx ''/t'' 1 ''l'' demo_fs = Some ([ReplyEntry pr], t)"
    by (cases "FuseSymlink demo_env demo_ctx ''/t'' 1 ''l'' demo_fs") (auto dest: is_entry_replyD)
  have "entry_fits 1 ''l'' demo_fs" by (simp add: entry_fits_def dir_bytes_def)
  from readlink_after_symlink [OF demo_fs_ok this demo_live(1) demo_kinds(1) _ r, of pr] r show ?thesis by auto
qed

text \<open>With no free inode a symlink request sends two replies, of which libfuse expects one.\<close>

lemma symlink_replies_twice:
  "map_option fst (FuseSymlink demo_env demo_ctx ''/t'' 1 ''l'' (demo_fs\<lparr>m_stbuf := demo_stbuf\<lparr>f_ffree := 0\<rparr>\<rparr>)) =
     Some [ReplyErr ENOSPC, ReplyErr ENOSPC]"
  by code_simp

end
