(* ===== verification/Abstract_Fs.thy ===== *)
theory Abstract_Fs
  imports Machine
begin

text \<open>
  What the file system promises, without its data structures: a map from inode numbers to nodes,
  whose content is a byte sequence, a map from names to numbers, a link target or a device, and a
  map from keys to saved trees. There are no buffers, blocks, free counters, vectors of entries or
  queues of numbers here. What depends on them is a choice of the specification: running out
  of space or memory, and the number of a new node.

  The relation \<open>spec\<close> says for every request which replies and which new tree are allowed.
  \<^verbatim>\<open>Fs_Refinement\<close> shows that every step of the code is one of these.
\<close>

section \<open>State\<close>

datatype content =
    Bytes "byte list"
  | Entries "string \<Rightarrow> ino_t option"
  | Target string
  | Device SpecialInodeTypes

record node =
  n_content :: content
  n_mode :: mode_t
  n_links :: u64
  n_lookups :: u64

type_synonym tree = "ino_t \<Rightarrow> node option"

record afs =
  a_tree :: tree
  a_saved :: "u64 \<Rightarrow> tree option"

definition is_dir :: "node \<Rightarrow> bool" where
  "is_dir n = (case n_content n of Entries _ \<Rightarrow> True | _ \<Rightarrow> False)"

definition is_file :: "node \<Rightarrow> bool" where
  "is_file n = (case n_content n of Bytes _ \<Rightarrow> True | _ \<Rightarrow> False)"

definition alive :: "tree \<Rightarrow> ino_t \<Rightarrow> node option" where
  "alive t i = (case t i of None \<Rightarrow> None | Some n \<Rightarrow> if n_links n = 0 then None else Some n)"

definition n_entries :: "node \<Rightarrow> string \<Rightarrow> ino_t option" where
  "n_entries n = (case n_content n of Entries m \<Rightarrow> m | _ \<Rightarrow> Map.empty)"

text \<open>The number a name is bound to; 0 is bound to nothing.\<close>

definition number :: "node \<Rightarrow> string \<Rightarrow> ino_t" where
  "number n name = (case n_entries n name of None \<Rightarrow> 0 | Some k \<Rightarrow> k)"

definition no_entries :: "tree \<Rightarrow> node \<Rightarrow> bool" where
  "no_entries t n \<longleftrightarrow> (\<forall>name k. n_entries n name = Some k \<longrightarrow> name = ''.'' \<or> name = ''..'' \<or> alive t k = None)"

text \<open>The attributes sent back for a node.\<close>

definition describes :: "ino_t \<Rightarrow> node \<Rightarrow> stat \<Rightarrow> bool" where
  "describes i n a \<longleftrightarrow> st_ino a = i \<and> st_mode a = n_mode n \<and> st_nlink a = n_links n \<and>
     (case n_content n of
        Bytes b \<Rightarrow> unat (st_size a) = length b
      | Target l \<Rightarrow> st_size a = of_nat (length l)
      | _ \<Rightarrow> True)"

section \<open>Changes of a tree\<close>

definition at :: "ino_t \<Rightarrow> (node \<Rightarrow> node) \<Rightarrow> tree \<Rightarrow> tree" where
  "at i g t = t(i := map_option g (t i))"

definition on_entries :: "((string \<Rightarrow> ino_t option) \<Rightarrow> string \<Rightarrow> ino_t option) \<Rightarrow> node \<Rightarrow> node" where
  "on_entries g n = (case n_content n of Entries m \<Rightarrow> n\<lparr>n_content := Entries (g m)\<rparr> | _ \<Rightarrow> n)"

definition bind_name :: "ino_t \<Rightarrow> string \<Rightarrow> ino_t \<Rightarrow> tree \<Rightarrow> tree" where
  "bind_name p name i = at p (on_entries (\<lambda>m. m(name \<mapsto> i)))"

definition rebind_name :: "ino_t \<Rightarrow> string \<Rightarrow> ino_t \<Rightarrow> tree \<Rightarrow> tree" where
  "rebind_name p name i = at p (on_entries (\<lambda>m. if m name = None then m else m(name \<mapsto> i)))"

definition unbind_name :: "ino_t \<Rightarrow> string \<Rightarrow> tree \<Rightarrow> tree" where
  "unbind_name p name = at p (on_entries (\<lambda>m. m(name := None)))"

definition links :: "ino_t \<Rightarrow> (u64 \<Rightarrow> u64) \<Rightarrow> tree \<Rightarrow> tree" where
  "links i g = at i (\<lambda>n. n\<lparr>n_links := g (n_links n)\<rparr>)"

definition looked_up :: "ino_t \<Rightarrow> tree \<Rightarrow> tree" where
  "looked_up i = at i (\<lambda>n. n\<lparr>n_lookups := n_lookups n + 1\<rparr>)"

text \<open>The link count as the code reads it, a signed 32-bit number, and what emptying it leaves.\<close>

definition link_number :: "u64 \<Rightarrow> int" where
  "link_number l = sint (ucast l :: u32)"

definition no_links :: "u64 \<Rightarrow> u64" where
  "no_links l = (if link_number l > 0 then l - ucast (ucast l :: u32) else l)"

text \<open>The content of a new node by its mode.\<close>

definition new_content :: "ino_t \<Rightarrow> ino_t \<Rightarrow> mode_t \<Rightarrow> string option \<Rightarrow> content option" where
  "new_content p i mode link =
     (if S_ISREG mode then Some (Bytes [])
      else if S_ISDIR mode then Some (Entries [''..'' \<mapsto> p, ''.'' \<mapsto> i])
      else if S_ISCHR mode then Some (Device SPECIAL_INODE_CHAR_DEV)
      else if S_ISBLK mode then Some (Device SPECIAL_INODE_BLOCK_DEV)
      else if S_ISFIFO mode then Some (Device SPECIAL_INODE_FIFO)
      else if S_ISSOCK mode then Some (Device SPECIAL_INODE_SOCK)
      else if S_ISLNK mode then map_option Target link
      else None)"

section \<open>Outcomes shared by several requests\<close>

definition refused :: "int \<Rightarrow> reply list \<Rightarrow> tree \<Rightarrow> tree \<Rightarrow> bool" where
  "refused e rs t t' \<longleftrightarrow> rs = [ReplyErr e] \<and> t' = t"

definition on_alive :: "ino_t \<Rightarrow> (node \<Rightarrow> bool) \<Rightarrow> reply list \<Rightarrow> tree \<Rightarrow> tree \<Rightarrow> bool" where
  "on_alive i P rs t t' = (case alive t i of None \<Rightarrow> refused ENOENT rs t t' | Some n \<Rightarrow> P n)"

definition on_dir :: "ino_t \<Rightarrow> (node \<Rightarrow> bool) \<Rightarrow> reply list \<Rightarrow> tree \<Rightarrow> tree \<Rightarrow> bool" where
  "on_dir i P rs t t' = on_alive i (\<lambda>n. if is_dir n then P n else refused ENOTDIR rs t t') rs t t'"

text \<open>The reply that hands out a node counts as a lookup of it.\<close>

definition hands_out ::
    "(fuse_entry_param \<Rightarrow> reply) \<Rightarrow> ino_t \<Rightarrow> reply list \<Rightarrow> tree \<Rightarrow> tree \<Rightarrow> bool" where
  "hands_out rep i rs t t' \<longleftrightarrow>
     (\<exists>n ep. t i = Some n \<and> rs = [rep ep] \<and> describes i n (e_attr ep) \<and> t' = looked_up i t)"

definition makes ::
    "(fuse_entry_param \<Rightarrow> reply) \<Rightarrow> ino_t \<Rightarrow> string \<Rightarrow> mode_t \<Rightarrow> string option \<Rightarrow> reply list \<Rightarrow> tree \<Rightarrow> tree \<Rightarrow> bool" where
  "makes rep p name mode link rs t t' \<longleftrightarrow>
     (\<exists>e \<in> {EEXIST, EINVAL, ENOSPC}. refused e rs t t') \<or>
     (\<exists>i c n. t i = None \<and> i \<noteq> 0 \<and> alive t p = Some n \<and> n_entries n name = None \<and>
        new_content p i mode link = Some c \<and>
        hands_out rep i rs
          ((links p (\<lambda>l. l + (if S_ISDIR mode then 1 else 0)) (bind_name p name i t))
             (i \<mapsto> \<lparr>n_content = c, n_mode = mode, n_links = (if S_ISDIR mode then 2 else 1), n_lookups = 0\<rparr>)) t')"

text \<open>Renaming over an existing node, and to a name that is free.\<close>

definition replaces ::
    "ino_t \<Rightarrow> string \<Rightarrow> ino_t \<Rightarrow> string \<Rightarrow> ino_t \<Rightarrow> node \<Rightarrow> ino_t \<Rightarrow> node \<Rightarrow> reply list \<Rightarrow> tree \<Rightarrow> tree \<Rightarrow> bool" where
  "replaces p name p' name' i n j x rs t t' =
     (if is_dir n \<and> \<not> is_dir x then refused ENOTDIR rs t t'
      else if is_dir x \<and> \<not> no_entries t x then refused ENOTEMPTY rs t t'
      else if \<not> is_dir n \<and> is_dir x then refused EISDIR rs t t'
      else rs = [ReplyErr 0] \<and>
        (let u = unbind_name p name (rebind_name p' name' i (links j (\<lambda>l. l - 1) t))
         in t' = (if is_dir x then links p (\<lambda>l. l - 1) (links j (\<lambda>l. l - 2) u) else u)))"

definition moves ::
    "ino_t \<Rightarrow> string \<Rightarrow> ino_t \<Rightarrow> string \<Rightarrow> ino_t \<Rightarrow> node \<Rightarrow> reply list \<Rightarrow> tree \<Rightarrow> tree \<Rightarrow> bool" where
  "moves p name p' name' i n rs t t' \<longleftrightarrow> rs = [ReplyErr 0] \<and>
     (\<exists>added. (added \<longrightarrow> (\<forall>d. t p' = Some d \<longrightarrow> n_entries d name' = None)) \<and>
       (let u = unbind_name p name (if added then bind_name p' name' i t else t)
        in t' = (if is_dir n then links p' (\<lambda>l. l + 1) (links p (\<lambda>l. l - 1) u) else u)))"

section \<open>Requests on the tree\<close>

fun spec :: "request \<Rightarrow> reply list \<Rightarrow> tree \<Rightarrow> tree \<Rightarrow> bool" where
  "spec (Req_Lookup p name) rs t t' = on_dir p (\<lambda>n.
     let i = number n name in
     if i = 0 \<or> alive t i = None then refused ENOENT rs t t' else hands_out ReplyEntry i rs t t') rs t t'"
| "spec (Req_Forget i k) rs t t' =
     (case t i of
        None \<Rightarrow> rs = [] \<and> t' = t
      | Some n \<Rightarrow> rs = [ReplyNone] \<and>
          (if n_lookups n - k = 0 \<and> n_links n = 0 then t' = t(i := None)
           else t' = t(i \<mapsto> n\<lparr>n_lookups := n_lookups n - k\<rparr>)))"
| "spec (Req_GetAttr i) rs t t' = on_alive i (\<lambda>n. \<exists>a. rs = [ReplyAttr a] \<and> describes i n a \<and> t' = t) rs t t'"
| "spec (Req_SetAttr i a f) rs t t' = on_alive i (\<lambda>n.
     if flag_set f FUSE_SET_ATTR_SIZE then
       (case n_content n of
          Bytes b \<Rightarrow>
            (\<exists>e \<in> {- ENOSPC, EINVAL}. refused e rs t t') \<or>
            (let n' = n\<lparr>n_content := Bytes (spec_truncate (unat (st_size a)) b)\<rparr>
             in \<exists>a'. rs = [ReplyAttr a'] \<and> describes i n' a' \<and> t' = t(i \<mapsto> n'))
        | Entries _ \<Rightarrow> refused EISDIR rs t t'
        | _ \<Rightarrow> refused EINVAL rs t t')
     else
       let n' = (if flag_set f FUSE_SET_ATTR_MODE then n\<lparr>n_mode := st_mode a\<rparr> else n)
       in \<exists>a'. rs = [ReplyAttr a'] \<and> describes i n' a' \<and> t' = t(i \<mapsto> n')) rs t t'"
| "spec (Req_ReadLink i) rs t t' = on_alive i (\<lambda>n.
     case n_content n of
       Target l \<Rightarrow> rs = [ReplyReadlink l] \<and> t' = t
     | _ \<Rightarrow> refused EINVAL rs t t') rs t t'"
| "spec (Req_Mknod c p name mode dev) rs t t' = on_dir p (\<lambda>n.
     refused ENOSPC rs t t' \<or>
     (if number n name \<noteq> 0 then refused EEXIST rs t t' else makes ReplyEntry p name mode None rs t t')) rs t t'"
| "spec (Req_Mkdir c p name mode) rs t t' = on_dir p (\<lambda>n.
     refused ENOSPC rs t t' \<or>
     (if number n name \<noteq> 0 then refused EEXIST rs t t'
      else makes ReplyEntry p name (mode OR S_IFDIR) None rs t t')) rs t t'"
| "spec (Req_Create c p name mode) rs t t' = on_dir p (\<lambda>n.
     makes ReplyCreate p name (mode OR S_IFREG) None rs t t') rs t t'"
| "spec (Req_Symlink c link p name) rs t t' = on_dir p (\<lambda>n.
     \<exists>k \<le> 2. \<exists>rs'. rs = replicate k (ReplyErr ENOSPC) @ rs' \<and>
       (if number n name \<noteq> 0 then refused EEXIST rs' t t'
        else makes ReplyEntry p name (0x1FF OR S_IFLNK) (Some link) rs' t t')) rs t t'"
| "spec (Req_Unlink p name) rs t t' = on_dir p (\<lambda>n.
     let i = number n name in
     if i = 0 then refused ENOENT rs t t'
     else rs = [ReplyErr 0] \<and> t' = links i (\<lambda>l. l - 1) (unbind_name p name t)) rs t t'"
| "spec (Req_Rmdir p name) rs t t' = on_dir p (\<lambda>n.
     let i = number n name in
     if i = 0 then refused ENOENT rs t t'
     else if i = p then refused EINVAL rs t t'
     else on_dir i (\<lambda>d.
       if \<not> no_entries t d then refused ENOTEMPTY rs t t'
       else rs = [ReplyErr 0] \<and>
         t' = links i no_links (links p (\<lambda>l. l - 1) (unbind_name p name t))) rs t t') rs t t'"
| "spec (Req_Rename p name p' name') rs t t' = on_alive p (\<lambda>d. on_alive p' (\<lambda>d'.
     if \<not> is_dir d \<or> \<not> is_dir d' then refused ENOTDIR rs t t'
     else
       let i = number d name; j = number d' name' in
       on_alive i (\<lambda>n.
         case t j of
           Some x \<Rightarrow>
             if link_number (n_links x) > 0 then replaces p name p' name' i n j x rs t t'
             else moves p name p' name' i n rs t t'
         | None \<Rightarrow> moves p name p' name' i n rs t t') rs t t') rs t t') rs t t'"
| "spec (Req_Link i p name) rs t t' = on_alive i (\<lambda>n. on_dir p (\<lambda>d.
     if number d name \<noteq> 0 then refused EEXIST rs t t'
     else (\<exists>e \<in> {EEXIST, ENOSPC}. refused e rs t t') \<or>
       n_entries d name = None \<and>
       hands_out ReplyEntry i rs (links i (\<lambda>l. l + 1) (bind_name p name i t)) t') rs t t') rs t t'"
| "spec (Req_Open i) rs t t' = on_alive i (\<lambda>n.
     if is_dir n then refused EISDIR rs t t' else rs = [ReplyOpen] \<and> t' = t) rs t t'"
| "spec (Req_Release i) rs t t' = on_alive i (\<lambda>n.
     if is_dir n then refused EISDIR rs t t' else rs = [ReplyErr 0] \<and> t' = t) rs t t'"
| "spec (Req_OpenDir i) rs t t' = on_alive i (\<lambda>n.
     if is_file n then refused ENOTDIR rs t t' else rs = [ReplyOpen] \<and> t' = t) rs t t'"
| "spec (Req_ReleaseDir i) rs t t' = on_alive i (\<lambda>n.
     if is_file n then refused ENOTDIR rs t t' else rs = [ReplyErr 0] \<and> t' = t) rs t t'"
| "spec (Req_Read i z off) rs t t' = on_alive i (\<lambda>n.
     case n_content n of
       Bytes b \<Rightarrow> rs = [ReplyBuf (spec_read (unat off) (unat z) b)] \<and> t' = t
     | Device _ \<Rightarrow> refused ENOENT rs t t'
     | _ \<Rightarrow> refused EISDIR rs t t') rs t t'"
| "spec (Req_Write i buf off) rs t t' =
     (case buf of
        None \<Rightarrow> refused EINVAL rs t t'
      | Some d \<Rightarrow> on_alive i (\<lambda>n.
          case n_content n of
            Bytes b \<Rightarrow>
              refused ENOSPC rs t t' \<or>
              rs = [ReplyWrite 0] \<and> t' = t \<or>
              rs = [ReplyWrite (of_nat (length d))] \<and>
              t' = t(i \<mapsto> n\<lparr>n_content := Bytes (spec_write (unat off) d b)\<rparr>)
          | Device _ \<Rightarrow> refused ENOENT rs t t'
          | _ \<Rightarrow> refused EISDIR rs t t') rs t t')"
| "spec (Req_Flush i) rs t t' \<longleftrightarrow> rs = [ReplyErr 0] \<and> t' = t"
| "spec (Req_Fsync i) rs t t' = (if t i = None then refused ENOENT rs t t' else rs = [ReplyErr 0] \<and> t' = t)"
| "spec (Req_FsyncDir i) rs t t' = on_dir i (\<lambda>n. rs = [ReplyErr 0] \<and> t' = t) rs t t'"
| "spec (Req_ReadDir i z off) rs t t' = on_dir i (\<lambda>n.
     t' = t \<and> (\<exists>ds. rs = [ReplyDirents ds] \<or> rs = [ReplyErr ENOMEM, ReplyDirents ds])) rs t t'"
| "spec Req_Statfs rs t t' \<longleftrightarrow> (\<exists>sb. rs = [ReplyStatfs sb]) \<and> t' = t"
| "spec (Req_SetXAttr i name v f) rs t t' = on_alive i (\<lambda>n.
     t' = t \<and> (\<exists>e \<in> {0, EEXIST, ENODATA, E2BIG}. rs = [ReplyErr e])) rs t t'"
| "spec (Req_GetXAttr i name z) rs t t' = on_alive i (\<lambda>n.
     t' = t \<and> ((\<exists>e \<in> {ENODATA, ERANGE}. rs = [ReplyErr e]) \<or> (\<exists>k. rs = [ReplyXattr k]) \<or> (\<exists>b. rs = [ReplyBuf b]))) rs t t'"
| "spec (Req_ListXAttr i z) rs t t' = on_alive i (\<lambda>n.
     t' = t \<and> ((\<exists>e \<in> {ERANGE, ENOMEM}. rs = [ReplyErr e]) \<or> (\<exists>k. rs = [ReplyXattr k]) \<or> (\<exists>b. rs = [ReplyBuf b]))) rs t t'"
| "spec (Req_RemoveXAttr i name) rs t t' = on_alive i (\<lambda>n.
     t' = t \<and> (\<exists>e \<in> {0, ENODATA}. rs = [ReplyErr e])) rs t t'"
| "spec (Req_Access c i m) rs t t' = on_alive i (\<lambda>n.
     t' = t \<and> (rs = [ReplyErr 0] \<or> rs = [ReplyErr EACCES] \<and> n_mode n AND m \<noteq> m)) rs t t'"
| "spec (Req_GetLock i) rs t t' \<longleftrightarrow> rs = [] \<and> t' = t"
| "spec (Req_Ioctl c a) rs t t' = False"

section \<open>The abstract machine\<close>

text \<open>Checkpoint and restore on the saved trees. Loading a state file is not covered.\<close>

definition ioctl_spec :: "u32 \<Rightarrow> u64 \<Rightarrow> reply list \<Rightarrow> afs \<Rightarrow> afs \<Rightarrow> bool" where
  "ioctl_spec c key rs A A' =
     (if c = VERIFS_CHECKPOINT then
        (case a_saved A key of
           None \<Rightarrow> rs = [ReplyIoctl] \<and> A' = A\<lparr>a_saved := (a_saved A)(key \<mapsto> a_tree A)\<rparr>
         | Some _ \<Rightarrow> rs = [ReplyErr EEXIST] \<and> A' = A)
      else if c = VERIFS_RESTORE then
        (case a_saved A key of
           None \<Rightarrow> rs = [ReplyErr ENOENT] \<and> A' = A
         | Some t \<Rightarrow> rs = [ReplyIoctl] \<and> A' = \<lparr>a_tree = t, a_saved = (a_saved A)(key := None)\<rparr>)
      else if c = VERIFS_PICKLE then (rs = [ReplyIoctl] \<or> (\<exists>e. rs = [ReplyErr e])) \<and> A' = A
      else c \<noteq> VERIFS_LOAD \<and> rs = [ReplyErr (- ENOSYS)] \<and> A' = A)"

definition astep :: "afs \<Rightarrow> request \<Rightarrow> reply list \<Rightarrow> afs \<Rightarrow> bool" where
  "astep A r rs A' =
     (case r of
        Req_Ioctl c key \<Rightarrow> ioctl_spec c key rs A A'
      | _ \<Rightarrow> spec r rs (a_tree A) (a_tree A') \<and> a_saved A' = a_saved A)"

text \<open>A fresh mount: the null inode and the root directory.\<close>

definition ainit :: "afs \<Rightarrow> bool" where
  "ainit A \<longleftrightarrow> a_saved A = Map.empty \<and> (\<exists>umask. a_tree A =
     [0 \<mapsto> \<lparr>n_content = Device SPECIAL_INODE_TYPE_NO_BLOCK, n_mode = 0, n_links = 0, n_lookups = 0\<rparr>,
      1 \<mapsto> \<lparr>n_content = Entries [''..'' \<mapsto> 1, ''.'' \<mapsto> 1], n_mode = S_IFDIR OR (0x1FF AND NOT umask),
            n_links = 2, n_lookups = 0\<rparr>])"

end
