(* ===== verification/Fs_Refinement.thy ===== *)
theory Fs_Refinement
  imports Machine_Props Rename_Props Attr_Props Abstract_Fs
begin

text \<open>
  The code refines the abstract file system: an abstraction function from the inode table to the
  tree, one lemma per primitive change of the table, one per handler, and the step of the whole
  machine.
\<close>

section \<open>Abstraction\<close>

definition node_of :: "Inode \<Rightarrow> node" where
  "node_of i = \<lparr>n_content =
       (case m_obj i of
          File _ \<Rightarrow> Bytes (file_data i)
        | Directory _ \<Rightarrow> Entries (dir_lookup i)
        | SymLink l \<Rightarrow> Target l
        | SpecialInode ty \<Rightarrow> Device ty),
     n_mode = GetMode i, n_links = st_nlink (i_attr i), n_lookups = m_nlookup i\<rparr>"

definition tree_of :: "Inode option list \<Rightarrow> tree" where
  "tree_of tab = (\<lambda>i. if unat i < length tab then map_option node_of (tab ! unat i) else None)"

definition abs_fs :: "fs \<Rightarrow> afs" where
  "abs_fs s = \<lparr>a_tree = tree_of (Inodes s),
     a_saved = (\<lambda>k. map_option (\<lambda>st. tree_of (fst st)) (map_of (state_pool s) k))\<rparr>"

abbreviation tr :: "fs \<Rightarrow> tree" where
  "tr s \<equiv> tree_of (Inodes s)"

lemma tr_GetInode: "tr s i = map_option node_of (GetInode i s)"
  by (simp add: tree_of_def GetInode_def)

lemma node_of_simps [simp]:
  "n_mode (node_of i) = GetMode i" "n_links (node_of i) = st_nlink (i_attr i)"
  "n_lookups (node_of i) = m_nlookup i"
  "is_dir (node_of i) = is_Directory i" "is_file (node_of i) = is_File i"
  by (simp_all add: node_of_def is_dir_def is_file_def is_Directory_def is_File_def split: inode_obj.splits)

lemma entries_node_of [simp]: "n_entries (node_of i) = dir_lookup i"
  by (cases "m_obj i") (simp_all add: node_of_def n_entries_def dir_lookup_def m_children_def)

lemma number_node_of [simp]: "number (node_of i) name = ChildInodeNumberWithName name i"
  by (simp add: number_def ChildInodeNumberWithName_lookup INO_NOTFOUND_def split: option.splits)

lemma alive_tr: "alive (tr s) i = map_option node_of (live i s)"
  by (simp add: alive_def live_def tr_GetInode HasNoLinks_def split: option.splits)

lemma describes_node:
  assumes "inode_ok i" "GetIno i = k" shows "describes k (node_of i) (i_attr i)"
  using assms
  by (cases "m_obj i") (auto simp: describes_def node_of_def inode_ok_def GetIno_def GetMode_def Size_def
      length_file_data)

lemma no_entries_node:
  assumes "dir_ok d"
  shows "no_entries (tr s) (node_of d) \<longleftrightarrow> Directory_IsEmpty (\<lambda>k. GetInode k s) d"
proof -
  have d: "distinct (map fst (m_children d))" using assms by (rule dir_okE)
  have "alive (tr s) k = None \<longleftrightarrow> (case GetInode k s of None \<Rightarrow> True | Some i \<Rightarrow> HasNoLinks i)" for k
    by (simp add: alive_tr live_def split: option.splits)
  then show ?thesis
    by (auto simp: no_entries_def Directory_IsEmpty_def list_all_iff dir_lookup_def map_of_eq_Some_iff [OF d])
qed

section \<open>Primitive changes\<close>

lemma tr_touched:
  assumes "touches {k} s s'" "GetInode k s' = Some j"
  shows "tr s' = (tr s)(k \<mapsto> node_of j)"
  using assms touchesD(1) [OF assms(1)] by (auto simp: fun_eq_iff tr_GetInode)

lemma tr_untouched: "touches {} s s' \<Longrightarrow> tr s' = tr s"
  using touchesD(1) [of "{}" s s'] by (auto simp: fun_eq_iff tr_GetInode)

lemma tr_at:
  assumes "touches {k} s s'" "GetInode k s = Some i" "GetInode k s' = Some j" "node_of j = g (node_of i)"
  shows "tr s' = at k g (tr s)"
  using tr_touched [OF assms(1,3)] assms(2,4) by (simp add: at_def tr_GetInode)

lemma node_of_dir:
  assumes "is_Directory i" "is_Directory j" "dir_lookup j = g (dir_lookup i)" "GetMode j = GetMode i"
    "st_nlink (i_attr j) = st_nlink (i_attr i)" "m_nlookup j = m_nlookup i"
  shows "node_of j = on_entries g (node_of i)"
  using assms by (auto simp: node_of_def on_entries_def is_kind_simps)

lemma tr_dir_step:
  assumes "touches {k} s s'" "GetInode k s = Some d" "GetInode k s' = Some d'" "is_Directory d"
    "dir_step (sb, d) (sb', d')" "dir_lookup d' = g (dir_lookup d)"
  shows "tr s' = at k (on_entries g) (tr s)"
  by (rule tr_at [OF assms(1-3)], rule node_of_dir) (use assms(4-6) in \<open>simp_all add: dir_step_def\<close>)

lemma on_entries_same [simp]: "at k (on_entries (\<lambda>m. m)) t = t"
  by (auto simp: at_def on_entries_def fun_eq_iff map_option_case split: content.splits option.splits)

lemma tr_AddChild:
  assumes ok: "fs_ok s" and d: "GetInode k s = Some d" "is_Directory d" and fits: "entry_fits k name s"
    and run: "on_inode k (AddChild name ino) s = Some (r, s')"
  shows "fs_ok s'" "touches {k} s s'"
    "- r \<in> {EEXIST, ENOSPC} \<and> tr s' = tr s \<or>
     r = 0 \<and> dir_lookup d name = None \<and> tr s' = bind_name k name ino (tr s)"
proof -
  obtain r' t d' where a': "on_inode k (AddChild name ino) s = Some (r', t)" "fs_ok t" "GetInode k t = Some d'"
    "touches {k} s t" "dir_step (m_stbuf s, d) (m_stbuf t, d')" "AddChild name ino (m_stbuf s, d) = Some (r', m_stbuf t, d')"
    by (rule on_inode_AddChild [OF ok d entry_fitsD [OF fits d(1)]])
  have "r' = r" "t = s'" using a'(1) run by simp_all
  note a = a'(2-) [unfolded this]
  show "fs_ok s'" "touches {k} s s'" by fact+
  from AddChild_outcome [OF fs_ok_inode(1) [OF ok d(1)] d(2) entry_fitsD [OF fits d(1)] a(5)]
  show "- r \<in> {EEXIST, ENOSPC} \<and> tr s' = tr s \<or>
     r = 0 \<and> dir_lookup d name = None \<and> tr s' = bind_name k name ino (tr s)"
  proof (elim disjE conjE)
    assume "- r \<in> {EEXIST, ENOSPC}" "d' = d"
    with tr_touched [OF a(3,2)] d show ?thesis by (simp add: fun_upd_idem tr_GetInode)
  next
    assume "r = 0" "name \<notin> dom (dir_lookup d)" "dir_lookup d' = (dir_lookup d)(name \<mapsto> ino)"
    with tr_dir_step [OF a(3) d(1) a(2) d(2) a(4), of "\<lambda>m. m(name \<mapsto> ino)"] show ?thesis
      by (simp add: bind_name_def domIff)
  qed
qed

lemma RemoveChild_lookup:
  assumes "dir_ok i" "RemoveChild e name (sb, i) = Some (r, sb', j)"
  shows "dir_lookup j = (dir_lookup i)(name := None)"
proof (cases "name \<in> dom (dir_lookup i)")
  case True
  obtain sb1 i1 where "RemoveChild e name (sb, i) = Some (0, sb1, i1)"
    "m_children i1 = filter (\<lambda>c. fst c \<noteq> name) (m_children i)"
    by (rule RemoveChild_ok [OF assms(1) True])
  with assms(2) show ?thesis by (simp add: dir_lookup_def map_of_filter_fst)
next
  case False
  with RemoveChild_missing [OF False, of e sb] assms(2) show ?thesis by (auto simp: domIff)
qed

lemma tr_RemoveChild:
  assumes ok: "fs_ok s" and d: "GetInode k s = Some d" "is_Directory d"
    and run: "on_inode k (RemoveChild e name) s = Some (r, s')"
  shows "fs_ok s'" "touches {k} s s'" "tr s' = unbind_name k name (tr s)"
proof -
  obtain r' t d' where a': "on_inode k (RemoveChild e name) s = Some (r', t)" "fs_ok t" "GetInode k t = Some d'"
    "touches {k} s t" "dir_step (m_stbuf s, d) (m_stbuf t, d')" "RemoveChild e name (m_stbuf s, d) = Some (r', m_stbuf t, d')"
    by (rule on_inode_RemoveChild [OF ok d])
  have "r' = r" "t = s'" using a'(1) run by simp_all
  note a = a'(2-) [unfolded this]
  show "fs_ok s'" "touches {k} s s'" by fact+
  have "dir_lookup d' = (dir_lookup d)(name := None)"
    by (rule RemoveChild_lookup [OF inode_ok_dir [OF fs_ok_inode(1) [OF ok d(1)] d(2)] a(5)])
  from tr_dir_step [OF a(3) d(1) a(2) d(2) a(4), of "\<lambda>m. m(name := None)"] this
  show "tr s' = unbind_name k name (tr s)" by (simp add: unbind_name_def)
qed

lemma tr_UpdateChild:
  assumes ok: "fs_ok s" and d: "GetInode k s = Some d" "is_Directory d"
    and run: "modify_inode k (\<lambda>d. snd (UpdateChild_nolock e name ino d)) s = Some s'"
  shows "tr s' = rebind_name k name ino (tr s)"
proof -
  let ?d = "snd (UpdateChild e name ino d)"
  note iok = fs_ok_inode(1) [OF ok d(1)]
  have s': "s' = put_inode k ?d s" using run d by (simp add: modify_inode_def UpdateChild_def)
  have step: "dir_step (m_stbuf s, d) (m_stbuf s, ?d)" by (rule UpdateChild_keeps [OF iok d(2)])
  have l: "dir_lookup ?d = (if dir_lookup d name = None then dir_lookup d else (dir_lookup d)(name \<mapsto> ino))"
  proof (cases "name \<in> dom (dir_lookup d)")
    case True
    with UpdateChild_ok [OF inode_ok_dir [OF iok d(2)] True, of e ino] show ?thesis
      by (metis domIff snd_conv)
  next
    case False
    with UpdateChild_missing [OF False, of e ino] show ?thesis by (auto simp: domIff)
  qed
  have "GetInode k s' = Some ?d" using modify_inode_run(2) [OF d(1), of "\<lambda>_. ?d"] by (simp add: s')
  from tr_dir_step [OF touches_put_inode [of k s ?d, folded s'] d(1) this d(2) step, of "\<lambda>m. if m name = None then m else m(name \<mapsto> ino)"] l
  show ?thesis by (simp add: rebind_name_def)
qed

lemma node_of_upd_attr:
  "st_size (g (i_attr i)) = st_size (i_attr i) \<Longrightarrow>
   node_of (upd_attr g i) = (node_of i)\<lparr>n_mode := st_mode (g (i_attr i)), n_links := st_nlink (g (i_attr i))\<rparr>"
  by (simp add: node_of_def GetMode_def file_data_def dir_lookup_def Size_def split: inode_obj.splits)

lemma tr_modify:
  assumes "modify_inode k g s = Some s'" "\<And>i. GetInode k s = Some i \<Longrightarrow> node_of (g i) = h (node_of i)"
  shows "tr s' = at k h (tr s)"
proof -
  from assms(1) obtain i where i: "GetInode k s = Some i" and s': "s' = put_inode k (g i) s"
    by (auto simp: modify_inode_def split: Option.bind_splits)
  show ?thesis
    by (rule tr_at [OF _ i]) (use touches_put_inode modify_inode_run(2) [OF i] assms(2) [OF i] in \<open>simp_all add: s'\<close>)
qed

lemma node_of_links:
  "node_of (IncrementLinkCount i) = (node_of i)\<lparr>n_links := n_links (node_of i) + 1\<rparr>"
  "node_of (DecrementLinkCount i) = (node_of i)\<lparr>n_links := n_links (node_of i) - 1\<rparr>"
  by (simp_all add: IncrementLinkCount_def DecrementLinkCount_def node_of_upd_attr GetMode_def [symmetric])

lemma tr_links:
  "modify_inode k IncrementLinkCount s = Some s' \<Longrightarrow> tr s' = links k (\<lambda>l. l + 1) (tr s)"
  "modify_inode k DecrementLinkCount s = Some s' \<Longrightarrow> tr s' = links k (\<lambda>l. l - 1) (tr s)"
  unfolding links_def by (erule tr_modify, simp only: node_of_links)+

lemma node_of_nlookup: "node_of (i\<lparr>m_nlookup := n\<rparr>) = (node_of i)\<lparr>n_lookups := n\<rparr>"
  by (simp add: node_of_def GetMode_def file_data_def dir_lookup_def m_children_def Size_def split: inode_obj.splits)

lemma node_of_xattr [simp]: "node_of (i\<lparr>m_xattr := x\<rparr>) = node_of i"
  by (simp add: node_of_def GetMode_def file_data_def dir_lookup_def m_children_def Size_def split: inode_obj.splits)

lemma tr_put:
  assumes "GetInode k s = Some i" shows "tr (put_inode k j s) = (tr s)(k \<mapsto> node_of j)"
  by (rule tr_touched [OF touches_put_inode])
    (use assms in \<open>simp add: GetInode_put_inode GetInode_Some\<close>)

lemma tr_same_put:
  assumes "GetInode k s = Some i" "node_of j = node_of i" shows "tr (put_inode k j s) = tr s"
  using tr_put [OF assms(1), of j] assms by (simp add: fun_upd_idem tr_GetInode)

section \<open>Handlers that look an object up\<close>

lemma on_alive_tr:
  "on_alive i P rs (tr s) t' = (case live i s of None \<Rightarrow> refused ENOENT rs (tr s) t' | Some x \<Rightarrow> P (node_of x))"
  by (simp add: on_alive_def alive_tr split: option.splits)

lemma on_dir_tr:
  "on_dir i P rs (tr s) t' = (case live i s of None \<Rightarrow> refused ENOENT rs (tr s) t'
     | Some x \<Rightarrow> if is_Directory x then P (node_of x) else refused ENOTDIR rs (tr s) t')"
  by (simp add: on_dir_def on_alive_tr split: option.splits)

lemma content_node_of:
  "n_content (node_of i) =
     (case m_obj i of
        File _ \<Rightarrow> Bytes (file_data i)
      | Directory _ \<Rightarrow> Entries (dir_lookup i)
      | SymLink l \<Rightarrow> Target l
      | SpecialInode ty \<Rightarrow> Device ty)"
  by (simp add: node_of_def)

lemmas lookup_simps = on_alive_tr on_dir_tr refused_def fuse_reply_err_def INO_NOTFOUND_def

lemma reply_entry_out:
  assumes ok: "fs_ok s"
  shows "reply_entry i s = Some (rs, s') \<Longrightarrow> hands_out ReplyEntry i rs (tr s) (tr s')"
    "reply_create i s = Some (rs, s') \<Longrightarrow> hands_out ReplyCreate i rs (tr s) (tr s')"
proof -
  have d: "describes i (node_of x) (i_attr x)" if "GetInode i s = Some x" for x
    by (rule describes_node [OF fs_ok_inode [OF ok that]])
  have "tr (put_inode i (x\<lparr>m_nlookup := m_nlookup x + 1\<rparr>) s) = looked_up i (tr s)" if "GetInode i s = Some x" for x
    using tr_put [OF that] that by (simp add: looked_up_def at_def tr_GetInode node_of_nlookup)
  with d show "reply_entry i s = Some (rs, s') \<Longrightarrow> hands_out ReplyEntry i rs (tr s) (tr s')"
    "reply_create i s = Some (rs, s') \<Longrightarrow> hands_out ReplyCreate i rs (tr s) (tr s')"
    by (auto simp: hands_out_def reply_entry_def reply_create_def Inode_ReplyEntry_def
        Inode_ReplyCreate_def tr_GetInode split: Option.bind_splits)
qed

lemma FuseLookup_spec:
  assumes "fs_ok s" "FuseLookup p name s = Some (rs, s')"
  shows "spec (Req_Lookup p name) rs (tr s) (tr s')"
  using assms reply_entry_out(1) [OF assms(1)]
  by (auto simp: FuseLookup_def lookup_simps alive_tr Let_def split: option.splits if_splits)

lemma FuseGetAttr_spec:
  assumes "fs_ok s" "FuseGetAttr i s = Some (rs, s')"
  shows "spec (Req_GetAttr i) rs (tr s) (tr s')"
  using assms describes_node fs_ok_inode [OF assms(1)] liveD [of i s]
  by (auto simp: FuseGetAttr_def lookup_simps Inode_ReplyAttr_def split: option.splits)

lemma Fuse_open_spec:
  "FuseOpen i s = Some (rs, s') \<Longrightarrow> spec (Req_Open i) rs (tr s) (tr s')"
  "FuseRelease i s = Some (rs, s') \<Longrightarrow> spec (Req_Release i) rs (tr s) (tr s')"
  "FuseOpenDir i s = Some (rs, s') \<Longrightarrow> spec (Req_OpenDir i) rs (tr s) (tr s')"
  "FuseReleaseDir i s = Some (rs, s') \<Longrightarrow> spec (Req_ReleaseDir i) rs (tr s) (tr s')"
  "FuseFlush i s = Some (rs, s') \<Longrightarrow> spec (Req_Flush i) rs (tr s) (tr s')"
  "FuseFsync i s = Some (rs, s') \<Longrightarrow> spec (Req_Fsync i) rs (tr s) (tr s')"
  "FuseFsyncDir i s = Some (rs, s') \<Longrightarrow> spec (Req_FsyncDir i) rs (tr s) (tr s')"
  "FuseGetLock i s = Some (rs, s') \<Longrightarrow> spec (Req_GetLock i) rs (tr s) (tr s')"
  "FuseStatfs s = Some (rs, s') \<Longrightarrow> spec Req_Statfs rs (tr s) (tr s')"
  by (auto simp: FuseOpen_def FuseRelease_def FuseOpenDir_def FuseReleaseDir_def FuseFlush_def FuseFsync_def
      FuseFsyncDir_def FuseGetLock_def FuseStatfs_def lookup_simps tr_GetInode split: option.splits if_splits)

lemma FuseAccess_spec:
  "FuseAccess c i m s = Some (rs, s') \<Longrightarrow> spec (Req_Access c i m) rs (tr s) (tr s')"
  by (auto simp: FuseAccess_def lookup_simps Inode_ReplyAccess_def Let_def GetMode_def split: option.splits if_splits)

lemma FuseReadLink_spec:
  "FuseReadLink i s = Some (rs, s') \<Longrightarrow> spec (Req_ReadLink i) rs (tr s) (tr s')"
  by (auto simp: FuseReadLink_def lookup_simps content_node_of is_kind_simps m_link_def
      split: option.splits if_splits inode_obj.splits)

lemma FuseXAttr_spec:
  "FuseGetXAttr i name z s = Some (rs, s') \<Longrightarrow> spec (Req_GetXAttr i name z) rs (tr s) (tr s')"
  "FuseListXAttr e i z s = Some (rs, s') \<Longrightarrow> spec (Req_ListXAttr i z) rs (tr s) (tr s')"
  by (auto simp: FuseGetXAttr_def FuseListXAttr_def lookup_simps Inode_GetXAttrAndReply_def Inode_ListXAttrAndReply_def
      Let_def split: option.splits if_splits Option.bind_splits)

lemma FuseRemoveXAttr_spec:
  "FuseRemoveXAttr i name s = Some (rs, s') \<Longrightarrow> spec (Req_RemoveXAttr i name) rs (tr s) (tr s')"
  using tr_same_put liveD [of i s]
  by (auto simp: FuseRemoveXAttr_def lookup_simps Inode_RemoveXAttrAndReply_def split: option.splits)

lemma SetXAttr_outcome:
  assumes "Inode_SetXAttrAndReply e name v f pos (h, i) = Some (r, h', j)"
  shows "node_of j = node_of i \<and> r \<in> {ReplyErr 0, ReplyErr EEXIST, ReplyErr ENODATA, ReplyErr E2BIG}"
  using assms
  by (auto simp: Inode_SetXAttrAndReply_def Let_def split: if_splits option.splits Option.bind_splits prod.splits)

lemma FuseSetXAttr_spec:
  assumes "FuseSetXAttr e i name v f s = Some (rs, s')"
  shows "spec (Req_SetXAttr i name v f) rs (tr s) (tr s')"
proof (cases "live i s")
  case None
  with assms show ?thesis by (simp add: FuseSetXAttr_def lookup_simps)
next
  case (Some x)
  then obtain r h j where "Inode_SetXAttrAndReply e name v f 0 (xheap s, x) = Some (r, h, j)"
    "rs = [r]" "s' = (put_inode i j s)\<lparr>xheap := h\<rparr>"
    using assms by (auto simp: FuseSetXAttr_def split: Option.bind_splits)
  with SetXAttr_outcome tr_same_put [of i s x j] liveD [OF Some] Some show ?thesis
    by (auto simp: lookup_simps)
qed

lemma FuseReadDir_spec:
  assumes "FuseReadDir e rand dsz i z off s = Some (rs, s')"
  shows "spec (Req_ReadDir i z off) rs (tr s) (tr s')"
  using assms
  by (auto simp: FuseReadDir_def lookup_simps PrepareReaddir_def RecycleStates_def put_ctx_def Let_def
      split: option.splits if_splits Option.bind_splits sum.splits)

section \<open>Forgetting, attributes and data\<close>

lemma tr_Delete:
  assumes "GetInode i s = Some x"
  shows "tr ((DeleteInode i s)\<lparr>m_stbuf := sb\<rparr>) = (tr s)(i := None)"
  using assms by (auto simp: fun_eq_iff tree_of_def DeleteInode_def nth_list_update GetInode_Some word_unat_eq_iff)

lemma FuseForget_spec:
  assumes "FuseForget i k s = Some (rs, s')"
  shows "spec (Req_Forget i k) rs (tr s) (tr s')"
proof (cases "GetInode i s")
  case None
  with assms show ?thesis by (simp add: FuseForget_def tr_GetInode)
next
  case (Some x)
  with assms tr_Delete [OF Some] tr_put [OF Some] show ?thesis
    by (auto simp: FuseForget_def Inode_Forget_def Let_def tr_GetInode Forgotten_def HasNoLinks_def node_of_nlookup
        DeleteInode_def split: if_splits)
qed

lemma node_of_file:
  assumes "file_ok i" "file_ok j" "same_identity i j"
  shows "node_of j = (node_of i)\<lparr>n_content := Bytes (file_data j)\<rparr>"
proof -
  from assms(1,2) obtain b c where "m_obj i = File b" "m_obj j = File c" by (auto elim!: file_okE)
  with assms(3) show ?thesis by (auto simp: node_of_def same_identity_def GetMode_def)
qed

lemma truncate_outcome:
  assumes ok: "file_ok i" and bound: "unat n < 2 ^ 63" and run: "File_FileTruncate e n (sb, i) = Some (r, sb', j)"
  shows "r \<in> {- ENOSPC, EINVAL} \<and> j = i \<or>
    r = 0 \<and> file_ok j \<and> same_identity i j \<and> file_data j = spec_truncate (unat n) (file_data i)"
proof -
  let ?room = "blocks_for (unat n) = blocks_for (unat (Size i)) \<or> blocks_for (unat n) = 0 \<or>
      env_alloc e (of_nat (512 * blocks_for (unat n)))"
  consider "\<not> CheckHasSpaceFor (Some (usage_of i)) (n - Size i) sb"
    | "CheckHasSpaceFor (Some (usage_of i)) (n - Size i) sb" "\<not> ?room"
    | "CheckHasSpaceFor (Some (usage_of i)) (n - Size i) sb" ?room by blast
  then show ?thesis
  proof cases
    case 1
    with run file_truncate_no_space [OF ok] show ?thesis by simp
  next
    case 2
    with run file_truncate_fails [OF ok bound] show ?thesis by simp
  next
    case 3
    with ok bound obtain sb1 i1 where "File_FileTruncate e n (sb, i) = Some (0, sb1, i1)" "file_ok i1"
      "file_data i1 = spec_truncate (unat n) (file_data i)" "same_identity i i1"
      by (rule file_truncate_ok)
    with run show ?thesis by simp
  qed
qed

lemma write_outcome:
  assumes ok: "file_ok i" and bound: "unat off + length d < 2 ^ 63"
    and run: "File_WriteAndReply e d off (sb, i) = Some (r, sb', j)"
  shows "r \<in> {ReplyErr ENOSPC, ReplyWrite 0} \<and> j = i \<or>
    r = ReplyWrite (of_nat (length d)) \<and> file_ok j \<and> same_identity i j \<and>
    file_data j = spec_write (unat off) d (file_data i)"
proof -
  let ?in = "unat off + length d \<le> 512 * blocks_for (unat (Size i))"
  let ?space = "CheckHasSpaceFor (Some (usage_of i)) (off + of_nat (length d) - Size i) sb"
  let ?mem = "env_alloc e (of_nat (512 * blocks_for (unat off + length d)))"
  consider "?in \<or> ?space \<and> ?mem" | "\<not> ?in" "\<not> ?space" | "\<not> ?in" ?space "\<not> ?mem" by blast
  then show ?thesis
  proof cases
    case 1
    with ok bound obtain sb1 i1 where "File_WriteAndReply e d off (sb, i) = Some (ReplyWrite (of_nat (length d)), sb1, i1)"
      "file_ok i1" "file_data i1 = spec_write (unat off) d (file_data i)" "same_identity i i1"
      by (rule file_write_ok)
    with run show ?thesis by simp
  next
    case 2
    with run file_write_error [OF ok bound] show ?thesis by simp
  next
    case 3
    with run file_write_no_memory [OF ok bound] show ?thesis by simp
  qed
qed

text \<open>The two file operations that run inside the table.\<close>

lemma tr_on_file:
  assumes i: "GetInode k s = Some i" and run: "on_inode k f s = Some (r, s')"
  obtains sb j where "f (m_stbuf s, i) = Some (r, sb, j)" "tr s' = (tr s)(k \<mapsto> node_of j)"
    "GetInode k s' = Some j"
proof -
  from i run obtain sb j where j: "f (m_stbuf s, i) = Some (r, sb, j)" "s' = (put_inode k j s)\<lparr>m_stbuf := sb\<rparr>"
    by (auto elim!: on_inodeE)
  show ?thesis
    by (rule that [OF j(1)]) (use tr_put [OF i] modify_inode_run(2) [OF i, of "\<lambda>_. j"] in \<open>simp_all add: j(2)\<close>)
qed

lemma FuseWrite_spec:
  assumes ok: "fs_ok s" and bound: "\<And>d. buf = Some d \<Longrightarrow> unat off + length d < 2 ^ 63"
    and run: "FuseWrite e i buf off s = Some (rs, s')"
  shows "spec (Req_Write i buf off) rs (tr s) (tr s')"
proof (cases "buf = None \<or> live i s = None")
  case True
  with run show ?thesis by (cases buf) (auto simp: FuseWrite_def lookup_simps)
next
  case False
  then obtain d x where d: "buf = Some d" and x: "live i s = Some x" by auto
  then have g: "GetInode i s = Some x" using liveD by blast
  from run d x obtain r where r: "on_inode i (WriteAndReply e d off) s = Some (r, s')" "rs = [r]"
    by (auto simp: FuseWrite_def split: Option.bind_splits)
  obtain sb j where j: "WriteAndReply e d off (m_stbuf s, x) = Some (r, sb, j)" "tr s' = (tr s)(i \<mapsto> node_of j)"
    by (rule tr_on_file [OF g r(1)])
  have same: "(tr s)(i \<mapsto> node_of x) = tr s" using g by (simp add: fun_upd_idem tr_GetInode)
  show ?thesis
  proof (cases "is_File x")
    case True
    note f = inode_ok_file [OF fs_ok_inode(1) [OF ok g] True]
    have "File_WriteAndReply e d off (m_stbuf s, x) = Some (r, sb, j)"
      using j(1) True by (auto simp: WriteAndReply_def is_kind_simps)
    from write_outcome [OF f bound [OF d] this] node_of_file [OF f, of j] True d x j(2) r(2) same
    show ?thesis by (auto simp: lookup_simps content_node_of is_kind_simps)
  next
    case False
    then have "j = x" and "r = (case m_obj x of SpecialInode _ \<Rightarrow> ReplyErr ENOENT | _ \<Rightarrow> ReplyErr EISDIR)"
      using j(1) by (auto simp: WriteAndReply_def is_kind_simps Directory_WriteAndReply_def
          SymLink_WriteAndReply_def SpecialInode_WriteAndReply_def split: inode_obj.splits)
    with False d x j(2) r(2) same show ?thesis
      by (auto simp: lookup_simps content_node_of is_kind_simps split: inode_obj.splits)
  qed
qed

lemma FuseRead_spec:
  assumes ok: "fs_ok s" and bound: "unat off + unat z < 2 ^ 63" and run: "FuseRead e i z off s = Some (rs, s')"
  shows "spec (Req_Read i z off) rs (tr s) (tr s')"
proof (cases "live i s")
  case None
  with run show ?thesis by (simp add: FuseRead_def lookup_simps)
next
  case (Some x)
  then have g: "GetInode i s = Some x" using liveD by blast
  from run Some obtain r j where r: "ReadAndReply e z off x = Some (r, j)" "rs = [r]" "s' = put_inode i j s"
    by (auto simp: FuseRead_def split: Option.bind_splits)
  show ?thesis
  proof (cases "is_File x")
    case True
    note f = inode_ok_file [OF fs_ok_inode(1) [OF ok g] True]
    have "File_ReadAndReply e z off x = Some (r, j)" using r(1) True by (auto simp: ReadAndReply_def is_kind_simps)
    with file_read_ok [OF f bound, of e] have j: "r = ReplyBuf (spec_read (unat off) (unat z) (file_data x))"
      "file_ok j" "file_data j = file_data x" "same_identity x j" by auto
    have "node_of j = node_of x"
      using node_of_file [OF f j(2,4)] j(3) True by (auto simp: is_kind_simps node_of_def)
    with tr_same_put [OF g] Some True j(1) r(2,3) show ?thesis
      by (auto simp: lookup_simps content_node_of is_kind_simps)
  next
    case False
    then have "j = x" and "r = (case m_obj x of SpecialInode _ \<Rightarrow> ReplyErr ENOENT | _ \<Rightarrow> ReplyErr EISDIR)"
      using r(1) by (auto simp: ReadAndReply_def is_kind_simps Directory_ReadAndReply_def
          SymLink_ReadAndReply_def SpecialInode_ReadAndReply_def split: inode_obj.splits)
    with False Some r(2,3) tr_same_put [OF g refl] show ?thesis
      by (auto simp: lookup_simps content_node_of is_kind_simps split: inode_obj.splits)
  qed
qed

lemma FuseSetAttr_spec:
  assumes ok: "fs_ok s" and k: "kernel_ok (Req_SetAttr i a f) s" and run: "FuseSetAttr e i a f s = Some (rs, s')"
  shows "spec (Req_SetAttr i a f) rs (tr s) (tr s')"
proof (cases "live i s")
  case None
  with run show ?thesis by (simp add: FuseSetAttr_def lookup_simps)
next
  case (Some x)
  then have g: "GetInode i s = Some x" using liveD by blast
  note xok = fs_ok_inode [OF ok g]
  show ?thesis
  proof (cases "flag_set f FUSE_SET_ATTR_SIZE")
    case False
    let ?j = "snd (Inode_ReplySetAttr e a f x)"
    have j: "inode_ok ?j" "GetIno ?j = i" using set_attr_keeps [of f a x e] False k g xok by (auto simp: kernel_ok_def)
    have "node_of ?j = (if flag_set f FUSE_SET_ATTR_MODE then (node_of x)\<lparr>n_mode := st_mode a\<rparr> else node_of x)"
      using False by (simp add: Inode_ReplySetAttr_def Let_def node_of_upd_attr GetMode_def)
    moreover have "rs = [ReplyAttr (i_attr ?j)]" "tr s' = (tr s)(i \<mapsto> node_of ?j)"
      using run Some False tr_put [OF g] by (auto simp: FuseSetAttr_def Inode_ReplySetAttr_def Let_def)
    ultimately show ?thesis using Some False describes_node [OF j] by (simp add: lookup_simps)
  next
    case size: True
    show ?thesis
    proof (cases "is_File x")
      case False
      with run Some size inode_ok_mode_dir [OF xok(1)] show ?thesis
        by (auto simp: FuseSetAttr_def lookup_simps content_node_of is_kind_simps split: inode_obj.splits if_splits)
    next
      case True
      note f = inode_ok_file [OF xok(1) True]
      from run Some size True obtain r t where t: "on_inode i (File_FileTruncate e (st_size a)) s = Some (r, t)"
        by (auto simp: FuseSetAttr_def split: Option.bind_splits)
      obtain sb j where j: "File_FileTruncate e (st_size a) (m_stbuf s, x) = Some (r, sb, j)"
        "tr t = (tr s)(i \<mapsto> node_of j)" "GetInode i t = Some j" by (rule tr_on_file [OF g t])
      have out: "if r = 0 then rs = [ReplyAttr (i_attr j)] \<and> s' = t else rs = [ReplyErr r] \<and> s' = t"
        using run Some size True t j(3) by (auto simp: FuseSetAttr_def Inode_ReplyAttr_def fuse_reply_err_def split: if_splits)
      have "unat (st_size a) < 2 ^ 63" using k size by (simp add: kernel_ok_def)
      from truncate_outcome [OF f this j(1)] show ?thesis
      proof (elim disjE conjE)
        assume "r \<in> {- ENOSPC, EINVAL}" "j = x"
        with out j(2) g Some size True show ?thesis
          by (auto simp: lookup_simps content_node_of is_kind_simps fun_upd_idem tr_GetInode)
      next
        assume r: "r = 0" "file_ok j" "same_identity x j" "file_data j = spec_truncate (unat (st_size a)) (file_data x)"
        have "inode_ok j" "GetIno j = i" using file_ok_keeps [OF xok(1) f r(2,3)] xok(2) by simp_all
        from describes_node [OF this] node_of_file [OF f r(2,3)] out r(1,4) j(2) Some size True show ?thesis
          by (auto simp: lookup_simps content_node_of is_kind_simps)
      qed
    qed
  qed
qed

section \<open>Creating and linking\<close>

lemma new_content_payload:
  "new_payload p i mode link (m_obj j) \<Longrightarrow> new_content p i mode link = Some (n_content (node_of j))"
  unfolding new_payload_def new_content_def content_node_of
  apply (split if_split_asm, simp add: file_data_def)
  apply (split if_split_asm, simp add: dir_lookup_def m_children_def)
  apply (split if_split_asm, simp)+
  apply auto
  done

lemma created_tree:
  assumes "created p name mode link i 0 s s'" and d: "GetInode p s = Some d" "is_Directory d"
  obtains c where "tr s i = None" "n_entries (node_of d) name = None" "new_content p i mode link = Some c"
    "tr s' = (links p (\<lambda>l. l + (if S_ISDIR mode then 1 else 0)) (bind_name p name i (tr s)))
       (i \<mapsto> \<lparr>n_content = c, n_mode = mode, n_links = (if S_ISDIR mode then 2 else 1), n_lookups = 0\<rparr>)"
proof -
  from assms(1) obtain j d' where c: "GetInode i s = None" "p \<noteq> i" "touches {i, p} s s'"
    "GetInode i s' = Some j" "GetInode p s' = Some d'" "GetMode j = mode" "m_nlookup j = 0"
    "new_payload p i mode link (m_obj j)" "st_nlink (i_attr j) = (if S_ISDIR mode then 2 else 1)"
    "dir_lookup d name = None" "dir_lookup d' = (dir_lookup d)(name \<mapsto> i)"
    "st_nlink (i_attr d') = st_nlink (i_attr d) + (if S_ISDIR mode then 1 else 0)" "m_nlookup d' = m_nlookup d"
    "GetMode d' = GetMode d"
    using d(1) by (auto simp: created_def domIff)
  have "is_Directory d'" by (rule dir_lookup_dir [of d' name i]) (simp add: c)
  then have p: "node_of d' = (on_entries (\<lambda>m. m(name \<mapsto> i)) (node_of d))
      \<lparr>n_links := n_links (node_of d) + (if S_ISDIR mode then 1 else 0)\<rparr>"
    using c d(2) by (auto simp: node_of_def on_entries_def is_kind_simps)
  have j: "node_of j = \<lparr>n_content = n_content (node_of j), n_mode = mode,
      n_links = (if S_ISDIR mode then 2 else 1), n_lookups = 0\<rparr>" using c by (simp add: node_of_def)
  have links_on: "n_links (on_entries g n) = n_links n" for g n by (simp add: on_entries_def split: content.splits)
  have "tr s' k = ((links p (\<lambda>l. l + (if S_ISDIR mode then 1 else 0)) (bind_name p name i (tr s)))
       (i \<mapsto> \<lparr>n_content = n_content (node_of j), n_mode = mode,
          n_links = (if S_ISDIR mode then 2 else 1), n_lookups = 0\<rparr>)) k" for k
    using c(2,4,5) d(1) p j touchesD(1) [OF c(3), of k]
    by (cases "k = i"; cases "k = p") (simp_all add: tr_GetInode links_def bind_name_def at_def links_on)
  then show ?thesis using that [of "n_content (node_of j)"] c new_content_payload [OF c(8)]
    by (simp add: tr_GetInode fun_eq_iff)
qed

lemma create_node_makes:
  assumes ok: "fs_ok s" and fits: "entry_fits p name s" and d: "live p s = Some d" "is_Directory d"
    and null: "GetInode 0 s \<noteq> None" and run: "do_create_node e ctx p name mode dev link s = Some (r, s1)"
  shows "(if r > 0 then reply_entry (word_of_int r) s1 else fuse_reply_err (- r) s1) = Some (rs, s') \<Longrightarrow>
      makes ReplyEntry p name mode link rs (tr s) (tr s')"
    "(if r > 0 then reply_create (word_of_int r) s1 else fuse_reply_err (- r) s1) = Some (rs, s') \<Longrightarrow>
      makes ReplyCreate p name mode link rs (tr s) (tr s')"
proof -
  have g: "GetInode p s = Some d" using d liveD by blast
  obtain r' t where "do_create_node e ctx p name mode dev link s = Some (r', t)" "fs_ok t"
    "- r' \<in> {EEXIST, EINVAL, ENOSPC} \<and> touches {} s t \<or>
     (\<exists>ino. unat ino < 2 ^ 63 \<and> r' = int (unat ino) \<and> created p name mode link ino 0 s t)"
    by (rule do_create_node_ok [OF ok g d(2) entry_fitsD [OF fits g], of e ctx mode dev link])
  with run have ok1: "fs_ok s1" and out: "- r \<in> {EEXIST, EINVAL, ENOSPC} \<and> touches {} s s1 \<or>
     (\<exists>ino. unat ino < 2 ^ 63 \<and> r = int (unat ino) \<and> created p name mode link ino 0 s s1)" by simp_all
  from out show "(if r > 0 then reply_entry (word_of_int r) s1 else fuse_reply_err (- r) s1) = Some (rs, s') \<Longrightarrow>
      makes ReplyEntry p name mode link rs (tr s) (tr s')"
    "(if r > 0 then reply_create (word_of_int r) s1 else fuse_reply_err (- r) s1) = Some (rs, s') \<Longrightarrow>
      makes ReplyCreate p name mode link rs (tr s) (tr s')"
  proof (atomize (full), elim disjE exE conjE, goal_cases)
    case 1
    then have "\<not> r > 0" by auto
    with 1 tr_untouched [of s s1] show ?case by (auto simp: fuse_reply_err_def makes_def refused_def)
  next
    case (2 i)
    obtain c where t: "tr s i = None" "n_entries (node_of d) name = None" "new_content p i mode link = Some c"
      "tr s1 = (links p (\<lambda>l. l + (if S_ISDIR mode then 1 else 0)) (bind_name p name i (tr s)))
       (i \<mapsto> \<lparr>n_content = c, n_mode = mode, n_links = (if S_ISDIR mode then 2 else 1), n_lookups = 0\<rparr>)"
      by (rule created_tree [OF 2(3) g d(2)])
    have "i \<noteq> 0" using t(1) null by (auto simp: tr_GetInode)
    then have "r > 0" using 2(2) by (metis of_nat_0_less_iff unat_gt_0)
    moreover have "word_of_int r = i" using 2(2) by simp
    moreover have "alive (tr s) p = Some (node_of d)" using d by (simp add: alive_tr)
    ultimately show ?case
      using reply_entry_out [OF ok1, of i rs s'] t \<open>i \<noteq> 0\<close> unfolding makes_def by auto
  qed
qed

lemma FuseMknod_spec:
  assumes "fs_ok s" "entry_fits p name s" "GetInode 0 s \<noteq> None" "FuseMknod e ctx p name mode dev s = Some (rs, s')"
  shows "spec (Req_Mknod ctx p name mode dev) rs (tr s) (tr s')"
  using assms(4) create_node_makes(1) [OF assms(1,2) _ _ assms(3)]
  by (auto simp: FuseMknod_def lookup_simps split: option.splits if_splits Option.bind_splits)

lemma FuseMkdir_spec:
  assumes "fs_ok s" "entry_fits p name s" "GetInode 0 s \<noteq> None" "FuseMkdir e ctx p name mode s = Some (rs, s')"
  shows "spec (Req_Mkdir ctx p name mode) rs (tr s) (tr s')"
  using assms(4) create_node_makes(1) [OF assms(1,2) _ _ assms(3)]
  by (auto simp: FuseMkdir_def lookup_simps split: option.splits if_splits Option.bind_splits)

lemma FuseCreate_spec:
  assumes "fs_ok s" "entry_fits p name s" "GetInode 0 s \<noteq> None" "FuseCreate e ctx p name mode s = Some (rs, s')"
  shows "spec (Req_Create ctx p name mode) rs (tr s) (tr s')"
  using assms(4) create_node_makes(2) [OF assms(1,2) _ _ assms(3)]
  by (auto simp: FuseCreate_def lookup_simps split: option.splits if_splits Option.bind_splits)

lemma FuseSymlink_spec:
  assumes ok: "fs_ok s" and fits: "entry_fits p name s" and null: "GetInode 0 s \<noteq> None"
    and run: "FuseSymlink e ctx link p name s = Some (rs, s')"
  shows "spec (Req_Symlink ctx link p name) rs (tr s) (tr s')"
proof (cases "live p s")
  case None
  with run show ?thesis by (simp add: FuseSymlink_def lookup_simps)
next
  case (Some d)
  show ?thesis
  proof (cases "is_Directory d")
    case False
    with run Some show ?thesis by (simp add: FuseSymlink_def lookup_simps)
  next
    case True
    let ?a = "\<not> CheckHasSpaceFor None (of_nat (min (length name) PATH_MAX)) (m_stbuf s)"
    let ?b = "GetFreeInodes (m_stbuf s) \<le> 0"
    let ?k = "(if ?a then 1 else 0) + (if ?b then 1 else 0) :: nat"
    obtain rs1 where rs: "rs = replicate ?k (ReplyErr ENOSPC) @ rs1"
      and tail: "(if ChildInodeNumberWithName name d \<noteq> INO_NOTFOUND then fuse_reply_err EEXIST s
                 else do {
                   (ino, s') \<leftarrow> do_create_node e ctx p name (0x1FF OR S_IFLNK) 0 (Some link) s;
                   if ino > 0 then reply_entry (word_of_int ino) s' else fuse_reply_err (- ino) s'
                 }) = Some (rs1, s')"
      using run Some True by (auto simp: FuseSymlink_def Let_def numeral_2_eq_2 split: if_splits Option.bind_splits)
    have "if number (node_of d) name \<noteq> 0 then refused EEXIST rs1 (tr s) (tr s')
        else makes ReplyEntry p name (0x1FF OR S_IFLNK) (Some link) rs1 (tr s) (tr s')"
      using tail create_node_makes(1) [OF ok fits Some True null]
      by (auto simp: lookup_simps split: if_splits Option.bind_splits)
    moreover have "?k \<le> 2" by simp
    ultimately show ?thesis using Some True rs by (simp only: spec.simps on_dir_tr option.case if_True) blast
  qed
qed

lemma links_keep_ok:
  "fs_ok s \<Longrightarrow> modify_inode k IncrementLinkCount s = Some s' \<Longrightarrow> fs_ok s'"
  "fs_ok s \<Longrightarrow> modify_inode k DecrementLinkCount s = Some s' \<Longrightarrow> fs_ok s'"
  by (erule (1) fs_ok_modify_inode, simp add: link_count_keeps)+

lemma FuseLink_spec:
  assumes ok: "fs_ok s" and fits: "entry_fits p name s" and run: "FuseLink i p name s = Some (rs, s')"
  shows "spec (Req_Link i p name) rs (tr s) (tr s')"
proof (cases "live i s = None \<or> live p s = None")
  case True
  with run show ?thesis by (auto simp: FuseLink_def lookup_simps split: option.splits)
next
  case False
  then obtain x d where l: "live i s = Some x" "live p s = Some d" by auto
  then have g: "GetInode p s = Some d" using liveD by blast
  show ?thesis
  proof (cases "is_Directory d \<and> ChildInodeNumberWithName name d = INO_NOTFOUND")
    case False
    with run l show ?thesis by (auto simp: FuseLink_def lookup_simps split: if_splits)
  next
    case True
    with run l obtain r s1 where a: "on_inode p (AddChild name i) s = Some (r, s1)"
      and rest: "(if r < 0 then fuse_reply_err (- r) s1
        else do { s2 \<leftarrow> modify_inode i IncrementLinkCount s1; reply_entry i s2 }) = Some (rs, s')"
      by (auto simp: FuseLink_def split: Option.bind_splits)
    note add = tr_AddChild [OF ok g conjunct1 [OF True] fits a]
    from add(3) show ?thesis
    proof (elim disjE conjE)
      assume "- r \<in> {EEXIST, ENOSPC}" "tr s1 = tr s"
      moreover from this have "r < 0" by auto
      ultimately show ?thesis using rest l True by (auto simp: lookup_simps)
    next
      assume r: "r = 0" "dir_lookup d name = None" "tr s1 = bind_name p name i (tr s)"
      with rest obtain s2 where m: "modify_inode i IncrementLinkCount s1 = Some s2" "reply_entry i s2 = Some (rs, s')"
        by (auto split: Option.bind_splits)
      from reply_entry_out(1) [OF links_keep_ok(1) [OF add(1) m(1)] m(2)] tr_links(1) [OF m(1)] r l True
      show ?thesis by (simp add: lookup_simps)
    qed
  qed
qed

section \<open>Removing\<close>

lemma FuseUnlink_spec:
  assumes ok: "fs_ok s" and run: "FuseUnlink e p name s = Some (rs, s')"
  shows "spec (Req_Unlink p name) rs (tr s) (tr s')"
proof (cases "\<exists>d. live p s = Some d \<and> is_Directory d \<and> ChildInodeNumberWithName name d \<noteq> INO_NOTFOUND")
  case False
  with run show ?thesis by (auto simp: FuseUnlink_def lookup_simps Let_def split: option.splits if_splits)
next
  case True
  then obtain d where d: "live p s = Some d" "is_Directory d" "ChildInodeNumberWithName name d \<noteq> INO_NOTFOUND" by blast
  then have g: "GetInode p s = Some d" using liveD by blast
  from run d obtain r s1 s2 where a: "on_inode p (RemoveChild e name) s = Some (r, s1)"
    "modify_inode (ChildInodeNumberWithName name d) DecrementLinkCount s1 = Some s2" "rs = [ReplyErr 0]" "s' = s2"
    by (auto simp: FuseUnlink_def Let_def fuse_reply_err_def split: Option.bind_splits)
  from tr_RemoveChild(3) [OF ok g d(2) a(1)] tr_links(2) [OF a(2)] a(3,4) d show ?thesis
    by (simp add: lookup_simps Let_def)
qed

lemma node_of_drop: "node_of (drop_links i) = (node_of i)\<lparr>n_links := no_links (n_links (node_of i))\<rparr>"
proof (induction i rule: drop_links.induct)
  case (1 i)
  let ?l = "st_nlink (i_attr i)" and ?n = "ucast (st_nlink (i_attr i)) :: u32"
  show ?case
  proof (cases "NumLinks i > 0")
    case False
    then show ?thesis by (subst drop_links.simps) (simp add: no_links_def link_number_def NumLinks_def)
  next
    case True
    then have pos: "sint ?n > 0" by (simp add: NumLinks_def)
    then have n: "?n \<noteq> 0" by auto
    have m: "link_number (?l - 1) = link_number ?l - 1" using sint_minus_1 [OF pos] by (simp add: link_number_def ucast_minus_1)
    have "no_links (?l - 1) = no_links ?l"
    proof (cases "link_number ?l = 1")
      case True
      then have "?n = 1" by (intro signed_word_eqI) (simp add: link_number_def)
      with True m show ?thesis by (simp add: no_links_def)
    next
      case False
      with m pos show ?thesis
        by (simp add: no_links_def ucast_minus_1 ucast_up_minus_1 [OF n] link_number_def)
    qed
    with 1 [OF True] True show ?thesis
      by (subst drop_links.simps) (simp add: node_of_links)
  qed
qed

lemma FuseRmdir_spec:
  assumes ok: "fs_ok s" and run: "FuseRmdir e p name s = Some (rs, s')"
  shows "spec (Req_Rmdir p name) rs (tr s) (tr s')"
proof (cases "live p s")
  case None
  with run show ?thesis by (simp add: FuseRmdir_def lookup_simps)
next
  case (Some d)
  then have g: "GetInode p s = Some d" using liveD by blast
  let ?i = "ChildInodeNumberWithName name d"
  show ?thesis
  proof (cases "is_Directory d \<and> ?i \<noteq> INO_NOTFOUND \<and> ?i \<noteq> p \<and> (\<exists>x. live ?i s = Some x \<and> is_Directory x)")
    case False
    with run Some show ?thesis
      by (auto simp: FuseRmdir_def lookup_simps Let_def split: option.splits if_splits)
  next
    case True
    then obtain x where x: "live ?i s = Some x" "is_Directory x" by blast
    then have "dir_ok x" using inode_ok_dir [OF fs_ok_inode(1) [OF ok]] liveD by blast
    note empty = no_entries_node [OF this, of s]
    show ?thesis
    proof (cases "Directory_IsEmpty (\<lambda>k. GetInode k s) x")
      case False
      with run Some True x empty show ?thesis by (auto simp: FuseRmdir_def lookup_simps Let_def)
    next
      case e: True
      with run Some True x obtain r s1 s2 where a: "on_inode p (RemoveChild e name) s = Some (r, s1)"
        "modify_inode p DecrementLinkCount s1 = Some s2" "modify_inode ?i drop_links s2 = Some s'" "rs = [ReplyErr 0]"
        by (auto simp: FuseRmdir_def Let_def fuse_reply_err_def split: Option.bind_splits)
      have "tr s' = links ?i no_links (tr s2)"
        unfolding links_def by (rule tr_modify [OF a(3)]) (simp only: node_of_drop)
      with tr_RemoveChild(3) [OF ok g conjunct1 [OF True] a(1)] tr_links(2) [OF a(2)] a(4) Some True x e empty
      show ?thesis by (simp add: lookup_simps Let_def)
    qed
  qed
qed

section \<open>Renaming\<close>

lemma rename_replace_spec:
  assumes ok: "fs_ok s" and p: "GetInode p s = Some d" "is_Directory d"
    and p': "GetInode p' s = Some d'" "is_Directory d'" and x: "GetInode j s = Some x" and n: "GetInode i s = Some n"
    and run: "rename_replace e p name p' name' i n j x s = Some (rs, s')"
  shows "replaces p name p' name' i (node_of n) j (node_of x) rs (tr s) (tr s')"
proof -
  note dirs = inode_ok_mode_dir [OF fs_ok_inode(1) [OF ok x]] inode_ok_mode_dir [OF fs_ok_inode(1) [OF ok n]]
  have empty: "is_Directory x \<Longrightarrow> no_entries (tr s) (node_of x) = Directory_IsEmpty (\<lambda>k. GetInode k s) x"
    using no_entries_node [OF inode_ok_dir [OF fs_ok_inode(1) [OF ok x]]] .
  obtain s1 where 1: "modify_inode j DecrementLinkCount s = Some s1" "chain s s1"
    by (rule chain_link_count [OF chain_refl [OF ok] x])
  obtain s2 where 2: "modify_inode p' (\<lambda>d. snd (UpdateChild_nolock e name' i d)) s1 = Some s2" "chain s s2"
    by (rule chain_UpdateChild [OF 1(2) p'])
  obtain r s3 where 3: "on_inode p (RemoveChild_nolock e name) s2 = Some (r, s3)" "chain s s3"
    by (rule chain_RemoveChild [OF 2(2) p])
  obtain t1 where 4: "modify_inode j DecrementLinkCount s3 = Some t1" "chain s t1"
    by (rule chain_link_count [OF 3(2) x])
  obtain t2 where 5: "modify_inode j DecrementLinkCount t1 = Some t2" "chain s t2"
    by (rule chain_link_count [OF 4(2) x])
  obtain t3 where 6: "modify_inode p DecrementLinkCount t2 = Some t3" by (rule chain_link_count [OF 5(2) p(1)])
  have fok: "fs_ok s1" "fs_ok s2" using 1(2) 2(2) by (simp_all add: chain_def)
  obtain d1 where d1: "GetInode p' s1 = Some d1" "is_Directory d1" by (rule chain_dir [OF 1(2) p'])
  obtain d2 where d2: "GetInode p s2 = Some d2" "is_Directory d2" by (rule chain_dir [OF 2(2) p])
  have "on_inode p (RemoveChild e name) s2 = Some (r, s3)" using 3(1) by (simp add: RemoveChild_def [abs_def])
  from tr_RemoveChild(3) [OF fok(2) d2 this] tr_UpdateChild [OF fok(1) d1 2(1)] tr_links(2) [OF 1(1)]
  have s3: "tr s3 = unbind_name p name (rebind_name p' name' i (links j (\<lambda>l. l - 1) (tr s)))" by simp
  have "links j (\<lambda>l. l - 1) (links j (\<lambda>l. l - 1) t) = links j (\<lambda>l. l - 2) t" for t
    by (auto simp: links_def at_def fun_eq_iff option.map_comp comp_def diff_diff_eq)
  with tr_links(2) [OF 4(1)] tr_links(2) [OF 5(1)] tr_links(2) [OF 6]
  have t3: "tr t3 = links p (\<lambda>l. l - 1) (links j (\<lambda>l. l - 2) (tr s3))" by simp
  show ?thesis
    using run dirs empty 1(1) 2(1) 3(1) 4(1) 5(1) 6 s3 t3
    by (auto simp: rename_replace_def replaces_def lookup_simps Let_def split: if_splits)
qed

lemma rename_move_spec:
  assumes ok: "fs_ok s" and p: "GetInode p s = Some d" "is_Directory d"
    and p': "GetInode p' s = Some d'" "is_Directory d'" and fits: "entry_fits p' name' s" and n: "GetInode i s = Some n"
    and run: "rename_move e p name p' name' i n s = Some (rs, s')"
  shows "moves p name p' name' i (node_of n) rs (tr s) (tr s')"
proof -
  note dir = inode_ok_mode_dir [OF fs_ok_inode(1) [OF ok n]]
  obtain r1 s1 d1 where 1: "on_inode p' (AddChild name' i) s = Some (r1, s1)" "fs_ok s1"
    "GetInode p' s1 = Some d1" "touches {p'} s s1" "dir_step (m_stbuf s, d') (m_stbuf s1, d1)"
    by (rule on_inode_AddChild [OF ok p' entry_fitsD [OF fits p'(1)]])
  have c1: "chain s s1" by (rule chainI [OF 1(2,4) p'(1) 1(3)]) (use 1(5) p' in \<open>simp add: dir_step_def\<close>)
  obtain r s2 where 2: "on_inode p (RemoveChild_nolock e name) s1 = Some (r, s2)" "chain s s2"
    by (rule chain_RemoveChild [OF c1 p])
  obtain t1 where 3: "modify_inode p DecrementLinkCount s2 = Some t1" "chain s t1"
    by (rule chain_link_count [OF 2(2) p(1)])
  obtain t2 where 4: "modify_inode p' IncrementLinkCount t1 = Some t2" by (rule chain_link_count [OF 3(2) p'(1)])
  obtain e1 where e1: "GetInode p s1 = Some e1" "is_Directory e1" by (rule chain_dir [OF c1 p])
  have "on_inode p (RemoveChild e name) s1 = Some (r, s2)" using 2(1) by (simp add: RemoveChild_def [abs_def])
  note s2 = tr_RemoveChild(3) [OF 1(2) e1 this]
  note t2 = tr_links(1) [OF 4] tr_links(2) [OF 3(1)]
  have out: "rs = [ReplyErr 0]" "s' = (if is_Directory n then t2 else s2)"
    using run dir 1(1) 2(1) 3(1) 4
    by (auto simp: rename_move_def AddChild_def [abs_def] fuse_reply_err_def split: if_splits)
  obtain added where a: "added \<longrightarrow> dir_lookup d' name' = None"
    "tr s1 = (if added then bind_name p' name' i (tr s) else tr s)"
    using tr_AddChild(3) [OF ok p' fits 1(1)] that [of True] that [of False] by auto
  have "tr s' = (let u = unbind_name p name (if added then bind_name p' name' i (tr s) else tr s)
      in if is_Directory n then links p' (\<lambda>l. l + 1) (links p (\<lambda>l. l - 1) u) else u)"
    using out(2) s2 t2 a(2) by (simp add: Let_def)
  with out(1) a(1) p'(1) show ?thesis unfolding moves_def by (auto simp: tr_GetInode Let_def)
qed

lemma FuseRename_spec:
  assumes ok: "fs_ok s" and fits: "entry_fits p' name' s" and run: "FuseRename e p name p' name' s = Some (rs, s')"
  shows "spec (Req_Rename p name p' name') rs (tr s) (tr s')"
proof (cases "\<exists>d d'. live p s = Some d \<and> live p' s = Some d' \<and> is_Directory d \<and> is_Directory d'")
  case False
  with run show ?thesis
    by (auto simp: FuseRename_def lookup_simps split: option.splits if_splits)
next
  case True
  then obtain d d' where d: "live p s = Some d" "is_Directory d" and d': "live p' s = Some d'" "is_Directory d'" by blast
  then have g: "GetInode p s = Some d" "GetInode p' s = Some d'" using liveD by blast+
  let ?i = "ChildInodeNumberWithName name d" and ?j = "ChildInodeNumberWithName name' d'"
  show ?thesis
  proof (cases "live ?i s")
    case None
    with run d d' show ?thesis by (simp add: FuseRename_def lookup_simps Let_def)
  next
    case (Some n)
    then have n: "GetInode ?i s = Some n" using liveD by blast
    have num: "ChildInodeNumberWithName_nolock name' d' = ?j" by (simp add: ChildInodeNumberWithName_def)
    from run d d' Some num rename_replace_spec [OF ok g(1) d(2) g(2) d'(2) _ n, of ?j]
      rename_move_spec [OF ok g(1) d(2) g(2) d'(2) fits n]
    show ?thesis
      by (auto simp: FuseRename_def lookup_simps Let_def tr_GetInode link_number_def NumLinks_def
          split: option.splits if_splits)
  qed
qed

end
