(* ===== verification/Refinement_Props.thy ===== *)
theory Refinement_Props
  imports Fs_Refinement
begin

text \<open>
  The machine of the code and the abstract machine, side by side: a refinement mapping from one to
  the other, so that every sequence of requests and replies of the code is one of the specification.
\<close>

section \<open>Executions and refinement mappings\<close>

inductive exec :: "('s \<Rightarrow> 'r \<Rightarrow> 'o \<Rightarrow> 's \<Rightarrow> bool) \<Rightarrow> 's \<Rightarrow> ('r \<times> 'o) list \<Rightarrow> 's \<Rightarrow> bool" for R where
  exec_Nil: "exec R s [] s"
| exec_Cons: "R s r out s' \<Longrightarrow> exec R s' xs s'' \<Longrightarrow> exec R s ((r, out) # xs) s''"

inductive_simps exec_Nil_iff [simp]: "exec R s [] s'"
inductive_simps exec_Cons_iff: "exec R s (x # xs) s'"

locale refinement_map =
  fixes cinit :: "'s \<Rightarrow> bool" and cstep :: "'s \<Rightarrow> 'r \<Rightarrow> 'o \<Rightarrow> 's \<Rightarrow> bool"
    and ainit :: "'a \<Rightarrow> bool" and astep :: "'a \<Rightarrow> 'r \<Rightarrow> 'o \<Rightarrow> 'a \<Rightarrow> bool"
    and abs :: "'s \<Rightarrow> 'a" and inv :: "'s \<Rightarrow> bool"
  assumes init: "cinit s \<Longrightarrow> inv s \<and> ainit (abs s)"
    and step: "inv s \<Longrightarrow> cstep s r out s' \<Longrightarrow> inv s' \<and> astep (abs s) r out (abs s')"
begin

lemma exec_refines: "exec cstep s xs s' \<Longrightarrow> inv s \<Longrightarrow> inv s' \<and> exec astep (abs s) xs (abs s')"
  by (induction rule: exec.induct) (use step in \<open>blast intro: exec.intros\<close>)+

lemma traces_refine:
  assumes "cinit s" "exec cstep s xs s'"
  shows "ainit (abs s) \<and> exec astep (abs s) xs (abs s') \<and> inv s'"
  using init [OF assms(1)] exec_refines [OF assms(2)] by blast

end

section \<open>The null inode stays\<close>

text \<open>Number 0 is never handed out, so a reply of number 0 cannot be taken for an error.\<close>

definition null_kept :: "afs \<Rightarrow> bool" where
  "null_kept A \<longleftrightarrow> a_tree A 0 \<noteq> None \<and> (\<forall>k t. a_saved A k = Some t \<longrightarrow> t 0 \<noteq> None)"

lemma at_None [simp]: "at i g t k = None \<longleftrightarrow> t k = None"
  by (simp add: at_def)

lemma changes_None [simp]:
  "bind_name p name i t k = None \<longleftrightarrow> t k = None" "rebind_name p name i t k = None \<longleftrightarrow> t k = None"
  "unbind_name p name t k = None \<longleftrightarrow> t k = None" "links i f t k = None \<longleftrightarrow> t k = None"
  "looked_up i t k = None \<longleftrightarrow> t k = None"
  by (simp_all add: bind_name_def rebind_name_def unbind_name_def links_def looked_up_def)

lemma outcomes_None:
  "refused e rs t t' \<Longrightarrow> t' = t"
  "hands_out rep i rs t t' \<Longrightarrow> t' k = None \<longleftrightarrow> t k = None"
  "makes rep p name mode link rs t t' \<Longrightarrow> t k \<noteq> None \<Longrightarrow> t' k \<noteq> None"
  "replaces p name p' name' i n j x rs t t' \<Longrightarrow> t' k = None \<longleftrightarrow> t k = None"
  "moves p name p' name' i n rs t t' \<Longrightarrow> t' k = None \<longleftrightarrow> t k = None"
proof -
  show "refused e rs t t' \<Longrightarrow> t' = t" by (simp add: refused_def)
  show h: "hands_out rep i rs t t' \<Longrightarrow> t' k = None \<longleftrightarrow> t k = None" for t t' :: tree and i k
    by (auto simp: hands_out_def)
  show "makes rep p name mode link rs t t' \<Longrightarrow> t k \<noteq> None \<Longrightarrow> t' k \<noteq> None"
    unfolding makes_def by (auto simp: refused_def dest!: h [of _ _ _ k] split: if_splits)
  show "replaces p name p' name' i n j x rs t t' \<Longrightarrow> t' k = None \<longleftrightarrow> t k = None"
    by (auto simp: replaces_def refused_def Let_def split: if_splits)
  show "moves p name p' name' i n rs t t' \<Longrightarrow> t' k = None \<longleftrightarrow> t k = None"
    by (auto simp: moves_def Let_def split: if_splits)
qed

lemma spec_keeps_null:
  assumes "spec r rs t t'" "t 0 \<noteq> None" "\<And>i k. r = Req_Forget i k \<Longrightarrow> i \<noteq> 0"
  shows "t' 0 \<noteq> None"
proof (cases r)
  case (Req_Rename p name p' name')
  then have "t' = t \<or> (\<exists>i n j x. replaces p name p' name' i n j x rs t t') \<or> (\<exists>i n. moves p name p' name' i n rs t t')"
    using assms(1)
    by (simp add: on_alive_def refused_def Let_def split: option.split_asm if_split_asm) blast+
  with assms(2) outcomes_None(4,5) [where k = 0] show ?thesis by metis
qed (use assms in \<open>auto simp: on_dir_def on_alive_def Let_def simp del: not_None_eq not_Some_eq
  dest: outcomes_None(1) outcomes_None(2-5) [where k = 0] split: option.split_asm if_split_asm content.split_asm\<close>)

section \<open>The step of the machine\<close>

lemma handle_fs_spec:
  assumes ok: "fs_ok s" and k: "kernel_ok r s" and null: "GetInode 0 s \<noteq> None"
    and run: "handle_fs w r s = Some (rs, s')"
  shows "spec r rs (tr s) (tr s')"
proof (cases r)
  case (Req_Write i b off)
  have "spec (Req_Write i b off) rs (tr s) (tr s')"
    by (rule FuseWrite_spec [OF ok]) (use k run Req_Write in \<open>auto simp: kernel_ok_def\<close>)
  with Req_Write show ?thesis by simp
qed (use ok k null run in \<open>auto simp: kernel_ok_def simp del: spec.simps
  intro: FuseLookup_spec FuseForget_spec FuseGetAttr_spec FuseReadLink_spec FuseMknod_spec FuseMkdir_spec
    FuseUnlink_spec FuseRmdir_spec FuseSymlink_spec FuseRename_spec FuseLink_spec Fuse_open_spec FuseRead_spec
    FuseAccess_spec FuseCreate_spec FuseXAttr_spec FuseRemoveXAttr_spec FuseSetXAttr_spec FuseReadDir_spec
    FuseSetAttr_spec\<close>)

lemma checkpoint_spec:
  assumes ok: "fs_ok s" and run: "checkpoint e key s = Some (r, s')"
  shows "ioctl_spec VERIFS_CHECKPOINT key [if r = 0 then ReplyIoctl else ReplyErr (- r)] (abs_fs s) (abs_fs s')"
proof -
  from run obtain c where c: "copy_inodes e (Inodes s) = Some c" by (auto simp: checkpoint_def split: Option.bind_splits)
  have "c = Inr (Inodes s)" using copy_inodes_same [OF c] table_ok_member [OF fs_okD(1) [OF ok]] by blast
  with run c show ?thesis
    by (auto simp: checkpoint_def insert_state_def ioctl_spec_def abs_fs_def fun_eq_iff map_add_def
        split: option.splits)
qed

lemma restore_spec:
  assumes ok: "fs_ok s" and null: "null_kept (abs_fs s)" and run: "restore e key s = Some (r, ns, s')"
  shows "ioctl_spec VERIFS_RESTORE key [if r = 0 then ReplyIoctl else ReplyErr (- r)] (abs_fs s) (abs_fs s')"
proof (cases "map_of (state_pool s) key")
  case None
  with run restore_missing [of s key e] show ?thesis
    by (simp add: ioctl_spec_def abs_fs_def ioctl_codes)
next
  case (Some st)
  obtain tab dels sb where st: "st = (tab, dels, sb)" by (cases st)
  have snap: "snapshot_ok (tab, dels, sb)" using ok map_of_SomeD [OF Some] by (auto simp: fs_ok_def st)
  have "a_saved (abs_fs s) key = Some (tree_of tab)" using Some st by (simp add: abs_fs_def)
  then have "tree_of tab 0 \<noteq> None" using null by (simp add: null_kept_def)
  then have "tab \<noteq> []" by (auto simp: tree_of_def)
  with run Some copy_inodes_same [of e tab] table_ok_member [of tab] snap
  have "r = 0" "s' = s\<lparr>Inodes := tab, DeletedInodes := dels, m_stbuf := sb,
      state_pool := filter (\<lambda>x. fst x \<noteq> key) (state_pool s)\<rparr>"
    by (auto simp: restore_def find_state_def remove_state_def st snapshot_ok_def
        split: if_splits Option.bind_splits sum.splits)
  with Some st show ?thesis
    by (auto simp: ioctl_spec_def abs_fs_def ioctl_codes map_of_filter_fst fun_eq_iff)
qed

lemma FuseIoctl_spec:
  assumes ok: "fs_ok s" and null: "null_kept (abs_fs s)" and load: "c \<noteq> VERIFS_LOAD"
    and run: "FuseIoctl os e c key (s, d) = Some (rs, ns, s', d')"
  shows "ioctl_spec c key rs (abs_fs s) (abs_fs s')"
proof -
  consider (ck) r where "c = VERIFS_CHECKPOINT" "checkpoint e key s = Some (r, s')"
      "rs = [if r = 0 then ReplyIoctl else ReplyErr (- r)]"
    | (rs) r where "c = VERIFS_RESTORE" "restore e key s = Some (r, ns, s')"
      "rs = [if r = 0 then ReplyIoctl else ReplyErr (- r)]"
    | (pk) r where "c = VERIFS_PICKLE" "pickle_verifs2 os e s d = Some (r, s', d')"
      "rs = [if r = 0 then ReplyIoctl else ReplyErr (- r)]"
    | (other) "c \<notin> {VERIFS_CHECKPOINT, VERIFS_RESTORE, VERIFS_PICKLE}" "s' = s" "rs = [ReplyErr (- ENOSYS)]"
    using run load by (auto simp: FuseIoctl_def split: if_split_asm Option.bind_splits)
  then show ?thesis
  proof cases
    case ck
    with checkpoint_spec [OF ok ck(2)] show ?thesis by simp
  next
    case rs
    with restore_spec [OF ok null rs(2)] show ?thesis by simp
  next
    case pk
    with pickle_verifs2_keeps [OF ok pk(2)] show ?thesis by (simp add: ioctl_spec_def abs_fs_def ioctl_codes)
  next
    case other
    with load show ?thesis by (simp add: ioctl_spec_def)
  qed
qed

text \<open>One step of the code is one step of the specification.\<close>

lemma step_refines:
  assumes ok: "fs_ok (fst st)" and null: "null_kept (abs_fs (fst st))" and st: "step st r rs st'"
  shows "fs_ok (fst st')" "astep (abs_fs (fst st)) r rs (abs_fs (fst st'))" "null_kept (abs_fs (fst st'))"
proof -
  obtain s d s' d' where p: "st = (s, d)" "st' = (s', d')" by (cases st; cases st')
  from st obtain w where k: "kernel_ok r s" and h: "handle w r (s, d) = Some (rs, s', d')"
    by (auto simp: p elim: stepE)
  show "fs_ok (fst st')" using step_ok(1) st ok by (simp add: p)
  have "astep (abs_fs s) r rs (abs_fs s') \<and> null_kept (abs_fs s')"
  proof (cases "\<exists>c a. r = Req_Ioctl c a")
    case False
    then have run: "handle_fs w r s = Some (rs, s')" using h by (cases r) (auto simp: handle_def)
    have pool: "state_pool s' = state_pool s"
      using handle_fs_preserves [of s r w] ok k run by (simp add: preserves_def p)
    have n0: "GetInode 0 s \<noteq> None" using null by (simp add: null_kept_def abs_fs_def p tr_GetInode)
    have sp: "spec r rs (tr s) (tr s')" by (rule handle_fs_spec [OF _ k n0 run]) (use ok in \<open>simp add: p\<close>)
    have "tr s' 0 \<noteq> None"
      by (rule spec_keeps_null [OF sp]) (use n0 k in \<open>auto simp: tr_GetInode kernel_ok_def\<close>)
    moreover have "astep (abs_fs s) r rs (abs_fs s')"
      using sp False pool by (cases r) (auto simp: astep_def abs_fs_def simp del: spec.simps)
    ultimately show ?thesis using null pool by (simp add: null_kept_def abs_fs_def p)
  next
    case True
    then obtain c key where r: "r = Req_Ioctl c key" by blast
    with h obtain ns where run: "FuseIoctl (w_os w) (w_env w) c key (s, d) = Some (rs, ns, s', d')"
      by (auto simp: handle_def)
    have "ioctl_spec c key rs (abs_fs s) (abs_fs s')"
      by (rule FuseIoctl_spec [OF _ _ _ run]) (use ok null k r in \<open>simp_all add: p kernel_ok_def\<close>)
    moreover from this have "null_kept (abs_fs s')"
      using null by (auto simp: p ioctl_spec_def null_kept_def split: if_splits option.splits)
    ultimately show ?thesis by (simp add: astep_def r)
  qed
  then show "astep (abs_fs (fst st)) r rs (abs_fs (fst st'))" "null_kept (abs_fs (fst st'))" by (simp_all add: p)
qed

lemma mounted_refines: "mounted s \<Longrightarrow> ainit (abs_fs s)"
proof (induction rule: mounted.induct)
  case (mount inodes e umask gid uid blocks s)
  have "env_new e" using mount(2) by (auto simp: FuseInit_def Let_def split: if_splits)
  obtain t root nul where t: "FuseInit e umask gid uid (FuseRamFs_new blocks inodes) = Some t" "fs_ok t"
    "GetInode 1 t = Some root" "is_Directory root" "m_children root = [(''.'', 1), (''..'', 1)]"
    "st_nlink (i_attr root) = 2" "GetInode 0 t = Some nul" "HasNoLinks nul"
    "GetMode root = S_IFDIR OR (0x1FF AND NOT umask)" "m_nlookup root = 0"
    "m_obj nul = SpecialInode SPECIAL_INODE_TYPE_NO_BLOCK" "GetMode nul = 0" "m_nlookup nul = 0"
    "\<And>k. k \<noteq> 0 \<Longrightarrow> k \<noteq> 1 \<Longrightarrow> GetInode k t = None" "state_pool t = []"
    by (rule FuseInit_ok [OF mount(1) \<open>env_new e\<close>, where umask = umask and gid = gid and uid = uid and blocks = blocks]) blast
  have s: "s = t" using t(1) mount(2) by simp
  have r: "node_of root = \<lparr>n_content = Entries [''..'' \<mapsto> 1, ''.'' \<mapsto> 1], n_mode = S_IFDIR OR (0x1FF AND NOT umask),
      n_links = 2, n_lookups = 0\<rparr>" using t by (auto simp: node_of_def is_kind_simps dir_lookup_def)
  have n: "node_of nul = \<lparr>n_content = Device SPECIAL_INODE_TYPE_NO_BLOCK, n_mode = 0, n_links = 0, n_lookups = 0\<rparr>"
    using t by (simp add: node_of_def HasNoLinks_def)
  have "tr s = [0 \<mapsto> node_of nul, 1 \<mapsto> node_of root]"
    using t by (auto simp: fun_eq_iff tr_GetInode s)
  with r n have "a_tree (abs_fs s) =
     [0 \<mapsto> \<lparr>n_content = Device SPECIAL_INODE_TYPE_NO_BLOCK, n_mode = 0, n_links = 0, n_lookups = 0\<rparr>,
      1 \<mapsto> \<lparr>n_content = Entries [''..'' \<mapsto> 1, ''.'' \<mapsto> 1], n_mode = S_IFDIR OR (0x1FF AND NOT umask),
            n_links = 2, n_lookups = 0\<rparr>]" by (simp add: abs_fs_def)
  moreover have "a_saved (abs_fs s) = Map.empty" using t by (simp add: abs_fs_def s fun_eq_iff)
  ultimately show ?case unfolding ainit_def by blast
qed

interpretation machine: refinement_map "\<lambda>st. mounted (fst st)" step ainit astep "\<lambda>st. abs_fs (fst st)"
  "\<lambda>st. fs_ok (fst st) \<and> null_kept (abs_fs (fst st))"
proof
  fix st assume m: "mounted (fst st)"
  have "null_kept A" if "ainit A" for A using that by (auto simp: ainit_def null_kept_def)
  with mounted_ok [OF m] mounted_refines [OF m]
  show "(fs_ok (fst st) \<and> null_kept (abs_fs (fst st))) \<and> ainit (abs_fs (fst st))" by blast
next
  fix st r out st'
  assume "fs_ok (fst st) \<and> null_kept (abs_fs (fst st))" "step st r out st'"
  then show "(fs_ok (fst st') \<and> null_kept (abs_fs (fst st'))) \<and> astep (abs_fs (fst st)) r out (abs_fs (fst st'))"
    using step_refines by blast
qed

section \<open>The refinement theorem\<close>

text \<open>
  (C1) The file system refines its specification. Take any mount and any sequence of requests with the
  replies the code sent: the abstract file system, which keeps byte sequences, maps from names to
  numbers and saved trees, starts in the abstraction of the mount and has an execution with the
  same requests and the same replies that ends in the abstraction of the code's final state.
\<close>

theorem machine_refines_spec:
  assumes "mounted s" "exec step (s, d) xs (s', d')"
  shows "ainit (abs_fs s) \<and> exec astep (abs_fs s) xs (abs_fs s')"
  using machine.traces_refine [of "(s, d)" xs "(s', d')"] assms by simp

theorem machine_refines_spec_witness:
  "\<exists>s xs s'. mounted s \<and> map fst xs = [Req_Mkdir demo_ctx 1 ''sub'' 0x1ED, Req_Lookup 1 ''sub''] \<and>
     exec step (s, Map.empty) xs (s', Map.empty) \<and> ainit (abs_fs s) \<and> exec astep (abs_fs s) xs (abs_fs s')"
proof -
  obtain s root nul where s: "FuseInit demo_env 0x12 0 0 (FuseRamFs_new 100 10) = Some s" "fs_ok s"
    "GetInode 1 s = Some root" "m_children root = [(''.'', 1), (''..'', 1)]"
    by (rule FuseInit_ok [where inodes = 10 and e = demo_env and umask = "0x12" and gid = 0 and uid = 0 and blocks = 100])
      simp_all
  have m: "mounted s" by (rule mounted.mount [OF _ s(1)]) simp
  let ?r1 = "Req_Mkdir demo_ctx 1 ''sub'' 0x1ED" and ?r2 = "Req_Lookup 1 ''sub''"
  have k: "kernel_ok ?r1 s" using s(3,4) by (simp add: kernel_ok_def entry_fits_def dir_bytes_def)
  obtain o1 s1 where 1: "handle_fs demo_world ?r1 s = Some (o1, s1)" "fs_ok s1"
    using handle_fs_served [OF s(2) k, of demo_world] by (auto simp: served_def plain_def)
  obtain o2 s2 where 2: "handle_fs demo_world ?r2 s1 = Some (o2, s2)"
    using handle_fs_served [OF 1(2), of ?r2 demo_world] by (auto simp: served_def plain_def kernel_ok_def)
  have "step (s, Map.empty) ?r1 o1 (s1, Map.empty)" "step (s1, Map.empty) ?r2 o2 (s2, Map.empty)"
    using k 1 2 by (auto intro!: step.serve [where w = demo_world] simp: handle_def kernel_ok_def)
  then have "exec step (s, Map.empty) [(?r1, o1), (?r2, o2)] (s2, Map.empty)" by (auto intro: exec.intros)
  with m machine_refines_spec [OF m this] show ?thesis
    by (intro exI [of _ s] exI [of _ "[(?r1, o1), (?r2, o2)]"] exI [of _ s2]) simp
qed

end
