(* ===== verification/Reply_Props.thy ===== *)
theory Reply_Props
  imports Machine_Props
begin

text \<open>
  The protocol of replies: the kernel waits for one answer to every request but a forget, of the kind
  that belongs to the request, with a non-negative error number. The theorem states it of the
  dispatch table in any state whatsoever, with the exceptions the code makes.
\<close>

section \<open>Types of answers\<close>

definition answer_of :: "request \<Rightarrow> reply \<Rightarrow> bool" where
  "answer_of r x =
     (case x of
        ReplyErr e \<Rightarrow> 0 \<le> e
      | ReplyNone \<Rightarrow> False
      | ReplyEntry _ \<Rightarrow> (case r of Req_Lookup _ _ \<Rightarrow> True | Req_Mknod _ _ _ _ _ \<Rightarrow> True | Req_Mkdir _ _ _ _ \<Rightarrow> True
          | Req_Symlink _ _ _ _ \<Rightarrow> True | Req_Link _ _ _ \<Rightarrow> True | _ \<Rightarrow> False)
      | ReplyCreate _ \<Rightarrow> (case r of Req_Create _ _ _ _ \<Rightarrow> True | _ \<Rightarrow> False)
      | ReplyAttr _ \<Rightarrow> (case r of Req_GetAttr _ \<Rightarrow> True | Req_SetAttr _ _ _ \<Rightarrow> True | _ \<Rightarrow> False)
      | ReplyOpen \<Rightarrow> (case r of Req_Open _ \<Rightarrow> True | Req_OpenDir _ \<Rightarrow> True | _ \<Rightarrow> False)
      | ReplyBuf _ \<Rightarrow> (case r of Req_Read _ _ _ \<Rightarrow> True | Req_GetXAttr _ _ _ \<Rightarrow> True | Req_ListXAttr _ _ \<Rightarrow> True | _ \<Rightarrow> False)
      | ReplyDirents _ \<Rightarrow> (case r of Req_ReadDir _ _ _ \<Rightarrow> True | _ \<Rightarrow> False)
      | ReplyWrite _ \<Rightarrow> (case r of Req_Write _ _ _ \<Rightarrow> True | _ \<Rightarrow> False)
      | ReplyXattr _ \<Rightarrow> (case r of Req_GetXAttr _ _ _ \<Rightarrow> True | Req_ListXAttr _ _ \<Rightarrow> True | _ \<Rightarrow> False)
      | ReplyReadlink _ \<Rightarrow> (case r of Req_ReadLink _ \<Rightarrow> True | _ \<Rightarrow> False)
      | ReplyStatfs _ \<Rightarrow> r = Req_Statfs
      | ReplyIoctl \<Rightarrow> (case r of Req_Ioctl _ _ \<Rightarrow> True | _ \<Rightarrow> False))"

text \<open>
  A size change and an ioctl pass on the error of the operation with the wrong sign; a failing link
  creation and a listing without memory answer before they go on; a lock request is not answered.
\<close>

definition answered :: "request \<Rightarrow> reply list \<Rightarrow> bool" where
  "answered r rs =
     (case r of
        Req_Forget _ _ \<Rightarrow> rs = [] \<or> rs = [ReplyNone]
      | Req_GetLock _ \<Rightarrow> rs = []
      | Req_Symlink _ _ _ _ \<Rightarrow>
          (\<exists>k \<le> 2. \<exists>x. rs = replicate k (ReplyErr ENOSPC) @ [x] \<and> answer_of r x)
      | Req_ReadDir _ _ _ \<Rightarrow> (\<exists>x. (rs = [x] \<or> rs = [ReplyErr ENOMEM, x]) \<and> answer_of r x)
      | Req_SetAttr _ _ f \<Rightarrow>
          (\<exists>x. rs = [x] \<and> (answer_of r x \<or> flag_set f FUSE_SET_ATTR_SIZE \<and> x = ReplyErr (- ENOSPC)))
      | Req_Ioctl _ _ \<Rightarrow> rs = [ReplyIoctl] \<or> (\<exists>e. e \<noteq> 0 \<and> rs = [ReplyErr e])
      | _ \<Rightarrow> (\<exists>x. rs = [x] \<and> answer_of r x))"

section \<open>Handlers\<close>

lemma reply_entry_one:
  "reply_entry i s = Some (rs, s') \<Longrightarrow> \<exists>ep. rs = [ReplyEntry ep]"
  "reply_create i s = Some (rs, s') \<Longrightarrow> \<exists>ep. rs = [ReplyCreate ep]"
  by (auto simp: reply_entry_def reply_create_def Inode_ReplyEntry_def Inode_ReplyCreate_def split: Option.bind_splits)

lemmas answer_simps = fuse_reply_err_def Let_def answered_def answer_of_def

lemma answered_create:
  "FuseMknod e c p n m d s = Some (rs, s') \<Longrightarrow> answered (Req_Mknod c p n m d) rs"
  "FuseMkdir e c p n m s = Some (rs, s') \<Longrightarrow> answered (Req_Mkdir c p n m) rs"
  "FuseCreate e c p n m s = Some (rs, s') \<Longrightarrow> answered (Req_Create c p n m) rs"
  "FuseLink i p n s = Some (rs, s') \<Longrightarrow> answered (Req_Link i p n) rs"
  by (auto simp: FuseMknod_def FuseMkdir_def FuseCreate_def FuseLink_def answer_simps
      dest!: reply_entry_one split: option.splits if_splits Option.bind_splits)

lemma answered_symlink:
  assumes "FuseSymlink e c l p n s = Some (rs, s')" shows "answered (Req_Symlink c l p n) rs"
proof -
  let ?a = "(if \<not> CheckHasSpaceFor None (of_nat (min (length n) PATH_MAX)) (m_stbuf s) then 1 else 0) +
    (if GetFreeInodes (m_stbuf s) \<le> 0 then 1 else 0) :: nat"
  have "(\<exists>x. rs = [x] \<and> answer_of (Req_Symlink c l p n) x) \<or>
    (\<exists>x. rs = replicate ?a (ReplyErr ENOSPC) @ [x] \<and> answer_of (Req_Symlink c l p n) x)"
    using assms
    by (auto simp: FuseSymlink_def fuse_reply_err_def Let_def answer_of_def numeral_2_eq_2
        dest!: reply_entry_one split: option.splits if_splits Option.bind_splits)
  moreover have "?a \<le> 2" by simp
  ultimately show ?thesis unfolding answered_def by (simp only: request.case) (metis append_Nil replicate_0 zero_le)
qed

lemma answered_remove:
  "FuseUnlink e p n s = Some (rs, s') \<Longrightarrow> answered (Req_Unlink p n) rs"
  "FuseRmdir e p n s = Some (rs, s') \<Longrightarrow> answered (Req_Rmdir p n) rs"
  "FuseRename e p n p' n' s = Some (rs, s') \<Longrightarrow> answered (Req_Rename p n p' n') rs"
  by (auto simp: FuseUnlink_def FuseRmdir_def FuseRename_def rename_replace_def rename_move_def answer_simps
      split: option.splits if_splits Option.bind_splits)

lemma answered_look:
  "FuseLookup p n s = Some (rs, s') \<Longrightarrow> answered (Req_Lookup p n) rs"
  "FuseForget i k s = Some (rs, s') \<Longrightarrow> answered (Req_Forget i k) rs"
  "FuseGetAttr i s = Some (rs, s') \<Longrightarrow> answered (Req_GetAttr i) rs"
  "FuseReadLink i s = Some (rs, s') \<Longrightarrow> answered (Req_ReadLink i) rs"
  "FuseAccess c i m s = Some (rs, s') \<Longrightarrow> answered (Req_Access c i m) rs"
  by (auto simp: FuseLookup_def FuseForget_def Inode_Forget_def FuseGetAttr_def Inode_ReplyAttr_def FuseReadLink_def
      FuseAccess_def Inode_ReplyAccess_def answer_simps dest!: reply_entry_one split: option.splits if_splits)

lemma answered_open:
  "FuseOpen i s = Some (rs, s') \<Longrightarrow> answered (Req_Open i) rs"
  "FuseRelease i s = Some (rs, s') \<Longrightarrow> answered (Req_Release i) rs"
  "FuseOpenDir i s = Some (rs, s') \<Longrightarrow> answered (Req_OpenDir i) rs"
  "FuseReleaseDir i s = Some (rs, s') \<Longrightarrow> answered (Req_ReleaseDir i) rs"
  "FuseFlush i s = Some (rs, s') \<Longrightarrow> answered (Req_Flush i) rs"
  "FuseFsync i s = Some (rs, s') \<Longrightarrow> answered (Req_Fsync i) rs"
  "FuseFsyncDir i s = Some (rs, s') \<Longrightarrow> answered (Req_FsyncDir i) rs"
  "FuseGetLock i s = Some (rs, s') \<Longrightarrow> answered (Req_GetLock i) rs"
  "FuseStatfs s = Some (rs, s') \<Longrightarrow> answered Req_Statfs rs"
  by (auto simp: FuseOpen_def FuseRelease_def FuseOpenDir_def FuseReleaseDir_def FuseFlush_def FuseFsync_def
      FuseFsyncDir_def FuseGetLock_def FuseStatfs_def answer_simps split: option.splits if_splits)

lemma answered_xattr:
  "FuseGetXAttr i n z s = Some (rs, s') \<Longrightarrow> answered (Req_GetXAttr i n z) rs"
  "FuseListXAttr e i z s = Some (rs, s') \<Longrightarrow> answered (Req_ListXAttr i z) rs"
  "FuseRemoveXAttr i n s = Some (rs, s') \<Longrightarrow> answered (Req_RemoveXAttr i n) rs"
  "FuseSetXAttr e i n v f s = Some (rs, s') \<Longrightarrow> answered (Req_SetXAttr i n v f) rs"
  by (auto simp: FuseGetXAttr_def FuseListXAttr_def FuseRemoveXAttr_def FuseSetXAttr_def Inode_GetXAttrAndReply_def
      Inode_ListXAttrAndReply_def Inode_RemoveXAttrAndReply_def Inode_SetXAttrAndReply_def answer_simps
      split: option.splits if_splits Option.bind_splits prod.splits)

lemma on_inode_some:
  "on_inode i f s = Some (r, s') \<Longrightarrow> \<exists>sb x sb' x'. f (sb, x) = Some (r, sb', x')"
  by (auto simp: on_inode_def split: Option.bind_splits)

lemma WriteAndReply_answer: "WriteAndReply e d off (sb, i) = Some (r, sb', i') \<Longrightarrow> answer_of (Req_Write n b z) r"
  by (auto simp: WriteAndReply_def File_WriteAndReply_def Directory_WriteAndReply_def SymLink_WriteAndReply_def
      SpecialInode_WriteAndReply_def Let_def answer_of_def split: inode_obj.splits if_splits option.splits Option.bind_splits)

lemma ReadAndReply_answer: "ReadAndReply e z off i = Some (r, i') \<Longrightarrow> answer_of (Req_Read n k o') r"
  by (auto simp: ReadAndReply_def File_ReadAndReply_def Directory_ReadAndReply_def SymLink_ReadAndReply_def
      SpecialInode_ReadAndReply_def Let_def answer_of_def split: inode_obj.splits if_splits option.splits Option.bind_splits)

lemma answered_data:
  "FuseRead e i z off s = Some (rs, s') \<Longrightarrow> answered (Req_Read i z off) rs"
  "FuseWrite e i b off s = Some (rs, s') \<Longrightarrow> answered (Req_Write i b off) rs"
  by (auto simp: FuseRead_def FuseWrite_def fuse_reply_err_def answered_def
      dest!: on_inode_some dest: WriteAndReply_answer ReadAndReply_answer split: option.splits Option.bind_splits)
    (simp_all add: answer_of_def)

lemma answered_readdir: "FuseReadDir e rand dsz i z off s = Some (rs, s') \<Longrightarrow> answered (Req_ReadDir i z off) rs"
  by (auto simp: FuseReadDir_def answer_simps split: option.splits if_splits Option.bind_splits sum.splits)

lemma FileTruncate_codes:
  "File_FileTruncate e z (sb, i) = Some (r, sb', i') \<Longrightarrow> r = 0 \<or> r = - ENOSPC \<or> r = EINVAL"
  by (auto simp: File_FileTruncate_def Let_def split: inode_obj.splits if_splits option.splits Option.bind_splits)

lemma answered_setattr: "FuseSetAttr e i a f s = Some (rs, s') \<Longrightarrow> answered (Req_SetAttr i a f) rs"
  by (auto simp: FuseSetAttr_def Inode_ReplySetAttr_def Inode_ReplyAttr_def answer_simps dest!: on_inode_some FileTruncate_codes
      split: option.splits if_splits Option.bind_splits)

lemmas answered_handlers = answered_create answered_symlink answered_remove answered_look answered_open answered_xattr
  answered_data answered_readdir answered_setattr

lemma answered_fs: "handle_fs w r s = Some (rs, s') \<Longrightarrow> answered r rs"
  by (cases r) (simp_all add: answered_handlers)

lemma answered_ioctl:
  assumes "FuseIoctl os e c a st = Some (rs, ns, st')"
  shows "answered (Req_Ioctl c a) rs"
proof -
  obtain ret where "rs = [if ret = 0 then ReplyIoctl else ReplyErr (- ret)]"
    using assms by (cases st) (auto simp: FuseIoctl_def split: Option.bind_splits split del: if_split)
  then show ?thesis by (auto simp: answered_def)
qed

section \<open>The protocol\<close>

text \<open>
  (C17) Every handler of the dispatch table, in any state and on any arguments, gives the kernel the
  answer that belongs to the request: one reply, of the kind of the request or an error number
  that is not negative. The exceptions are the ones of the code: a forget of a missing inode and a
  lock query are not answered; a symbolic link without space and a listing without memory answer
  an error and then go on to a second answer; a size change without space answers a negative
  number; and a failing ioctl answers the negation of the code of its operation.
\<close>

theorem reply_protocol:
  assumes "handle w r st = Some (rs, st')"
  shows "answered r rs"
  using assms by (cases st; cases r) (auto simp: handle_def simp del: handle_fs.simps intro: answered_fs answered_ioctl)

theorem reply_protocol_witness:
  "\<exists>rs st'. handle demo_world (Req_Unlink 1 ''a'') (demo_fs, Map.empty) = Some (rs, st') \<and>
     answered (Req_Unlink 1 ''a'') rs"
proof -
  have "kernel_ok (Req_Unlink 1 ''a'') demo_fs" by (simp add: kernel_ok_def name_known_def dir_lookup_def)
  then obtain rs t where h: "handle demo_world (Req_Unlink 1 ''a'') (demo_fs, Map.empty) = Some (rs, t, Map.empty)"
    using handle_fs_served [OF demo_fs_ok, of "Req_Unlink 1 ''a''" demo_world]
    by (auto simp: plain_def served_def handle_def)
  from reply_protocol [OF h] h show ?thesis by blast
qed

end
