(* ===== verification/Reuse_Props.thy ===== *)
theory Reuse_Props
  imports Name_Props
begin

text \<open>
  Inode numbers are used again in the order in which they were freed: the queue of freed numbers is
  first in, first out, and a creation that reaches the table takes its head.
\<close>

section \<open>The queue through one creation\<close>

lemma on_inode_queue: "on_inode i f s = Some (r, s') \<Longrightarrow> DeletedInodes s' = DeletedInodes s"
  by (auto simp: on_inode_def put_inode_def split: Option.bind_splits)

lemma modify_inode_queue: "modify_inode i f s = Some s' \<Longrightarrow> DeletedInodes s' = DeletedInodes s"
  by (auto simp: modify_inode_def put_inode_def split: Option.bind_splits)

lemma RegisterInode_queue:
  "RegisterInode e i mode nlink gid uid s = Some (ino, s') \<Longrightarrow> DeletedInodes s \<noteq> [] \<Longrightarrow>
     ino = hd (DeletedInodes s) \<and> DeletedInodes s' = tl (DeletedInodes s)"
  by (auto simp: RegisterInode_def PopOneDeletedInode_def UpdateInode_def put_inode_def Let_def
      split: Option.bind_splits list.splits)

lemma do_create_node_queue:
  assumes run: "do_create_node e ctx parent name mode dev link s = Some (r, s')"
    and obj: "create_object e mode dev link = Inr (node, links)" and free: "\<not> GetFreeInodes (m_stbuf s) \<le> 0"
    and q: "DeletedInodes s \<noteq> []" "0 \<le> sint (hd (DeletedInodes s))"
  shows "if r < 0 then DeletedInodes s' = rotate1 (DeletedInodes s)
    else r = sint (hd (DeletedInodes s)) \<and> DeletedInodes s' = tl (DeletedInodes s)"
  using run obj free q
  by (auto simp: do_create_node_def DeleteInode_def Let_def rotate1_hd_tl
      dest!: on_inode_queue modify_inode_queue RegisterInode_queue split: Option.bind_splits if_splits)

lemma queue_numbers:
  assumes ok: "fs_ok s" and q: "DeletedInodes s \<noteq> []"
  shows "0 \<le> sint (hd (DeletedInodes s))" "\<not> GetFreeInodes (m_stbuf s) \<le> 0"
proof -
  let ?h = "hd (DeletedInodes s)"
  have h: "unat ?h < length (Inodes s)" "Inodes s ! unat ?h = None"
    using queue_okD [OF fs_okD(2) [OF ok] hd_in_set [OF q]] by auto
  have c: "counters_ok (Inodes s) (m_stbuf s)" by (rule fs_okD(3) [OF ok])
  then have "unat ?h < 2 ^ 63" using h(1) by (simp add: counters_ok_def)
  then show "0 \<le> sint ?h" using sint_nonneg_64 by simp
  have "live_count (Inodes s) < length (Inodes s)"
    unfolding live_count_def using h by (intro length_filter_less [of None]) (metis nth_mem, simp)
  then have "0 < unat (f_ffree (m_stbuf s))" using c by (simp add: counters_ok_def)
  then show "\<not> GetFreeInodes (m_stbuf s) \<le> 0" by (auto simp: GetFreeInodes_def)
qed

text \<open>One create request: the head of the queue is handed out, or goes to the back with an error.\<close>

definition create_outcome :: "ino_t list \<Rightarrow> reply \<Rightarrow> ino_t list \<Rightarrow> bool" where
  "create_outcome q r q' \<longleftrightarrow>
     (\<exists>n > 0. r = ReplyErr n) \<and> q' = rotate1 q \<or>
     (\<exists>ep. r = ReplyCreate ep \<and> st_ino (e_attr ep) = hd q) \<and> q' = tl q"

lemma create_step:
  assumes ok: "fs_ok s" and p: "live parent s = Some p" "is_Directory p" and null: "GetInode 0 s \<noteq> None"
    and new: "env_new e" "S_ISREG (mode OR S_IFREG)" and q: "DeletedInodes s \<noteq> []"
    and fits: "dir_bytes (m_children p) + 72 + length name < 2 ^ 63"
  obtains r s' p' where "FuseCreate e ctx parent name mode s = Some ([r], s')" "fs_ok s'"
    "live parent s' = Some p'" "is_Directory p'" "GetInode 0 s' \<noteq> None"
    "dir_bytes (m_children p') \<le> dir_bytes (m_children p) + 72 + length name"
    "create_outcome (DeletedInodes s) r (DeletedInodes s')"
proof -
  note gp = liveD [OF p(1)]
  let ?mode = "mode OR S_IFREG"
  obtain node links where obj: "create_object e ?mode 0 None = Inr (node, links)"
    using new by (simp add: create_object_def)
  obtain r s1 where run: "do_create_node e ctx parent name ?mode 0 None s = Some (r, s1)" "fs_ok s1"
    "- r \<in> {EEXIST, EINVAL, ENOSPC} \<and> touches {} s s1 \<or>
     (\<exists>ino. unat ino < 2 ^ 63 \<and> r = int (unat ino) \<and> created parent name ?mode None ino 0 s s1)"
    by (rule do_create_node_ok [OF ok _ p(2) fits]) (use gp in blast)+
  note qr = do_create_node_queue [OF run(1) obj queue_numbers(2) [OF ok q] q queue_numbers(1) [OF ok q]]
  from run(3) show ?thesis
  proof (elim disjE exE conjE)
    assume e: "- r \<in> {EEXIST, EINVAL, ENOSPC}" and t: "touches {} s s1"
    then have "r < 0" by auto
    moreover have "live parent s1 = Some p" "GetInode 0 s1 \<noteq> None"
      using touchesD(1) [OF t] p null by (simp_all add: live_def)
    ultimately show ?thesis using run p qr
      by (intro that [of "ReplyErr (- r)" s1 p]) (auto simp: FuseCreate_def fuse_reply_err_def create_outcome_def)
  next
    fix ino assume i: "unat ino < 2 ^ 63" "r = int (unat ino)" and c: "created parent name ?mode None ino 0 s s1"
    have "ino \<noteq> 0" using c null by (auto simp: created_def)
    then have "0 < unat ino" by (simp add: unat_gt_0)
    then have r: "r > 0" "word_of_int r = ino" using i by (linarith, simp)
    obtain j t where t: "reply_create ino s1 = Some ([ReplyCreate (m_fuseEntryParam j)], t)"
      "created parent name ?mode None ino 1 s t" "GetInode ino t = Some j" by (rule created_reply [OF c]) blast
    from c obtain j' where j': "GetInode ino s1 = Some j'" by (auto simp: created_def)
    from served_entry(2) [OF run(2) j' refl] t(1) have ok': "fs_ok t" by (simp add: served_def)
    have qt: "DeletedInodes t = DeletedInodes s1"
      using t(1) j' by (auto simp: reply_create_def Inode_ReplyCreate_def put_inode_def)
    have "sint ino = r" using sint_nonneg_64 [OF i(1)] i(2) by simp
    then have hd: "ino = hd (DeletedInodes s)" "DeletedInodes s1 = tl (DeletedInodes s)" 
      using qr r(1) by (auto simp: signed_word_eqI)
    have "st_ino (e_attr (m_fuseEntryParam j)) = ino" using fs_ok_inode(2) [OF ok' t(3)] by (simp add: GetIno_def)
    with hd qt have out: "create_outcome (DeletedInodes s) (ReplyCreate (m_fuseEntryParam j)) (DeletedInodes t)"
      by (auto simp: create_outcome_def)
    have nd: "\<not> S_ISDIR ?mode" using new(2) by auto
    from t(2) gp nd obtain p' where p': "GetInode parent t = Some p'" "GetMode p' = GetMode p"
      "st_nlink (i_attr p') = st_nlink (i_attr p)" "m_children p' = m_children p @ [(name, ino)]"
      by (auto simp: created_def)
    have "touches {ino, parent} s t" using t(2) by (simp add: created_def)
    with \<open>ino \<noteq> 0\<close> null p'(1) have "GetInode 0 t \<noteq> None" by (cases "parent = 0") (auto dest: touchesD(1))
    moreover have "live parent t = Some p'" using p' gp live_links [OF p(1)] by (intro liveI) simp_all
    moreover have "is_Directory p'" using p'(4) by (auto simp: is_Directory_def m_children_def split: inode_obj.splits)
    ultimately show ?thesis using run p r t(1) ok' out p'(4)
      by (intro that [of "ReplyCreate (m_fuseEntryParam j)" t p']) (simp_all add: FuseCreate_def dir_bytes_def)
  qed
qed

section \<open>A sequence of creations\<close>

fun create_all :: "ino_t \<Rightarrow> (env \<times> fuse_ctx \<times> string \<times> mode_t) list \<Rightarrow> fs \<Rightarrow> (reply list \<times> fs) option" where
  "create_all parent [] s = Some ([], s)"
| "create_all parent ((e, ctx, name, mode) # rest) s = do {
     (rs, s1) \<leftarrow> FuseCreate e ctx parent name mode s;
     (rs', s2) \<leftarrow> create_all parent rest s1;
     Some (rs @ rs', s2)
   }"

lemma create_outcome_nth:
  "create_outcome q r q' \<Longrightarrow> Suc i < length q \<Longrightarrow> i < length q' \<and> q' ! i = q ! Suc i"
  by (cases q) (auto simp: create_outcome_def nth_append)

text \<open>
  (C13) Freed inode numbers come back within a bounded wait: in a state with the invariant, with
  memory for the objects, any sequence of create requests for regular files in a live directory,
  at most as many as there are freed numbers, is served to the end, and the request at position
  \<open>i\<close> is answered by an error or by an entry with the freed number at position \<open>i\<close> of the queue. A
  number that waits behind \<open>k\<close> others is thus offered by the request after the next \<open>k\<close>,
  whether these succeed or fail.
\<close>

theorem freed_number_reused:
  assumes "fs_ok s" "live parent s = Some p" "is_Directory p" "GetInode 0 s \<noteq> None"
    and "length cs \<le> length (DeletedInodes s)"
    and "dir_bytes (m_children p) + (\<Sum>(e, ctx, name, mode) \<leftarrow> cs. 72 + length name) < 2 ^ 63"
    and "\<forall>(e, ctx, name, mode) \<in> set cs. env_new e \<and> S_ISREG (mode OR S_IFREG)"
  shows "\<exists>rs s'. create_all parent cs s = Some (rs, s') \<and> length rs = length cs \<and> fs_ok s' \<and>
    (\<forall>i < length cs. (\<exists>n > 0. rs ! i = ReplyErr n) \<or>
      (\<exists>ep. rs ! i = ReplyCreate ep \<and> st_ino (e_attr ep) = DeletedInodes s ! i))"
  using assms
proof (induction cs arbitrary: s p)
  case (Cons c cs)
  obtain e ctx name mode where c: "c = (e, ctx, name, mode)" by (cases c)
  obtain r s1 p1 where st: "FuseCreate e ctx parent name mode s = Some ([r], s1)" "fs_ok s1"
    "live parent s1 = Some p1" "is_Directory p1" "GetInode 0 s1 \<noteq> None"
    "dir_bytes (m_children p1) \<le> dir_bytes (m_children p) + 72 + length name"
    "create_outcome (DeletedInodes s) r (DeletedInodes s1)"
    by (rule create_step [OF Cons.prems(1-4), of e mode name ctx]) (use Cons.prems(5-7) c in auto)
  have q: "length cs \<le> length (DeletedInodes s1)"
    using st(7) Cons.prems(5) by (auto simp: create_outcome_def)
  from Cons.IH [OF st(2-5) q] Cons.prems(6,7) c st(6) obtain rs s2 where
    rs: "create_all parent cs s1 = Some (rs, s2)" "length rs = length cs" "fs_ok s2"
    "\<forall>i < length cs. (\<exists>n > 0. rs ! i = ReplyErr n) \<or>
      (\<exists>ep. rs ! i = ReplyCreate ep \<and> st_ino (e_attr ep) = DeletedInodes s1 ! i)" by auto
  have "(\<exists>n > 0. (r # rs) ! i = ReplyErr n) \<or>
      (\<exists>ep. (r # rs) ! i = ReplyCreate ep \<and> st_ino (e_attr ep) = DeletedInodes s ! i)" if "i < Suc (length cs)" for i
  proof (cases i)
    case 0
    with st(7) Cons.prems(5) show ?thesis by (cases "DeletedInodes s") (auto simp: create_outcome_def)
  next
    case (Suc k)
    with rs(4) that create_outcome_nth [OF st(7), of k] Cons.prems(5) show ?thesis by auto
  qed
  with rs st(1) c show ?case by auto
qed simp

text \<open>The small file system with two slots that were freed, the last one first.\<close>

definition demo_freed :: fs where
  "demo_freed = demo_fs\<lparr>Inodes := [Some demo_null, Some demo_root, Some demo_file, None, None], DeletedInodes := [4, 3]\<rparr>"

lemma demo_freed_ok: "fs_ok demo_freed"
proof -
  let ?t = "[Some demo_null, Some demo_root, Some demo_file, None, None]"
  have "table_ok ?t" using demo_inodes_ok
    by (auto simp: table_ok_def less_Suc_eq demo_null_def demo_root_def demo_file_def)
  moreover have "queue_ok ?t [4, 3]" by (auto simp: queue_ok_def less_Suc_eq word_unat_eq_iff)
  moreover have "counters_ok ?t demo_stbuf" by (simp add: counters_ok_def live_count_def demo_stbuf_def)
  ultimately show ?thesis by (simp add: fs_ok_def snapshot_ok_def demo_freed_def)
qed

theorem freed_number_reused_witness:
  "\<exists>r1 r2 s'. create_all 1 [(demo_env, demo_ctx, ''b'', 0x1A4), (demo_env, demo_ctx, ''a'', 0x1A4)] demo_freed =
      Some ([r1, r2], s') \<and> fs_ok s' \<and>
     ((\<exists>n > 0. r1 = ReplyErr n) \<or> (\<exists>ep. r1 = ReplyCreate ep \<and> st_ino (e_attr ep) = 4)) \<and>
     ((\<exists>n > 0. r2 = ReplyErr n) \<or> (\<exists>ep. r2 = ReplyCreate ep \<and> st_ino (e_attr ep) = 3))"
proof -
  let ?cs = "[(demo_env, demo_ctx, ''b'', 0x1A4), (demo_env, demo_ctx, ''a'', 0x1A4)] :: (env \<times> fuse_ctx \<times> string \<times> mode_t) list"
  have p: "live 1 demo_freed = Some demo_root" "GetInode 0 demo_freed \<noteq> None"
    by (simp_all add: live_def GetInode_def demo_freed_def HasNoLinks_def demo_root_def)
  have q: "DeletedInodes demo_freed = [4, 3]" by (simp add: demo_freed_def)
  have "\<exists>rs s'. create_all 1 ?cs demo_freed = Some (rs, s') \<and> length rs = length ?cs \<and> fs_ok s' \<and>
    (\<forall>i < length ?cs. (\<exists>n > 0. rs ! i = ReplyErr n) \<or>
      (\<exists>ep. rs ! i = ReplyCreate ep \<and> st_ino (e_attr ep) = DeletedInodes demo_freed ! i))"
    by (rule freed_number_reused [OF demo_freed_ok p(1) _ p(2)]) (simp_all add: q dir_bytes_def)
  then obtain rs s' where r: "create_all 1 ?cs demo_freed = Some (rs, s')" "length rs = 2" "fs_ok s'"
    "\<forall>i < 2. (\<exists>n > 0. rs ! i = ReplyErr n) \<or> (\<exists>ep. rs ! i = ReplyCreate ep \<and> st_ino (e_attr ep) = [4, 3] ! i)"
    by (auto simp only: q list.size One_nat_def Suc_1 add_0 plus_nat.simps numeral_2_eq_2)
  from r(2) obtain r1 r2 where "rs = [r1, r2]" by (auto simp: numeral_2_eq_2 length_Suc_conv)
  with r(1,3) r(4) [rule_format, of 0] r(4) [rule_format, of 1] show ?thesis by simp
qed

end
