(* ===== verification/Sharing_Props.thy ===== *)
theory Sharing_Props
  imports Machine_Props Attr_Props
begin

text \<open>
  What a saved state shares with the running file system: the values of extended attributes, which
  a checkpoint does not copy.
\<close>

lemma heap_realloc_moves:
  assumes "heap_wf h" "h_mem h p = Some v" "p \<noteq> nullptr" "env_alloc e n" "\<not> env_inplace e"
  obtains h' new where "heap_realloc e p n h = Some (h_next h, h')" "h_mem h' (h_next h) = Some new"
    "length new = unat n" "h_mem h' p = None" "h_next h \<noteq> nullptr" "p \<noteq> h_next h"
proof -
  obtain new where new: "realloc_buf e v n = Some new" using assms(4) by (simp add: realloc_buf_def)
  have "p < h_next h" "0 < h_next h" using assms(1,2) by (auto simp: heap_wf_def)
  then show ?thesis
    using that [of "h\<lparr>h_mem := (h_mem h)(p := None, h_next h \<mapsto> new), h_next := Suc (h_next h)\<rparr>" new]
      assms new length_realloc_buf [OF new] by (simp add: heap_realloc_def)
qed

lemma SetXAttr_moves:
  assumes h: "heap_wf h" "h_mem h p = Some v" "p \<noteq> nullptr" and e: "\<forall>n. env_alloc e n" "\<not> env_inplace e"
    and i: "map_of (m_xattr i) name = Some (p, sz)" "unat sz = length v"
    and val: "length v < length val" "length val < 2 ^ 63"
  obtains h' i' where "Inode_SetXAttrAndReply e name val 0 0 (h, i) = Some (ReplyErr 0, h', i')" "h_mem h' p = None"
proof -
  let ?n = "of_nat (length val) :: size_t"
  have n: "unat ?n = length val" using val by (simp add: unat_of_nat_64)
  obtain h1 new where r: "heap_realloc e p ?n h = Some (h_next h, h1)" "h_mem h1 (h_next h) = Some new"
    "length new = unat ?n" "h_mem h1 p = None" "h_next h \<noteq> nullptr" "p \<noteq> h_next h"
    by (rule heap_realloc_moves [OF h _ e(2), of ?n]) (use e in blast)+
  have "memcpy_at 0 val new = Some val" using r(3) n by (simp add: memcpy_at_def blit_def)
  moreover have "sz < ?n" using i(2) val n by (simp add: word_less_nat_alt)
  ultimately show ?thesis
    using that [of "h1\<lparr>h_mem := (h_mem h1)(h_next h \<mapsto> val)\<rparr>"] r i by (simp add: Inode_SetXAttrAndReply_def)
qed

lemma live_same_table: "Inodes s' = Inodes s \<Longrightarrow> live ino s' = live ino s"
  by (simp add: live_def GetInode_def)

text \<open>The first demonstration file system with an attribute on its file.\<close>

definition demo_attr_file :: Inode where
  "demo_attr_file = demo_file\<lparr>m_xattr := [(''user.n'', 1, 1)]\<rparr>"

definition demo_attr_fs :: fs where
  "demo_attr_fs = (put_inode 2 demo_attr_file demo_fs)\<lparr>xheap := \<lparr>h_mem = [1 \<mapsto> [7]], h_next = 2\<rparr>\<rparr>"

lemma demo_attr_fs_ok: "fs_ok demo_attr_fs"
proof -
  have "inode_ok demo_attr_file"
    unfolding demo_attr_file_def by (rule inode_ok_xattr [OF demo_inodes_ok(3)]) simp
  then have "fs_ok (put_inode 2 demo_attr_file demo_fs)"
    by (intro fs_ok_put_inode [OF demo_fs_ok demo_fs_simps(8)]) (simp_all add: demo_attr_file_def demo_file_def)
  then show ?thesis by (simp add: fs_ok_def demo_attr_fs_def)
qed

text \<open>
  (C22) Saved states share the values of extended attributes with the running file system, since the copy
  constructor of \<^verbatim>\<open>Inode\<close> copies the pointers. When a longer value is set after a checkpoint and
  \<^verbatim>\<open>realloc\<close> moves it, the state that a restore brings back holds the freed pointer, and getting the
  attribute reads freed memory.
\<close>

theorem restored_xattr_is_stale:
  assumes ok: "fs_ok s" and i: "live ino s = Some i" "map_of (m_xattr i) name = Some (p, sz)"
    and h: "heap_wf (xheap s)" "h_mem (xheap s) p = Some v" "p \<noteq> nullptr" "unat sz = length v" "v \<noteq> []"
    and key: "map_of (state_pool s) key = None" and e: "env_new e" "\<forall>n. env_alloc e n" "\<not> env_inplace e"
    and val: "length v < length val" "length val < 2 ^ 63" and n: "sz \<le> n"
  shows "\<exists>ns s1 s2 ns' s3. FuseIoctl os e VERIFS_CHECKPOINT key (s, d) = Some ([ReplyIoctl], ns, s1, d) \<and>
    FuseSetXAttr e ino name val 0 s1 = Some ([ReplyErr 0], s2) \<and>
    FuseIoctl os e VERIFS_RESTORE key (s2, d) = Some ([ReplyIoctl], ns', s3, d) \<and>
    FuseGetXAttr ino name n s3 = None"
proof -
  let ?sv = "(Inodes s, DeletedInodes s, m_stbuf s)"
  let ?s1 = "s\<lparr>state_pool := state_pool s @ [(key, ?sv)]\<rparr>"
  have ck: "FuseIoctl os e VERIFS_CHECKPOINT key (s, d) = Some ([ReplyIoctl], [], ?s1, d)"
    using Ioctl_checkpoint [OF ok e(1) _ key] e(2) by blast
  have ok1: "fs_ok ?s1" using ok by (auto simp: fs_ok_def snapshot_ok_def)
  have live1: "live ino ?s1 = Some i" using i(1) by (simp add: live_same_table [of ?s1 s])
  obtain h' i' where set: "Inode_SetXAttrAndReply e name val 0 0 (xheap s, i) = Some (ReplyErr 0, h', i')"
    "h_mem h' p = None" by (rule SetXAttr_moves [OF h(1-3) e(2,3) i(2) h(4) val])
  let ?s2 = "(put_inode ino i' ?s1)\<lparr>xheap := h'\<rparr>"
  have run2: "FuseSetXAttr e ino name val 0 ?s1 = Some ([ReplyErr 0], ?s2)"
    using set live1 by (simp add: FuseSetXAttr_def)
  have ok2: "fs_ok ?s2" using FuseSetXAttr_preserves [OF ok1, of e ino name val 0] run2 unfolding preserves_def by blast
  have "key \<notin> fst ` set (state_pool s)" using key by (simp add: map_of_eq_None_iff)
  then have saved: "map_of (state_pool ?s2) key = Some ?sv"
    by (simp add: put_inode_def map_of_snoc del: map_of_append)
  have ne: "Inodes s \<noteq> []" using i(1) by (auto simp: live_def GetInode_def)
  obtain ns' where rs: "FuseIoctl os e VERIFS_RESTORE key (?s2, d) = Some ([ReplyIoctl], ns',
    ?s2\<lparr>Inodes := Inodes s, DeletedInodes := DeletedInodes s, m_stbuf := m_stbuf s,
      state_pool := filter (\<lambda>x. fst x \<noteq> key) (state_pool ?s2)\<rparr>, d)" (is "_ = Some (_, _, ?s3, _)")
    by (rule Ioctl_restore [OF ok2 e(1) _ saved ne]) (use e(2) in blast)+
  have "live ino ?s3 = live ino s" by (rule live_same_table) simp
  then have "live ino ?s3 = Some i" using i(1) by simp
  moreover have "n \<noteq> 0" using n h(4,5) by auto
  ultimately have "FuseGetXAttr ino name n ?s3 = None"
    using i(2) h(3) n set(2) by (simp add: FuseGetXAttr_def Inode_GetXAttrAndReply_def)
  with ck run2 rs show ?thesis by blast
qed

theorem restored_xattr_is_stale_witness:
  "\<exists>ns s1 s2 ns' s3. FuseIoctl demo_os (demo_env\<lparr>env_inplace := False\<rparr>) VERIFS_CHECKPOINT 5 (demo_attr_fs, Map.empty)
      = Some ([ReplyIoctl], ns, s1, Map.empty) \<and>
    FuseSetXAttr (demo_env\<lparr>env_inplace := False\<rparr>) 2 ''user.n'' [1, 2] 0 s1 = Some ([ReplyErr 0], s2) \<and>
    FuseIoctl demo_os (demo_env\<lparr>env_inplace := False\<rparr>) VERIFS_RESTORE 5 (s2, Map.empty)
      = Some ([ReplyIoctl], ns', s3, Map.empty) \<and>
    FuseGetXAttr 2 ''user.n'' 64 s3 = None"
  by (rule restored_xattr_is_stale [OF demo_attr_fs_ok, of 2 demo_attr_file _ 1 1 "[7]"])
    (simp_all add: demo_attr_fs_def demo_attr_file_def live_def GetInode_def HasNoLinks_def heap_wf_def demo_env_def demo_file_def put_inode_def)

end
