(* ===== verification/Tools.thy ===== *)
theory Tools
  imports Machine_Props
begin

text \<open>
  The command-line tools \<^verbatim>\<open>ckpt.cpp\<close>, \<^verbatim>\<open>restore.cpp\<close>, \<^verbatim>\<open>pkl.cpp\<close> and \<^verbatim>\<open>load.cpp\<close>: each opens the mount point and
  issues one ioctl; the last two first write the path of the state file to the configuration file.
  A tool is a function of its arguments and of the file system and disk it acts on; its result is
  the exit status and the new state.

  From outside come \<open>opens\<close>, whether \<^verbatim>\<open>open\<close> on the mount point succeeds, and \<open>ioctl\<close>, the system call.
\<close>

section \<open>Numbers\<close>

text \<open>
  \<^verbatim>\<open>strtoul\<close> in base 10: white space, a sign, and the longest run of digits; a value out of range is
  the largest one, and a minus sign negates modulo the width.
\<close>

definition is_space :: "char \<Rightarrow> bool" where
  "is_space c \<longleftrightarrow> (of_char c :: nat) \<in> {9, 10, 11, 12, 13, 32}"

definition strtoul :: "string \<Rightarrow> u64" where
  "strtoul str =
     (let s = dropWhile is_space str;
          (neg, s) = (case s of
             [] \<Rightarrow> (False, [])
           | c # cs \<Rightarrow> if c = CHR ''-'' then (True, cs) else if c = CHR ''+'' then (False, cs) else (False, s));
          ds = takeWhile (\<lambda>c. 48 \<le> (of_char c :: nat) \<and> (of_char c :: nat) \<le> 57) s;
          n = foldl (\<lambda>a c. 10 * a + (of_char c - 48)) (0 :: nat) ds
      in if n \<ge> 2 ^ 64 then - 1 else if neg then - of_nat n else of_nat n)"

section \<open>The tools\<close>

type_synonym 'w ioctl = "u32 \<Rightarrow> u64 \<Rightarrow> 'w \<Rightarrow> (int \<times> 'w) option"

definition ckpt_main :: "(string \<Rightarrow> bool) \<Rightarrow> 'w ioctl \<Rightarrow> string list \<Rightarrow> 'w \<Rightarrow> (int \<times> 'w) option" where
  "ckpt_main opens ioctl args w =
     (if length args < 3 then Some (1, w)
      else
        let mp = args ! 1; key = strtoul (args ! 2) in
        if \<not> opens mp then Some (1, w)
        else do {
          (ret, w') \<leftarrow> ioctl VERIFS_CHECKPOINT key w;
          Some (if ret = 0 then 0 else 1, w')
        })"

definition restore_main :: "(string \<Rightarrow> bool) \<Rightarrow> 'w ioctl \<Rightarrow> string list \<Rightarrow> 'w \<Rightarrow> (int \<times> 'w) option" where
  "restore_main opens ioctl args w =
     (if length args < 3 then Some (1, w)
      else
        let mp = args ! 1; key = strtoul (args ! 2) in
        if \<not> opens mp then Some (1, w)
        else do {
          (ret, w') \<leftarrow> ioctl VERIFS_RESTORE key w;
          Some (if ret = 0 then 0 else 1, w')
        })"

text \<open>The configuration file: opened for writing and truncated, then one write; the exit status on failure.\<close>

definition write_cfg :: "os \<Rightarrow> string \<Rightarrow> string \<Rightarrow> disk \<Rightarrow> int \<times> disk" where
  "write_cfg os cfg path d =
     (if os_open os cfg \<noteq> 0 then (2, d)
      else
        let pathlen = min (length path) PATH_MAX; res = os_write os 0 pathlen in
        if res < 0 then (3, d(cfg \<mapsto> []))
        else (0, d(cfg \<mapsto> take (nat res) (bytes_of_string (take pathlen path)))))"

definition pkl_main ::
    "(string \<Rightarrow> bool) \<Rightarrow> (fs \<times> disk) ioctl \<Rightarrow> os \<Rightarrow> string list \<Rightarrow> fs \<times> disk \<Rightarrow> (int \<times> fs \<times> disk) option" where
  "pkl_main opens ioctl os args = (\<lambda>(s, d).
     if length args < 3 then Some (1, s, d)
     else if \<not> opens (args ! 1) then Some (1, s, d)
     else
       let (err, d') = write_cfg os VERIFS_PICKLE_CFG (args ! 2) d in
       if err \<noteq> 0 then Some (err, s, d')
       else do {
         (ret, w') \<leftarrow> ioctl VERIFS_PICKLE 0 (s, d');
         Some (if ret = 0 then 0 else 1, w')
       })"

definition load_main ::
    "(string \<Rightarrow> bool) \<Rightarrow> (fs \<times> disk) ioctl \<Rightarrow> os \<Rightarrow> string list \<Rightarrow> fs \<times> disk \<Rightarrow> (int \<times> fs \<times> disk) option" where
  "load_main opens ioctl os args = (\<lambda>(s, d).
     if length args < 3 then Some (1, s, d)
     else if \<not> opens (args ! 1) then Some (1, s, d)
     else
       let (err, d') = write_cfg os VERIFS_LOAD_CFG (args ! 2) d in
       if err \<noteq> 0 then Some (err, s, d')
       else do {
         (ret, w') \<leftarrow> ioctl VERIFS_LOAD 0 (s, d');
         Some (if ret = 0 then 0 else 1, w')
       })"

section \<open>The system call on a mounted file system\<close>

text \<open>
  The kernel sends the ioctl to the file system and returns 0 when it is answered by \<^verbatim>\<open>fuse_reply_ioctl\<close>, which
  the code always calls with the result 0, and -1 when it is answered by an error.
\<close>

definition fuse_ioctl :: "os \<Rightarrow> env \<Rightarrow> (fs \<times> disk) ioctl" where
  "fuse_ioctl os e cmd arg w =
     map_option (\<lambda>(rs, ns, w'). (if rs = [ReplyIoctl] then 0 else - 1, w')) (FuseIoctl os e cmd arg w)"

end
