(* ===== verification/Xattr_Frames.thy ===== *)
theory Xattr_Frames
  imports Machine_Props Attr_Props
begin

text \<open>
  The values of extended attributes in the inode table, as blocks of the heap, and that every request but those
  that set one leaves the heap alone and adds no value: method by method, then handler by handler.
\<close>

section \<open>The values of the table\<close>

text \<open>The pointer and size under an inode number and a name.\<close>

definition xslot :: "fs \<Rightarrow> ino_t \<times> string \<Rightarrow> (ptr \<times> size_t) option" where
  "xslot s = (\<lambda>(ino, name). case GetInode ino s of None \<Rightarrow> None | Some i \<Rightarrow> map_of (m_xattr i) name)"

text \<open>A null pointer has size 0, another points to a block of its size.\<close>

definition block_ok :: "heap \<Rightarrow> ptr \<times> size_t \<Rightarrow> bool" where
  "block_ok h = (\<lambda>(p, sz). if p = nullptr then sz = 0 else \<exists>b. h_mem h p = Some b \<and> length b = unat sz)"

definition xattrs_owned :: "fs \<Rightarrow> bool" where
  "xattrs_owned s \<longleftrightarrow> heap_wf (xheap s) \<and> (\<forall>k v. xslot s k = Some v \<longrightarrow> block_ok (xheap s) v) \<and>
     (\<forall>k k' p sz sz'. xslot s k = Some (p, sz) \<longrightarrow> xslot s k' = Some (p, sz') \<longrightarrow> p \<noteq> nullptr \<longrightarrow> k = k')"

text \<open>A change that leaves the heap alone and adds no value.\<close>

definition frames_xattrs :: "fs \<Rightarrow> fs \<Rightarrow> bool" where
  "frames_xattrs s s' \<longleftrightarrow> xheap s' = xheap s \<and> xslot s' \<subseteq>\<^sub>m xslot s"

lemma frames_refl [simp, intro]: "frames_xattrs s s"
  by (simp add: frames_xattrs_def)

lemma frames_trans [trans]: "frames_xattrs s s' \<Longrightarrow> frames_xattrs s' s'' \<Longrightarrow> frames_xattrs s s''"
  by (auto simp: frames_xattrs_def intro: map_le_trans)

lemma frames_owned: "frames_xattrs s s' \<Longrightarrow> xattrs_owned s \<Longrightarrow> xattrs_owned s'"
  unfolding frames_xattrs_def xattrs_owned_def map_le_def by (metis domIff option.distinct(1))

text \<open>The bytes of a value, and that requests have kept or removed those outside \<open>K\<close>.\<close>

definition value_at :: "fs \<Rightarrow> ino_t \<times> string \<Rightarrow> byte list option" where
  "value_at s k = (case xslot s k of None \<Rightarrow> None | Some (p, sz) \<Rightarrow> if p = nullptr then Some [] else h_mem (xheap s) p)"

definition values_kept :: "(ino_t \<times> string) set \<Rightarrow> fs \<Rightarrow> fs \<Rightarrow> bool" where
  "values_kept K s s' \<longleftrightarrow> (\<forall>k. k \<notin> K \<longrightarrow> value_at s' k = None \<or> value_at s' k = value_at s k)"

lemma values_kept_trans: "values_kept K s s' \<Longrightarrow> values_kept K s' s'' \<Longrightarrow> values_kept K s s''"
  unfolding values_kept_def by metis

lemma frames_values: "frames_xattrs s s' \<Longrightarrow> values_kept K s s'"
proof -
  assume f: "frames_xattrs s s'"
  have "value_at s' k = None \<or> value_at s' k = value_at s k" for k
  proof (cases "xslot s' k")
    case (Some v)
    with f have "xslot s k = Some v" unfolding frames_xattrs_def map_le_def by (metis domI)
    moreover have "xheap s' = xheap s" using f by (simp add: frames_xattrs_def)
    ultimately show ?thesis using Some by (cases v) (simp add: value_at_def)
  qed (simp add: value_at_def)
  then show ?thesis by (simp add: values_kept_def)
qed

lemma xslot_simps [simp]:
  "xslot (s\<lparr>m_stbuf := x\<rparr>) = xslot s" "xslot (s\<lparr>readdirStates := y\<rparr>) = xslot s" "xslot (s\<lparr>state_pool := z\<rparr>) = xslot s"
  "xslot (s\<lparr>DeletedInodes := q\<rparr>) = xslot s" "xslot (s\<lparr>xheap := h\<rparr>) = xslot s"
  by (simp_all add: xslot_def)

lemma frames_simps [simp]:
  "frames_xattrs s (t\<lparr>m_stbuf := x\<rparr>) = frames_xattrs s t" "frames_xattrs s (t\<lparr>readdirStates := y\<rparr>) = frames_xattrs s t"
  "frames_xattrs s (t\<lparr>state_pool := z\<rparr>) = frames_xattrs s t" "frames_xattrs s (t\<lparr>DeletedInodes := q\<rparr>) = frames_xattrs s t"
  by (simp_all add: frames_xattrs_def)

lemma frames_slots:
  assumes "xheap s' = xheap s"
    and "\<And>k j. GetInode k s' = Some j \<Longrightarrow> m_xattr j = [] \<or> (\<exists>i. GetInode k s = Some i \<and> map_of (m_xattr j) \<subseteq>\<^sub>m map_of (m_xattr i))"
  shows "frames_xattrs s s'"
  unfolding frames_xattrs_def map_le_def
proof (intro conjI ballI assms(1))
  fix k
  assume k: "k \<in> dom (xslot s')"
  obtain ino name where kk: "k = (ino, name)" by fastforce
  with k obtain j where j: "GetInode ino s' = Some j" "map_of (m_xattr j) name \<noteq> None"
    by (auto simp: xslot_def split: option.splits)
  with assms(2) [OF j(1)] obtain i where "GetInode ino s = Some i" "map_of (m_xattr j) name = map_of (m_xattr i) name"
    by (auto simp: map_le_def)
  with j(1) show "xslot s' k = xslot s k" by (simp add: xslot_def kk)
qed

lemma frames_put:
  assumes "GetInode ino s = Some i" "map_of (m_xattr j) \<subseteq>\<^sub>m map_of (m_xattr i)"
  shows "frames_xattrs s (put_inode ino j s)"
  by (rule frames_slots) (use assms in \<open>auto simp: GetInode_put_inode split: if_splits\<close>)

lemma frames_put_new: "m_xattr i = [] \<Longrightarrow> frames_xattrs s (put_inode ino i s)"
  by (rule frames_slots) (auto simp: GetInode_put_inode split: if_splits)

lemma nth_update_None: "xs[n := None] ! k = Some x \<Longrightarrow> k < length xs \<Longrightarrow> xs ! k = Some x"
  by (cases "n < length xs"; cases "n = k") (simp_all add: list_update_beyond)

lemma frames_delete: "frames_xattrs s (DeleteInode ino s)"
  by (rule frames_slots) (auto simp: DeleteInode_def GetInode_Some dest: nth_update_None)

lemma frames_delete_counted: "frames_xattrs s (DeleteInode ino (s\<lparr>m_stbuf := b\<rparr>))"
  using frames_trans [OF _ frames_delete, of s "s\<lparr>m_stbuf := b\<rparr>"] by simp

lemma frames_modify:
  assumes "modify_inode ino g s = Some s'" "\<And>i. m_xattr (g i) = m_xattr i"
  shows "frames_xattrs s s'"
  using assms by (auto simp: modify_inode_def bind_eq_Some_conv intro!: frames_put)

definition keeps_xattrs :: "(statvfs \<times> Inode \<Rightarrow> ('r \<times> statvfs \<times> Inode) option) \<Rightarrow> bool" where
  "keeps_xattrs f \<longleftrightarrow> (\<forall>sb i r sb' i'. f (sb, i) = Some (r, sb', i') \<longrightarrow> m_xattr i' = m_xattr i)"

lemma frames_on_inode: "on_inode ino f s = Some (r, s') \<Longrightarrow> keeps_xattrs f \<Longrightarrow> frames_xattrs s s'"
  by (auto simp: on_inode_def keeps_xattrs_def bind_eq_Some_conv intro!: frames_put)

section \<open>Methods\<close>

lemma UpdateSize_xattr: "Directory_UpdateSize d (sb, i) = Some (sb', i') \<Longrightarrow> m_xattr i' = m_xattr i"
  by (auto simp: Directory_UpdateSize_def Let_def split: if_splits)

lemma children_keep_xattrs [simp]:
  "keeps_xattrs (AddChild_nolock name ino)" "keeps_xattrs (AddChild name ino)"
  "keeps_xattrs (RemoveChild_nolock e name)" "keeps_xattrs (RemoveChild e name)"
  by (auto simp: keeps_xattrs_def AddChild_nolock_def AddChild_def RemoveChild_nolock_def RemoveChild_def
      bind_eq_Some_conv Let_def dest!: UpdateSize_xattr split: if_splits)

lemma UpdateChild_xattr: "m_xattr (snd (UpdateChild_nolock e name ino i)) = m_xattr i"
  by (simp add: UpdateChild_nolock_def Let_def)

lemma file_keeps_xattrs [simp]: "keeps_xattrs (File_FileTruncate e n)" "keeps_xattrs (WriteAndReply e data off)"
  by (auto simp: keeps_xattrs_def File_FileTruncate_def WriteAndReply_def File_WriteAndReply_def bind_eq_Some_conv Let_def
      split: if_splits option.splits inode_obj.splits)

lemma ReadAndReply_xattr: "ReadAndReply e sz off i = Some (r, i') \<Longrightarrow> m_xattr i' = m_xattr i"
  by (auto simp: ReadAndReply_def File_ReadAndReply_def bind_eq_Some_conv Let_def split: if_splits inode_obj.splits)

lemma link_count_xattr [simp]:
  "m_xattr (IncrementLinkCount i) = m_xattr i" "m_xattr (DecrementLinkCount i) = m_xattr i"
  by (simp_all add: IncrementLinkCount_def DecrementLinkCount_def)

lemma drop_links_xattr: "m_xattr (drop_links i) = m_xattr i"
  by (induction i rule: drop_links.induct) (subst drop_links.simps, simp)

lemma Initialize_xattr: "Initialize e ino mode nlink gid uid (sb, i) = Some (sb', i') \<Longrightarrow> m_xattr i' = m_xattr i"
  by (auto simp: Initialize_def Directory_Initialize_def SymLink_Initialize_def Inode_Initialize_def Let_def
      dest!: UpdateSize_xattr split: inode_obj.splits if_splits)

lemma create_object_xattr: "create_object e mode dev link = Inr (i, n) \<Longrightarrow> m_xattr i = []"
  by (auto simp: create_object_def Let_def new_File_def new_Directory_def new_SpecialInode_def new_SymLink_def new_Inode_def
      split: if_splits option.splits)

section \<open>The table\<close>

lemma frames_register:
  assumes "RegisterInode e i mode nlink gid uid s = Some (ino, s')" "m_xattr i = []"
  shows "frames_xattrs s s'"
proof -
  obtain t sb i' where t: "(if DeletedInodes s = [] then Some (AddInode i s)
      else do { (ino, s') \<leftarrow> PopOneDeletedInode s; Some (ino, UpdateInode ino i s') }) = Some (ino, t)"
    "Initialize e ino mode nlink gid uid (UpdateUsedInodes 1 (m_stbuf t), i) = Some (sb, i')"
    "frames_xattrs s s' = frames_xattrs s (put_inode ino i' t)"
    using assms(1) by (auto simp: RegisterInode_def Let_def bind_eq_Some_conv put_inode_def split: prod.splits)
  have "m_xattr i' = []" using Initialize_xattr [OF t(2)] assms(2) by simp
  then have "frames_xattrs t (put_inode ino i' t)" by (rule frames_put_new)
  moreover have "frames_xattrs s t"
  proof (cases "DeletedInodes s")
    case Nil
    with t(1) assms(2) show ?thesis
      by (intro frames_slots) (auto simp: AddInode_def GetInode_Some nth_append less_Suc_eq split: if_splits)
  next
    case (Cons n q)
    with t(1) have "t = put_inode n i (s\<lparr>DeletedInodes := q\<rparr>)" by (auto simp: PopOneDeletedInode_def UpdateInode_def)
    moreover have "frames_xattrs s (s\<lparr>DeletedInodes := q\<rparr>)" by simp
    ultimately show ?thesis using frames_put_new [OF assms(2)] frames_trans by blast
  qed
  ultimately show ?thesis using t(3) frames_trans by blast
qed

section \<open>Handlers\<close>

text \<open>A handler that leaves the values alone, if it returns.\<close>

definition frames_out :: "fs \<Rightarrow> outcome \<Rightarrow> bool" where
  "frames_out s out \<longleftrightarrow> (\<forall>rs s'. out = Some (rs, s') \<longrightarrow> frames_xattrs s s')"

lemma frames_out_simps [simp]:
  "frames_out s None" "frames_out s (Some (rs, s')) \<longleftrightarrow> frames_xattrs s s'"
  "frames_out s (fuse_reply_err n s') \<longleftrightarrow> frames_xattrs s s'"
  by (simp_all add: frames_out_def fuse_reply_err_def)

lemma frames_out_bind:
  assumes "\<And>x t. m = Some (x, t) \<Longrightarrow> frames_xattrs s t \<and> frames_out t (f (x, t))"
  shows "frames_out s (Option.bind m f)"
  using assms unfolding frames_out_def by (cases m) (auto intro: frames_trans)

lemma frames_out_modify:
  assumes "\<And>i. m_xattr (g i) = m_xattr i" "\<And>t. frames_out t (f t)"
  shows "frames_out s (Option.bind (modify_inode ino g s) f)"
  using assms frames_modify [of ino g s] unfolding frames_out_def
  by (cases "modify_inode ino g s") (auto intro: frames_trans)

lemma frames_out_on_inode:
  assumes "keeps_xattrs m" "\<And>x t. frames_out t (f (x, t))"
  shows "frames_out s (Option.bind (on_inode ino m s) f)"
  using assms by (intro frames_out_bind) (auto dest: frames_on_inode)

lemma frames_reply [simp]: "frames_out s (reply_entry ino s)" "frames_out s (reply_create ino s)"
  by (auto simp: frames_out_def reply_entry_def reply_create_def Inode_ReplyEntry_def Inode_ReplyCreate_def
      bind_eq_Some_conv intro!: frames_put)

lemma live_Some: "live ino s = Some i \<Longrightarrow> GetInode ino s = Some i"
  by (auto simp: live_def split: option.splits if_splits)

lemma frames_create:
  assumes "do_create_node e ctx p name mode dev link s = Some (n, s')"
  shows "frames_xattrs s s'"
proof (cases "create_object e mode dev link")
  case (Inl err)
  with assms show ?thesis by (simp add: do_create_node_def)
next
  case (Inr c)
  obtain i links where c: "c = (i, links)" by fastforce
  then have new: "m_xattr i = []" using create_object_xattr Inr by blast
  show ?thesis
  proof (cases "GetFreeInodes (m_stbuf s) \<le> 0")
    case True
    with assms Inr c show ?thesis by (simp add: do_create_node_def)
  next
    case False
    from assms False Inr c obtain ino s1 s2 ret s3 where
      r: "RegisterInode e i mode links (ctx_gid ctx) (ctx_uid ctx) s = Some (ino, s1)"
      and d: "(if S_ISDIR mode then do {
                     (_, s') \<leftarrow> on_inode ino (AddChild ''.'' ino) s1;
                     p \<leftarrow> GetInode p s';
                     (_, s'') \<leftarrow> on_inode ino (AddChild ''..'' (GetIno p)) s';
                     Some s''
                   } else Some s1) = Some s2"
      and a: "on_inode p (AddChild name ino) s2 = Some (ret, s3)"
      and f: "(if ret < 0 then do {
              node \<leftarrow> GetInode ino s3;
              let sb = UpdateUsedBlocks (UsedBlocks node) (UpdateUsedInodes (-1) (m_stbuf s3));
              Some (ret, DeleteInode ino (s3\<lparr>m_stbuf := sb\<rparr>))
            }
            else do {
              s4 \<leftarrow> (if S_ISDIR mode then modify_inode p IncrementLinkCount s3 else Some s3);
              Some (sint ino, s4)
            }) = Some (n, s')"
      by (auto simp: do_create_node_def bind_eq_Some_conv)
    have "frames_xattrs s s1" by (rule frames_register [OF r new])
    also have "frames_xattrs s1 s2"
      using d by (auto simp: bind_eq_Some_conv split: if_splits dest!: frames_on_inode intro: frames_trans)
    also have "frames_xattrs s2 s3" using frames_on_inode [OF a] by simp
    also have "frames_xattrs s3 s'"
      using f frames_delete_counted
      by (auto simp: bind_eq_Some_conv Let_def split: if_splits dest: frames_modify)
    finally show ?thesis .
  qed
qed

lemma frames_created:
  assumes "\<And>n t. frames_out t (f (n, t))"
  shows "frames_out s (Option.bind (do_create_node e ctx p name mode dev link s) f)"
  using assms frames_create by (intro frames_out_bind) blast

lemmas frames_steps = frames_out_modify frames_out_on_inode frames_created

lemma lookup_frames: "frames_out s (FuseLookup p name s)"
  by (auto simp: FuseLookup_def Let_def split: option.splits)

lemma setattr_frames: "frames_out s (FuseSetAttr e ino a f s)"
proof (cases "live ino s")
  case (Some i)
  have "m_xattr (snd (Inode_ReplySetAttr e a f i)) = m_xattr i" by (simp add: Inode_ReplySetAttr_def Let_def)
  then have "frames_xattrs s (put_inode ino (snd (Inode_ReplySetAttr e a f i)) s)"
    by (intro frames_put [OF live_Some [OF Some]]) simp
  moreover have "frames_out t (do { i' \<leftarrow> GetInode ino t; Some ([Inode_ReplyAttr i'], t) })" for t
    by (cases "GetInode ino t") simp_all
  ultimately show ?thesis using Some
    by (auto simp: FuseSetAttr_def case_prod_beta intro!: frames_out_on_inode)
qed (simp add: FuseSetAttr_def)

lemma create_frames:
  "frames_out s (FuseMknod e c p name m r s)" "frames_out s (FuseMkdir e c p name m s)"
  "frames_out s (FuseCreate e c p name m s)"
  by (auto simp: FuseMknod_def FuseMkdir_def FuseCreate_def intro!: frames_created split: option.splits)

lemma symlink_frames: "frames_out s (FuseSymlink e c link p name s)"
proof -
  have out: "frames_out s (Option.bind m (\<lambda>(rs, t). Some (r1 @ r2 @ rs, t)))" if "frames_out s m" for m r1 r2
    using that by (auto simp: frames_out_def bind_eq_Some_conv)
  show ?thesis
  proof (cases "live p s")
    case (Some d)
    have body: "frames_out s (if ChildInodeNumberWithName name d \<noteq> INO_NOTFOUND then fuse_reply_err EEXIST s
                 else do {
                   (ino, s') \<leftarrow> do_create_node e c p name (0x1FF OR S_IFLNK) 0 (Some link) s;
                   if ino > 0 then reply_entry (word_of_int ino) s' else fuse_reply_err (- ino) s'
                 })" by (auto intro!: frames_created)
    show ?thesis unfolding FuseSymlink_def Let_def Some option.case
      by (cases "is_Directory d")
        (simp_all only: if_True if_False not_True_eq_False not_False_eq_True frames_out_simps frames_refl out [OF body])
  qed (simp add: FuseSymlink_def)
qed

lemma link_frames: "frames_out s (FuseLink ino p name s)"
  by (auto simp: FuseLink_def intro!: frames_steps split: option.splits)

lemma unlink_frames: "frames_out s (FuseUnlink e p name s)"
  by (auto simp: FuseUnlink_def Let_def intro!: frames_steps split: option.splits)

lemma rmdir_frames: "frames_out s (FuseRmdir e p name s)"
  by (auto simp: FuseRmdir_def Let_def drop_links_xattr intro!: frames_steps split: option.splits)

lemma forget_frames: "frames_out s (FuseForget ino n s)"
proof (cases "GetInode ino s")
  case (Some i)
  then have "frames_xattrs s (put_inode ino (i\<lparr>m_nlookup := k\<rparr>) s)" for k by (rule frames_put) simp
  with Some show ?thesis by (simp add: FuseForget_def Inode_Forget_def Let_def frames_delete)
qed (simp add: FuseForget_def)

lemma rename_frames: "frames_out s (FuseRename e p name q name' s)"
proof -
  have move: "frames_out s (rename_move e p name q name' src i s)" for src i
    by (auto simp: rename_move_def intro!: frames_steps)
  have replace: "frames_out s (rename_replace e p name q name' src i ex x s)" for src i ex x
    by (auto simp: rename_replace_def Let_def UpdateChild_xattr intro!: frames_steps)
  show ?thesis by (auto simp: FuseRename_def Let_def move replace split: option.splits)
qed

lemma write_frames: "frames_out s (FuseWrite e ino b off s)"
  by (auto simp: FuseWrite_def intro!: frames_steps split: option.splits)

lemma read_frames: "frames_out s (FuseRead e ino sz off s)"
  by (auto simp: FuseRead_def frames_out_def fuse_reply_err_def bind_eq_Some_conv
      intro!: frames_put dest: live_Some ReadAndReply_xattr split: option.splits)

lemma prepare_frames: "PrepareReaddir rand d off s = Some (Inr (key, t)) \<Longrightarrow> frames_xattrs s t"
  by (auto simp: PrepareReaddir_def Let_def bind_eq_Some_conv split: if_splits option.splits)

lemma readdir_frames: "frames_out s (FuseReadDir e rand dsz ino sz off s)"
proof (cases "live ino s")
  case (Some d)
  show ?thesis
  proof (cases "PrepareReaddir rand d off s")
    case (Some x)
    with \<open>live ino s = Some d\<close> prepare_frames [of rand d off s] show ?thesis
      by (cases x) (auto simp: FuseReadDir_def frames_out_def fuse_reply_err_def bind_eq_Some_conv Let_def RecycleStates_def
        put_ctx_def)
  qed (use Some in \<open>simp add: FuseReadDir_def\<close>)
qed (simp add: FuseReadDir_def)

lemma getx_frames: "frames_out s (FuseGetXAttr ino name sz s)" "frames_out s (FuseListXAttr e ino sz s)"
  by (auto simp: FuseGetXAttr_def FuseListXAttr_def frames_out_def fuse_reply_err_def bind_eq_Some_conv split: option.splits)

lemma removex_frames: "frames_out s (FuseRemoveXAttr ino name s)"
proof (cases "live ino s")
  case (Some i)
  have "map_of (m_xattr (snd (Inode_RemoveXAttrAndReply name i))) \<subseteq>\<^sub>m map_of (m_xattr i)"
    by (auto simp: Inode_RemoveXAttrAndReply_def map_le_def split: option.splits)
  with live_Some [OF Some] Some show ?thesis
    by (simp add: FuseRemoveXAttr_def case_prod_beta frames_put)
qed (simp add: FuseRemoveXAttr_def)

end
