(* ===== verification/Xattr_Safety.thy ===== *)
theory Xattr_Safety
  imports Xattr_Frames
begin

text \<open>
  Extended attributes as long as nothing is restored: every value of the inode table has a block of the heap of
  its own, as long as the size recorded for it. Setting a value keeps this, so that the attribute requests
  never follow a stale pointer, and a value stays what it is until it is set again or removed.
\<close>

section \<open>Setting a value\<close>

lemma ownedD:
  assumes "xattrs_owned s"
  shows "heap_wf (xheap s)" "xslot s k = Some v \<Longrightarrow> block_ok (xheap s) v"
    "xslot s k = Some (p, sz) \<Longrightarrow> xslot s k' = Some (p, sz') \<Longrightarrow> p \<noteq> nullptr \<Longrightarrow> k = k'"
  using assms unfolding xattrs_owned_def by blast+

lemma ownedI:
  assumes "heap_wf (xheap s)" "\<And>k v. xslot s k = Some v \<Longrightarrow> block_ok (xheap s) v"
    "\<And>k k' p sz sz'. xslot s k = Some (p, sz) \<Longrightarrow> xslot s k' = Some (p, sz') \<Longrightarrow> p \<noteq> nullptr \<Longrightarrow> k = k'"
  shows "xattrs_owned s"
  using assms unfolding xattrs_owned_def by blast

lemma xslot_put:
  assumes "GetInode ino s = Some i"
  shows "xslot (put_inode ino (i\<lparr>m_xattr := map_put name v (m_xattr i)\<rparr>) s) = (xslot s)((ino, name) \<mapsto> v)"
proof
  fix k
  have "unat ino < length (Inodes s)" using assms by (simp add: GetInode_Some)
  with assms show "xslot (put_inode ino (i\<lparr>m_xattr := map_put name v (m_xattr i)\<rparr>) s) k =
      ((xslot s)((ino, name) \<mapsto> v)) k"
    by (cases k) (simp add: xslot_def GetInode_put_inode)
qed

lemma owned_put:
  assumes ok: "xattrs_owned s" and i: "GetInode ino s = Some i" and wf: "heap_wf h" and new: "block_ok h (p, sz)"
    and other: "\<And>k q qz. k \<noteq> (ino, name) \<Longrightarrow> xslot s k = Some (q, qz) \<Longrightarrow> q \<noteq> nullptr \<Longrightarrow>
      q \<noteq> p \<and> h_mem h q = h_mem (xheap s) q"
    and s': "s' = (put_inode ino (i\<lparr>m_xattr := map_put name (p, sz) (m_xattr i)\<rparr>) s)\<lparr>xheap := h\<rparr>"
  shows "xattrs_owned s' \<and> values_kept {(ino, name)} s s'"
proof
  have x: "xslot s' = (xslot s)((ino, name) \<mapsto> (p, sz))" "xheap s' = h" using i by (simp_all add: s' xslot_put)
  show "values_kept {(ino, name)} s s'"
    using other unfolding values_kept_def value_at_def by (auto simp: x split: option.splits)
  show "xattrs_owned s'"
  proof (rule ownedI, goal_cases)
    case (2 k v)
    obtain q qz where v: "v = (q, qz)" by fastforce
    show ?case
    proof (cases "k = (ino, name)")
      case False
      with 2 v have "xslot s k = Some (q, qz)" by (simp add: x)
      with ownedD(2) [OF ok this] other [OF False this] v show ?thesis by (auto simp: block_ok_def x split: if_splits)
    qed (use 2 new in \<open>simp add: x\<close>)
  next
    case (3 k k' q qz qz')
    then show ?case using other ownedD(3) [OF ok] unfolding x fun_upd_apply
      by (metis (no_types, lifting) option.inject prod.inject)
  qed (simp add: wf x)
qed

lemma heap_wf_update: "heap_wf h \<Longrightarrow> h_mem h p \<noteq> None \<Longrightarrow> heap_wf (h\<lparr>h_mem := (h_mem h)(p \<mapsto> b)\<rparr>)"
  by (auto simp: heap_wf_def split: if_splits)

lemma memcpy_fits: "length v \<le> length b \<Longrightarrow> \<exists>b'. memcpy_at 0 v b = Some b' \<and> length b' = length b"
  by (auto simp: memcpy_at_def blit_def)

lemma realloc_owned:
  assumes wf: "heap_wf h" and old: "block_ok h (p, sz)"
  obtains "heap_realloc e p n h = Some (nullptr, h)"
  | q h' b where "heap_realloc e p n h = Some (q, h')" "q \<noteq> nullptr" "heap_wf h'" "h_mem h' q = Some b" "length b = unat n"
      "q = p \<or> h_mem h q = None" "\<And>x. x \<noteq> p \<Longrightarrow> x \<noteq> q \<Longrightarrow> h_mem h' x = h_mem h x"
proof -
  from old obtain b0 where b0: "(if p = nullptr then Some [] else h_mem h p) = Some b0"
    by (auto simp: block_ok_def split: if_splits)
  show thesis
  proof (cases "realloc_buf e b0 n")
    case None
    with b0 that(1) show ?thesis by (simp add: heap_realloc_def)
  next
    case (Some b)
    note len = length_realloc_buf [OF Some]
    show ?thesis
    proof (cases "p \<noteq> nullptr \<and> env_inplace e")
      case True
      with b0 Some have "heap_realloc e p n h = Some (p, h\<lparr>h_mem := (h_mem h)(p \<mapsto> b)\<rparr>)"
        by (simp add: heap_realloc_def)
      moreover have "heap_wf (h\<lparr>h_mem := (h_mem h)(p \<mapsto> b)\<rparr>)" using wf b0 True by (intro heap_wf_update) auto
      ultimately show ?thesis using True len by (rule_tac that(2) [of p "h\<lparr>h_mem := (h_mem h)(p \<mapsto> b)\<rparr>" b]) auto
    next
      case False
      let ?h = "h\<lparr>h_mem := (h_mem h)(p := None, h_next h \<mapsto> b), h_next := Suc (h_next h)\<rparr>"
      have "heap_realloc e p n h = Some (h_next h, ?h)" using b0 Some False by (auto simp: heap_realloc_def)
      moreover have "heap_wf ?h" "h_next h \<noteq> nullptr" "h_mem h (h_next h) = None"
        using wf unfolding heap_wf_def by (auto simp: less_Suc_eq split: if_splits)
      ultimately show ?thesis using len by (rule_tac that(2) [of "h_next h" ?h b]) auto
    qed
  qed
qed

text \<open>The pointer and size that a set request starts from.\<close>

definition set_from :: "Inode \<Rightarrow> string \<Rightarrow> ptr \<times> size_t" where
  "set_from i name = (case map_of (m_xattr i) name of None \<Rightarrow> (nullptr, 0) | Some v \<Rightarrow> v)"

lemma set_from_owned:
  assumes ok: "xattrs_owned s" and i: "GetInode ino s = Some i" and ps: "set_from i name = (p, sz)"
  shows "block_ok (xheap s) (p, sz)"
    "k \<noteq> (ino, name) \<Longrightarrow> xslot s k = Some (q, qz) \<Longrightarrow> q \<noteq> nullptr \<Longrightarrow> q \<noteq> p"
proof -
  have slot: "xslot s (ino, name) = map_of (m_xattr i) name" using i by (simp add: xslot_def)
  with ps ownedD(2) [OF ok, of "(ino, name)"] show "block_ok (xheap s) (p, sz)"
    by (auto simp: set_from_def block_ok_def split: option.splits)
  show "k \<noteq> (ino, name) \<Longrightarrow> xslot s k = Some (q, qz) \<Longrightarrow> q \<noteq> nullptr \<Longrightarrow> q \<noteq> p"
    using ownedD(3) [OF ok, of k q qz "(ino, name)" sz] ps slot by (auto simp: set_from_def split: option.splits)
qed

text \<open>A set request that is not refused, when the value does not fit the block and when it does.\<close>

definition set_done :: "env \<Rightarrow> ino_t \<Rightarrow> Inode \<Rightarrow> string \<Rightarrow> byte list \<Rightarrow> u32 \<Rightarrow> fs \<Rightarrow> bool" where
  "set_done e ino i name val flags s \<longleftrightarrow>
     (\<exists>r h j. Inode_SetXAttrAndReply e name val flags 0 (xheap s, i) = Some (r, h, j) \<and>
        xattrs_owned ((put_inode ino j s)\<lparr>xheap := h\<rparr>) \<and> values_kept {(ino, name)} s ((put_inode ino j s)\<lparr>xheap := h\<rparr>))"

definition set_refused :: "Inode \<Rightarrow> string \<Rightarrow> u32 \<Rightarrow> bool" where
  "set_refused i name flags \<longleftrightarrow> (if map_of (m_xattr i) name = None then flag_set flags XATTR_REPLACE else flag_set flags XATTR_CREATE)"

lemma set_doneI:
  assumes "xattrs_owned s" "GetInode ino s = Some i"
    "Inode_SetXAttrAndReply e name val flags 0 (xheap s, i) = Some (r, h, i\<lparr>m_xattr := map_put name (q, n) (m_xattr i)\<rparr>)"
    "heap_wf h" "block_ok h (q, n)"
    "\<And>k x xz. k \<noteq> (ino, name) \<Longrightarrow> xslot s k = Some (x, xz) \<Longrightarrow> x \<noteq> nullptr \<Longrightarrow>
      x \<noteq> q \<and> h_mem h x = h_mem (xheap s) x"
  shows "set_done e ino i name val flags s"
proof -
  have "xattrs_owned t \<and> values_kept {(ino, name)} s t"
    if "t = (put_inode ino (i\<lparr>m_xattr := map_put name (q, n) (m_xattr i)\<rparr>) s)\<lparr>xheap := h\<rparr>" for t
    by (rule owned_put [OF assms(1,2,4,5) _ that]) (rule assms(6))
  with assms(3) show ?thesis unfolding set_done_def by blast
qed

lemma set_grows:
  assumes ok: "xattrs_owned s" and i: "GetInode ino s = Some i" and len: "length val < 2 ^ 64"
    and go: "\<not> set_refused i name flags" and ps: "set_from i name = (p, sz)" and grow: "sz < of_nat (length val)"
  shows "set_done e ino i name val flags s"
proof -
  let ?n = "of_nat (length val) :: size_t"
  have n: "unat ?n = length val" using len by (simp add: unat_of_nat_64)
  note src = set_from_owned [OF ok i ps]
  from ownedD(1) [OF ok] src(1) show ?thesis
  proof (cases rule: realloc_owned [where e = e and n = ?n])
    case 1
    with go ps grow have "Inode_SetXAttrAndReply e name val flags 0 (xheap s, i) =
      Some (ReplyErr E2BIG, xheap s, i\<lparr>m_xattr := map_put name (p, sz) (m_xattr i)\<rparr>)"
      by (auto simp: set_refused_def set_from_def Inode_SetXAttrAndReply_def Let_def split: if_splits)
    then show ?thesis by (rule set_doneI [OF ok i _ ownedD(1) [OF ok] src(1)]) (use src(2) in auto)
  next
    case (2 q h b)
    from memcpy_fits [of val b] 2(5) n obtain b' where b': "memcpy_at 0 val b = Some b'" "length b' = unat ?n" by auto
    let ?h = "h\<lparr>h_mem := (h_mem h)(q \<mapsto> b')\<rparr>"
    have "Inode_SetXAttrAndReply e name val flags 0 (xheap s, i) =
      Some (ReplyErr 0, ?h, i\<lparr>m_xattr := map_put name (q, ?n) (m_xattr i)\<rparr>)"
      using go ps grow 2 b'
      by (auto simp: set_refused_def set_from_def Inode_SetXAttrAndReply_def Let_def split: if_splits)
    moreover have "heap_wf ?h" "block_ok ?h (q, ?n)" using 2 b' by (auto intro: heap_wf_update simp: block_ok_def)
    moreover have "x \<noteq> q \<and> h_mem ?h x = h_mem (xheap s) x"
      if k: "k \<noteq> (ino, name)" "xslot s k = Some (x, xz)" "x \<noteq> nullptr" for k x xz
    proof -
      have "h_mem (xheap s) x \<noteq> None" using ownedD(2) [OF ok k(2)] k(3) by (auto simp: block_ok_def)
      with 2(6) src(2) [OF k] have "x \<noteq> q" by auto
      with 2(7) src(2) [OF k] show ?thesis by simp
    qed
    ultimately show ?thesis by (rule set_doneI [OF ok i])
  qed
qed

lemma set_fits:
  assumes ok: "xattrs_owned s" and i: "GetInode ino s = Some i" and len: "length val < 2 ^ 64"
    and go: "\<not> set_refused i name flags" and ps: "set_from i name = (p, sz)" and fits: "\<not> sz < of_nat (length val)"
  shows "set_done e ino i name val flags s"
proof -
  note src = set_from_owned [OF ok i ps]
  have n: "length val \<le> unat sz" using fits len by (simp add: word_less_nat_alt unat_of_nat_64)
  show ?thesis
  proof (cases "p = nullptr")
    case True
    with src(1) n have "sz = 0" "val = []" by (auto simp: block_ok_def)
    with True go ps fits have "Inode_SetXAttrAndReply e name val flags 0 (xheap s, i) =
      Some (ReplyErr 0, xheap s, i\<lparr>m_xattr := map_put name (p, sz) (m_xattr i)\<rparr>)"
      by (auto simp: set_refused_def set_from_def Inode_SetXAttrAndReply_def Let_def split: if_splits)
    then show ?thesis by (rule set_doneI [OF ok i _ ownedD(1) [OF ok] src(1)]) (use src(2) in auto)
  next
    case p: False
    from src(1) p obtain b where b: "h_mem (xheap s) p = Some b" "length b = unat sz" by (auto simp: block_ok_def)
    from memcpy_fits [of val b] n obtain b' where b': "memcpy_at 0 val b = Some b'" "length b' = unat sz" by (auto simp: b(2))
    let ?h = "(xheap s)\<lparr>h_mem := (h_mem (xheap s))(p \<mapsto> b')\<rparr>"
    have "Inode_SetXAttrAndReply e name val flags 0 (xheap s, i) =
      Some (ReplyErr 0, ?h, i\<lparr>m_xattr := map_put name (p, sz) (m_xattr i)\<rparr>)"
      using go fits ps p b b'
      by (auto simp: set_refused_def set_from_def Inode_SetXAttrAndReply_def Let_def split: if_splits)
    moreover have "heap_wf ?h" "block_ok ?h (p, sz)"
      using b b' p ownedD(1) [OF ok] by (auto intro: heap_wf_update simp: block_ok_def)
    ultimately show ?thesis by (rule set_doneI [OF ok i]) (use src(2) in auto)
  qed
qed

lemma set_owned:
  assumes ok: "xattrs_owned s" and i: "GetInode ino s = Some i" and len: "length val < 2 ^ 64"
  shows "set_done e ino i name val flags s"
proof (cases "set_refused i name flags")
  case True
  have "Inode_SetXAttrAndReply e name val flags 0 (xheap s, i) = Some (ReplyErr (if map_of (m_xattr i) name = None then ENODATA else EEXIST), xheap s, i)"
    using True by (auto simp: set_refused_def Inode_SetXAttrAndReply_def split: if_splits)
  moreover have "(put_inode ino i s)\<lparr>xheap := xheap s\<rparr> = s" using i by (simp add: put_inode_same)
  ultimately show ?thesis using ok frames_values [OF frames_refl] by (simp add: set_done_def)
next
  case False
  obtain p sz where "set_from i name = (p, sz)" by fastforce
  with set_grows [OF assms False] set_fits [OF assms False] show ?thesis by blast
qed

section \<open>Requests and runs\<close>

text \<open>All requests but a restore; a value to set has a size.\<close>

fun quiet :: "request \<Rightarrow> bool" where
  "quiet (Req_Ioctl c a) = (c \<noteq> VERIFS_RESTORE)"
| "quiet (Req_SetXAttr i n v f) = (length v < 2 ^ 64)"
| "quiet _ = True"

fun sets_xattr :: "request \<Rightarrow> (ino_t \<times> string) set" where
  "sets_xattr (Req_SetXAttr i n v f) = {(i, n)}"
| "sets_xattr _ = {}"

lemma FuseSetXAttr_owned:
  assumes "xattrs_owned s" "length v < 2 ^ 64"
  shows "\<exists>rs s'. FuseSetXAttr e i n v f s = Some (rs, s') \<and> xattrs_owned s' \<and> values_kept {(i, n)} s s'"
proof (cases "live i s")
  case None
  with assms(1) frames_values [OF frames_refl] show ?thesis by (simp add: FuseSetXAttr_def fuse_reply_err_def)
next
  case (Some x)
  from set_owned [OF assms(1) live_Some [OF Some] assms(2), of e n f] obtain r h j where
    "Inode_SetXAttrAndReply e n v f 0 (xheap s, x) = Some (r, h, j)"
    "xattrs_owned ((put_inode i j s)\<lparr>xheap := h\<rparr>)" "values_kept {(i, n)} s ((put_inode i j s)\<lparr>xheap := h\<rparr>)"
    unfolding set_done_def by blast
  with Some show ?thesis by (simp add: FuseSetXAttr_def)
qed

lemmas request_frames = lookup_frames setattr_frames create_frames symlink_frames link_frames unlink_frames rmdir_frames
  forget_frames rename_frames write_frames read_frames readdir_frames getx_frames removex_frames

lemma handle_fs_frames: "sets_xattr r = {} \<Longrightarrow> frames_out s (handle_fs w r s)"
  by (cases r) (auto simp: request_frames FuseGetAttr_def FuseReadLink_def FuseOpen_def FuseFlush_def FuseRelease_def FuseFsync_def
    FuseOpenDir_def FuseReleaseDir_def FuseFsyncDir_def FuseStatfs_def FuseAccess_def FuseGetLock_def split: option.splits)

lemma handle_fs_owned:
  assumes "xattrs_owned s" "quiet r" "handle_fs w r s = Some (rs, s')"
  shows "xattrs_owned s' \<and> values_kept (sets_xattr r) s s'"
proof (cases "sets_xattr r = {}")
  case True
  from handle_fs_frames [OF True, of s w] assms(3) have "frames_xattrs s s'" by simp
  with assms(1) show ?thesis using frames_owned frames_values by blast
next
  case False
  then obtain i n v f where r: "r = Req_SetXAttr i n v f" by (cases r) auto
  with FuseSetXAttr_owned [OF assms(1), of v "w_env w" i n f] assms(2,3) show ?thesis by auto
qed

lemma pickle_frames: "pickle_verifs2 os e s d = Some (r, s', d') \<Longrightarrow> frames_xattrs s s'"
  by (auto simp: pickle_verifs2_def Let_def split: sum.splits option.splits if_splits Option.bind_splits)

lemma checkpoint_frames: "checkpoint e key s = Some (r, s') \<Longrightarrow> frames_xattrs s s'"
  by (cases "copy_inodes e (Inodes s)"; cases "the (copy_inodes e (Inodes s))")
    (auto simp: checkpoint_def Let_def split: prod.splits if_splits)

lemma ioctl_frames:
  assumes "FuseIoctl os e c a (s, d) = Some (rs, ns, s', d')" "c \<noteq> VERIFS_RESTORE" "c \<noteq> VERIFS_LOAD"
  shows "frames_xattrs s s'"
  using assms by (auto simp: FuseIoctl_def bind_eq_Some_conv split: if_splits dest: pickle_frames checkpoint_frames)

lemma step_owned:
  assumes st: "step (s, d) r rs (s', d')" and q: "quiet r" and ok: "xattrs_owned s"
  shows "xattrs_owned s' \<and> values_kept (sets_xattr r) s s'"
proof -
  from st obtain w where k: "kernel_ok r s" and h: "handle w r (s, d) = Some (rs, s', d')" by (auto elim: stepE)
  show ?thesis
  proof (cases "\<exists>c a. r = Req_Ioctl c a")
    case True
    then obtain c a where r: "r = Req_Ioctl c a" by blast
    with h q k have "frames_xattrs s s'" by (auto simp: handle_def kernel_ok_def intro: ioctl_frames)
    with ok show ?thesis using frames_owned frames_values by blast
  next
    case False
    with h have "handle_fs w r s = Some (rs, s')" by (cases r) (auto simp: handle_def)
    with handle_fs_owned [OF ok q] show ?thesis by blast
  qed
qed

lemma run_owned:
  assumes "run st reqs st'" "list_all quiet reqs" "xattrs_owned (fst st)" "\<forall>r \<in> set reqs. sets_xattr r \<subseteq> K"
  shows "xattrs_owned (fst st') \<and> values_kept K (fst st) (fst st')"
  using assms
proof (induction rule: run.induct)
  case (stop st)
  then show ?case using frames_values [OF frames_refl] by blast
next
  case (more st r rs st' rest st'')
  obtain s d s' d' where st: "st = (s, d)" "st' = (s', d')" by (cases st; cases st')
  from more.hyps(1) more.prems st have o: "xattrs_owned s'" "values_kept (sets_xattr r) s s'"
    using step_owned [of s d r rs s' d'] by simp_all
  from o(2) more.prems(3) have "values_kept K s s'" by (auto simp: values_kept_def)
  with more.IH o(1) more.prems st values_kept_trans show ?case by fastforce
qed

lemma mounted_owned: "mounted s \<Longrightarrow> xattrs_owned s \<and> xslot s = Map.empty"
proof (induction rule: mounted.induct)
  case (mount inodes e umask gid uid blocks s)
  let ?s = "FuseRamFs_new blocks inodes"
  have none: "xslot ?s = Map.empty" by (auto simp: FuseRamFs_new_def xslot_def GetInode_def fun_eq_iff)
  then have "xattrs_owned ?s" by (auto simp: xattrs_owned_def FuseRamFs_new_def heap_wf_def empty_heap_def)
  define s0 where "s0 = ?s\<lparr>m_stbuf := (m_stbuf ?s)\<lparr>f_bfree := f_blocks (m_stbuf ?s), f_bavail := f_blocks (m_stbuf ?s),
    f_ffree := f_files (m_stbuf ?s), f_favail := f_files (m_stbuf ?s), f_flag := 0\<rparr>\<rparr>"
  from mount(2) obtain n s1 m s2 x s3 y where
    r: "RegisterInode e (new_SpecialInode (env_param e) SPECIAL_INODE_TYPE_NO_BLOCK 0) 0 0 gid uid s0 = Some (n, s1)"
      "RegisterInode e (new_Directory (env_param e)) (S_IFDIR OR (0x1FF AND NOT umask)) 2 gid uid s1 = Some (m, s2)"
    and a: "on_inode m (AddChild ''.'' m) s2 = Some (x, s3)" "on_inode m (AddChild ''..'' m) s3 = Some (y, s)"
    by (auto simp: FuseInit_def Let_def bind_eq_Some_conv s0_def split: if_splits)
  have "frames_xattrs ?s s0" by (simp add: s0_def)
  also have "frames_xattrs s0 s1" by (rule frames_register [OF r(1)]) (simp add: new_SpecialInode_def new_Inode_def)
  also have "frames_xattrs s1 s2" by (rule frames_register [OF r(2)]) (simp add: new_Directory_def new_Inode_def)
  also have "frames_xattrs s2 s3" using frames_on_inode [OF a(1)] by simp
  also have "frames_xattrs s3 s" using frames_on_inode [OF a(2)] by simp
  finally have "frames_xattrs ?s s" .
  moreover from this none have "xslot s \<subseteq>\<^sub>m Map.empty" unfolding frames_xattrs_def by metis
  then have "xslot s = Map.empty" unfolding map_le_def by (metis domIff)
  ultimately show ?case using frames_owned \<open>xattrs_owned ?s\<close> by blast
qed

section \<open>Reading and listing\<close>

text \<open>The answer of a get request, in terms of the bytes of the value.\<close>

definition get_answer :: "size_t \<Rightarrow> byte list option \<Rightarrow> reply" where
  "get_answer n v =
     (case v of
        None \<Rightarrow> ReplyErr ENODATA
      | Some b \<Rightarrow> if n = 0 then ReplyXattr (of_nat (length b)) else if unat n < length b then ReplyErr ERANGE else ReplyBuf b)"

lemma get_owned:
  assumes ok: "xattrs_owned s" and l: "live ino s = Some i"
  shows "FuseGetXAttr ino name n s = Some ([get_answer n (value_at s (ino, name))], s)"
proof -
  have slot: "xslot s (ino, name) = map_of (m_xattr i) name" using live_Some [OF l] by (simp add: xslot_def)
  show ?thesis
  proof (cases "map_of (m_xattr i) name")
    case None
    with slot l show ?thesis
      by (simp add: FuseGetXAttr_def Inode_GetXAttrAndReply_def get_answer_def value_at_def)
  next
    case (Some v)
    obtain p len where v: "v = (p, len)" by fastforce
    from ownedD(2) [OF ok, of "(ino, name)"] slot Some v have b: "block_ok (xheap s) (p, len)" by simp
    then obtain b where b: "value_at s (ino, name) = Some b" "length b = unat len" "p = nullptr \<Longrightarrow> b = []"
      "p \<noteq> nullptr \<Longrightarrow> h_mem (xheap s) p = Some b"
      using slot Some v by (auto simp: block_ok_def value_at_def split: if_splits)
    have "Inode_GetXAttrAndReply name n 0 (xheap s, i) = Some (get_answer n (Some b))"
      using Some v b(2-4)
      by (cases "p = nullptr") (auto simp: Inode_GetXAttrAndReply_def get_answer_def mem_read_def word_less_nat_alt unat_eq_zero)
    with l b(1) show ?thesis by (simp add: FuseGetXAttr_def)
  qed
qed

lemma list_size: "length (xattr_list_bytes xs) < 2 ^ 64 \<Longrightarrow> unat (xattr_list_size xs) = length (xattr_list_bytes xs)"
proof -
  have sum: "foldl (\<lambda>acc x. acc + (of_nat (length (fst x)) + 1)) a xs = a + of_nat (length (xattr_list_bytes xs))" for a :: size_t
    by (induction xs arbitrary: a) (simp_all add: xattr_list_bytes_def bytes_of_string_def algebra_simps)
  assume "length (xattr_list_bytes xs) < 2 ^ 64"
  then show ?thesis by (simp add: xattr_list_size_def sum unat_of_nat_64)
qed

lemma list_served:
  assumes "\<And>i. GetInode ino s = Some i \<Longrightarrow> length (xattr_list_bytes (m_xattr i)) < 2 ^ 64"
  shows "\<exists>rs. FuseListXAttr e ino n s = Some (rs, s)"
proof (cases "live ino s")
  case (Some i)
  with assms [OF live_Some [OF Some]] list_size [of "m_xattr i"] show ?thesis
    by (simp add: FuseListXAttr_def Inode_ListXAttrAndReply_def Let_def)
qed (simp add: FuseListXAttr_def fuse_reply_err_def)

section \<open>Every request on the table is served\<close>

definition on_table :: "request \<Rightarrow> bool" where
  "on_table r = (case r of Req_ReadDir _ _ _ \<Rightarrow> False | Req_Ioctl _ _ \<Rightarrow> False | _ \<Rightarrow> True)"

text \<open>The names that a list request asks for, each with its NUL, are fewer bytes than \<^verbatim>\<open>size_t\<close> can count.\<close>

definition names_fit :: "request \<Rightarrow> fs \<Rightarrow> bool" where
  "names_fit r s = (case r of
     Req_ListXAttr ino n \<Rightarrow> (case GetInode ino s of None \<Rightarrow> True | Some i \<Rightarrow> length (xattr_list_bytes (m_xattr i)) < 2 ^ 64)
   | _ \<Rightarrow> True)"

lemma handle_fs_returns:
  assumes "fs_ok s" "kernel_ok r s" "xattrs_owned s" "on_table r" "quiet r" "names_fit r s"
  shows "\<exists>rs s'. handle_fs w r s = Some (rs, s')"
proof (cases "plain r")
  case True
  with handle_fs_served [OF assms(1,2), of w] show ?thesis by (auto simp: served_def)
next
  case False
  with assms(4) consider i n v f where "r = Req_SetXAttr i n v f" | i n z where "r = Req_GetXAttr i n z"
    | i z where "r = Req_ListXAttr i z"
    by (cases r) (simp_all add: plain_def on_table_def)
  then show ?thesis
  proof cases
    case (1 i n v f)
    with FuseSetXAttr_owned [OF assms(3), of v "w_env w" i n f] assms(5) show ?thesis by auto
  next
    case (2 i n z)
    with get_owned [OF assms(3), of i] show ?thesis by (cases "live i s") (auto simp: FuseGetXAttr_def fuse_reply_err_def)
  next
    case (3 i z)
    with list_served [of i s "w_env w" z] assms(6) show ?thesis by (auto simp: names_fit_def split: option.splits)
  qed
qed

text \<open>A mounted file system with an attribute on its root.\<close>

lemma step_set:
  assumes "FuseSetXAttr demo_env i n v f s = Some (rs, s')"
  shows "step (s, d) (Req_SetXAttr i n v f) rs (s', d)"
  by (rule step.serve [where w = demo_world]) (use assms in \<open>simp_all add: kernel_ok_def handle_def demo_world_def\<close>)

lemma demo_attribute:
  obtains s0 s where "mounted s0" "run (s0, Map.empty) [Req_SetXAttr 1 ''user.k'' [7, 8] 0] (s, Map.empty)" "xattrs_owned s"
    "FuseGetXAttr 1 ''user.k'' 64 s = Some ([ReplyBuf [7, 8]], s)"
proof -
  obtain s0 root nul where s0: "FuseInit demo_env 0x12 0 0 (FuseRamFs_new 100 10) = Some s0" "GetInode 1 s0 = Some root"
    "st_nlink (i_attr root) = 2"
    by (rule FuseInit_ok [where inodes = 10 and e = demo_env and umask = "0x12" and gid = 0 and uid = 0 and blocks = 100]) simp_all
  have m: "mounted s0" by (rule mounted.mount [OF _ s0(1)]) simp
  have l: "live 1 s0 = Some root" using s0(2,3) by (simp add: live_def HasNoLinks_def)
  have own: "xattrs_owned s0" and x: "xslot s0 = Map.empty" using mounted_owned [OF m] by auto
  have none: "map_of (m_xattr root) n = None" for n
    using fun_cong [OF x, of "(1, n)"] s0(2) by (simp add: xslot_def)
  have hold: "xattr_holds (xheap s0) root ''user.k'' []" by (simp add: xattr_holds_def none)
  obtain h p sz where r: "Inode_SetXAttrAndReply demo_env ''user.k'' [7, 8] 0 0 (xheap s0, root) =
      Some (ReplyErr 0, h, root\<lparr>m_xattr := map_put ''user.k'' (p, sz) (m_xattr root)\<rparr>)"
    "p \<noteq> nullptr" "h_mem h p = Some [7, 8]"
    by (rule SetXAttr_run [OF hold ownedD(1) [OF own], of "[7, 8]" 0 demo_env]) (simp_all add: none)
  define s where "s = (put_inode 1 (root\<lparr>m_xattr := map_put ''user.k'' (p, sz) (m_xattr root)\<rparr>) s0)\<lparr>xheap := h\<rparr>"
  have set: "FuseSetXAttr demo_env 1 ''user.k'' [7, 8] 0 s0 = Some ([ReplyErr 0], s)"
    using l r(1) by (simp add: FuseSetXAttr_def s_def)
  with FuseSetXAttr_owned [OF own, of "[7, 8]" demo_env 1 "''user.k''" 0] have os: "xattrs_owned s" by auto
  have "live 1 s = Some (root\<lparr>m_xattr := map_put ''user.k'' (p, sz) (m_xattr root)\<rparr>)"
    using s0(2,3) by (simp add: s_def live_def HasNoLinks_def GetInode_put_inode GetInode_Some)
  from get_owned [OF os this, of "''user.k''" 64] r(2,3) s0(2)
  have "FuseGetXAttr 1 ''user.k'' 64 s = Some ([ReplyBuf [7, 8]], s)"
    by (simp add: value_at_def s_def xslot_put get_answer_def)
  moreover have "run (s0, Map.empty) [Req_SetXAttr 1 ''user.k'' [7, 8] 0] (s, Map.empty)"
    using step_set [OF set] by (auto simp: run_Cons)
  ultimately show ?thesis using that m os by blast
qed

text \<open>
  (C5) As long as no state is restored, the requests on extended attributes are served like all others: from a
  mount, after any requests but restores, every request as the kernel sends it (so no rename onto one of its own
  directories) that is not a listing or an ioctl returns, without following a stale pointer or leaving a block, re-establishes the invariant, and leaves every value of the table with a
  block of its own.
\<close>

theorem xattr_requests_served:
  assumes "mounted s0" "run (s0, d0) reqs (s, d)" "list_all quiet reqs"
    and "kernel_ok r s" "quiet r" "on_table r" "names_fit r s"
  shows "\<exists>rs s'. handle w r (s, d) = Some (rs, s', d) \<and> fs_ok s' \<and> xattrs_owned s'"
proof -
  have own: "xattrs_owned s" using run_owned [OF assms(2,3), of UNIV] mounted_owned [OF assms(1)] by simp
  have ok: "fs_ok s" using reachable_ok [OF reachable_run [OF reachable.init [OF assms(1)] assms(2)]] by simp
  from handle_fs_returns [OF ok assms(4) own assms(6,5,7)] obtain rs s' where h: "handle_fs w r s = Some (rs, s')" by blast
  then have "handle w r (s, d) = Some (rs, s', d)" using assms(6) by (cases r) (simp_all add: handle_def on_table_def)
  moreover have "fs_ok s'" using handle_fs_preserves [OF ok assms(4), of w] h by (simp add: preserves_def)
  ultimately show ?thesis using handle_fs_owned [OF own assms(5) h] by blast
qed

theorem xattr_requests_served_witness:
  "\<exists>s0 s rs s'. mounted s0 \<and> run (s0, Map.empty) [Req_SetXAttr 1 ''user.k'' [7, 8] 0] (s, Map.empty) \<and>
     handle demo_world (Req_SetXAttr 1 ''user.k'' [1, 2, 3] 0) (s, Map.empty) = Some (rs, s', Map.empty) \<and> xattrs_owned s'"
proof -
  obtain s0 s where s: "mounted s0" "run (s0, Map.empty) [Req_SetXAttr 1 ''user.k'' [7, 8] 0] (s, Map.empty)" by (rule demo_attribute)
  from xattr_requests_served [OF s, of "Req_SetXAttr 1 ''user.k'' [1, 2, 3] 0" demo_world] s show ?thesis
    by (auto simp: kernel_ok_def on_table_def names_fit_def)
qed

text \<open>
  (C21) A value stays what it is: as long as no state is restored, a get request answers the bytes that an earlier one
  answered, whatever requests came in between, on other attributes and objects too, unless they set this
  attribute; or the attribute or the object is gone.
\<close>

theorem xattr_value_persists:
  assumes "mounted s0" "run (s0, d0) reqs (s, d)" "list_all quiet reqs"
    and "FuseGetXAttr ino name n s = Some ([ReplyBuf v], s)"
    and "run (s, d) reqs' (s', d')" "list_all quiet reqs'" "\<forall>r \<in> set reqs'. (ino, name) \<notin> sets_xattr r"
  shows "FuseGetXAttr ino name n s' \<in> {Some ([ReplyBuf v], s'), Some ([ReplyErr ENODATA], s'), Some ([ReplyErr ENOENT], s')}"
proof -
  have own: "xattrs_owned s" using run_owned [OF assms(2,3), of UNIV] mounted_owned [OF assms(1)] by simp
  have kept: "xattrs_owned s'" "values_kept (- {(ino, name)}) s s'"
    using run_owned [OF assms(5,6), of "- {(ino, name)}"] own assms(7) by auto
  from assms(4) obtain i where l: "live ino s = Some i" by (cases "live ino s") (auto simp: FuseGetXAttr_def fuse_reply_err_def)
  with get_owned [OF own l, of name n] assms(4) have v: "value_at s (ino, name) = Some v" "n \<noteq> 0" "length v \<le> unat n"
    by (auto simp: get_answer_def split: option.splits if_splits)
  from kept(2) v(1) have w: "value_at s' (ino, name) = None \<or> value_at s' (ino, name) = Some v"
    by (auto simp: values_kept_def)
  show ?thesis
  proof (cases "live ino s'")
    case None
    then show ?thesis by (simp add: FuseGetXAttr_def fuse_reply_err_def)
  next
    case (Some j)
    from get_owned [OF kept(1) Some, of name n] w v(2,3) show ?thesis by (auto simp: get_answer_def)
  qed
qed

theorem xattr_value_persists_witness:
  "\<exists>s0 s s'. mounted s0 \<and> run (s0, Map.empty) [Req_SetXAttr 1 ''user.k'' [7, 8] 0] (s, Map.empty) \<and>
     run (s, Map.empty) [Req_SetXAttr 1 ''user.b'' [9] 0] (s', Map.empty) \<and>
     FuseGetXAttr 1 ''user.k'' 64 s' \<in> {Some ([ReplyBuf [7, 8]], s'), Some ([ReplyErr ENODATA], s'), Some ([ReplyErr ENOENT], s')}"
proof -
  obtain s0 s where s: "mounted s0" "run (s0, Map.empty) [Req_SetXAttr 1 ''user.k'' [7, 8] 0] (s, Map.empty)" "xattrs_owned s"
    "FuseGetXAttr 1 ''user.k'' 64 s = Some ([ReplyBuf [7, 8]], s)" by (rule demo_attribute)
  from FuseSetXAttr_owned [OF s(3), of "[9]" demo_env 1 "''user.b''" 0] obtain rs s' where
    "FuseSetXAttr demo_env 1 ''user.b'' [9] 0 s = Some (rs, s')" by auto
  from step_set [OF this] have r: "run (s, Map.empty) [Req_SetXAttr 1 ''user.b'' [9] 0] (s', Map.empty)"
    by (auto simp: run_Cons)
  from xattr_value_persists [OF s(1,2) _ s(4) r] have
    "FuseGetXAttr 1 ''user.k'' 64 s' \<in> {Some ([ReplyBuf [7, 8]], s'), Some ([ReplyErr ENODATA], s'), Some ([ReplyErr ENOENT], s')}"
    by simp
  with s(1,2) r show ?thesis by blast
qed

end
