(* ===== verification/Pickle_Props.thy ===== *)
theory Pickle_Props
  imports Machine_Props Xattr_Safety
begin

text \<open>
  Pickling and loading at the level of requests: the state file a pickle writes is taken by a load,
  which rebuilds the file system, and a file that is not what was written is refused.
\<close>

section \<open>A pickle followed by a load\<close>

lemma length_existing: "length (existing tab) = live_count tab"
  by (simp add: existing_def live_count_def)

lemma existing_full: "None \<notin> set tab \<Longrightarrow> map Some (existing tab) = tab"
proof (induction tab)
  case (Cons x tab)
  then show ?case by (cases x) simp_all
qed simp

lemma load_verified:
  assumes sys: "system_ok os e path d" and f: "d path = Some f"
  shows "load_verifs2 os e t d =
    (if length f < header_size then Some (- ENOSPC, t)
     else if of_nat (length f) \<noteq> (of_nat (le_nat (take 8 f)) :: size_t) then Some (- EMSGSIZE, t)
     else if os_sha256 os (drop header_size f) \<noteq> take 32 (drop 8 f) then Some (- EINVAL, t)
     else map_option (\<lambda>(_, t'). (0, t')) (load_file_system e (drop header_size f)
       ((clear_states t)\<lparr>Inodes := [], DeletedInodes := []\<rparr>)))"
proof -
  have fetch: "fetch_filepath os e VERIFS_LOAD_CFG d = Inr (Some path)"
    using fetch_filepath_ok(2) [where d' = d, OF sys] by blast
  show ?thesis
    using sys f
    by (auto simp: load_verifs2_def fetch open_rdonly_def verify_state_file_def verify_file_size_def Let_def
        verify_file_integrity_def hash_blocks_all system_ok_def bind_eq_None_conv split: option.splits bind_splits)
qed

lemma load_ignores_writes [simp]:
  "fetch_filepath (os\<lparr>os_write := w\<rparr>) e cfg d = fetch_filepath os e cfg d"
  "load_verifs2 (os\<lparr>os_write := w\<rparr>) e t d = load_verifs2 os e t d"
  by (simp_all add: load_verifs2_def fetch_filepath_def open_rdonly_def verify_state_file_def
      verify_file_size_def verify_file_integrity_def cong: if_cong option.case_cong sum.case_cong)

section \<open>A demonstration\<close>

lemma demo_pickled:
  "\<exists>b. PickleObj empty_heap demo_null = Some b \<and> length b < 1000"
  "\<exists>b. PickleObj empty_heap demo_root = Some b \<and> length b < 1000"
  "\<exists>b. PickleObj empty_heap demo_file = Some b \<and> length b < 1000"
  by (simp_all add: PickleObj_def demo_null_def demo_root_def demo_file_def Inode_Pickle_def File_Pickle_def
      Directory_Pickle_def SpecialInode_Pickle_def m_children_def mem_read_def)

lemma demo_system: "system_ok demo_os demo_env ''/s'' [VERIFS_PICKLE_CFG \<mapsto> bytes_of_string ''/s'']"
  by (simp add: system_ok_def demo_os_def writes_ok_def VERIFS_PICKLE_CFG_def PATH_MAX_def)

lemma demo_picklable: "picklable demo_env empty_heap demo_null" "picklable demo_env empty_heap demo_root"
  "picklable demo_env empty_heap demo_file"
proof -
  have "\<exists>b. PickleObj empty_heap i = Some b \<and> length b < 2 ^ 64"
    if "\<exists>b. PickleObj empty_heap i = Some b \<and> length b < 1000" for i
    using that by (auto intro: less_trans)
  then show "picklable demo_env empty_heap demo_null" "picklable demo_env empty_heap demo_root"
    "picklable demo_env empty_heap demo_file"
    using demo_inodes_ok demo_pickled
    by (simp_all add: picklable_def xattrs_ok_def demo_null_def demo_root_def demo_file_def)
qed

lemma demo_fs_picklable: "fs_picklable demo_os demo_env demo_fs"
  using demo_picklable
  by (auto simp: fs_picklable_def table_picklable_def demo_os_def)

lemma demo_fs_bytes: "header_size + length (fs_bytes demo_os demo_fs) < 2 ^ 64"
proof -
  obtain b0 b1 b2 where "PickleObj empty_heap demo_null = Some b0" "length b0 < 1000"
    "PickleObj empty_heap demo_root = Some b1" "length b1 < 1000"
    "PickleObj empty_heap demo_file = Some b2" "length b2 < 1000" using demo_pickled by blast
  then show ?thesis
    by (simp add: fs_bytes_def table_bytes_def slot_bytes_def queue_bytes_def demo_os_def header_size_def)
qed

text \<open>The first demonstration file system with the slot of number 1 released and queued.\<close>

definition demo_hole :: fs where
  "demo_hole = demo_fs\<lparr>Inodes := [Some demo_null, None, Some demo_file], DeletedInodes := [1]\<rparr>"

lemma demo_hole_picklable: "fs_picklable demo_os demo_env demo_hole"
  using demo_picklable by (auto simp: fs_picklable_def table_picklable_def demo_os_def demo_hole_def)

lemma demo_hole_bytes: "header_size + length (fs_bytes demo_os demo_hole) < 2 ^ 64"
proof -
  obtain b0 b2 where "PickleObj empty_heap demo_null = Some b0" "length b0 < 1000"
    "PickleObj empty_heap demo_file = Some b2" "length b2 < 1000" using demo_pickled by blast
  then show ?thesis
    by (simp add: fs_bytes_def table_bytes_def slot_bytes_def queue_bytes_def demo_os_def header_size_def demo_hole_def)
qed

abbreviation demo_disk :: disk where
  "demo_disk \<equiv> [VERIFS_PICKLE_CFG \<mapsto> bytes_of_string ''/s'']"

section \<open>Properties\<close>

lemma pickle_load_run:
  assumes sys: "system_ok os e path d" and s: "fs_picklable os e s" and h: "heap_wf (xheap t)"
    and len: "header_size + length (fs_bytes os s) < 2 ^ 64"
  obtains t' where "pickle_verifs2 os e s d = Some (0, s, d(path \<mapsto> file_bytes os s))"
    "load_verifs2 os e t (d(path \<mapsto> file_bytes os s)) = Some (0, t')" "m_stbuf t' = m_stbuf s"
    "DeletedInodes t' = DeletedInodes s" "table_loaded (xheap s) (xheap t') (Inodes s) (Inodes t')"
    "list_all2 (state_loaded (xheap s) (xheap t')) (os_order os (state_pool s)) (state_pool t')"
proof -
  let ?t = "(clear_states t)\<lparr>Inodes := [], DeletedInodes := []\<rparr>"
  let ?d = "d(path \<mapsto> file_bytes os s)"
  obtain t' r where l: "load_file_system e (fs_bytes os s) ?t = Some (r, t')" "m_stbuf t' = m_stbuf s"
    "DeletedInodes t' = DeletedInodes s" "table_loaded (xheap s) (xheap t') (Inodes s) (Inodes t')"
    "list_all2 (state_loaded (xheap s) (xheap t')) (os_order os (state_pool s)) (state_pool t')"
    by (rule load_file_system_ok [OF s, of ?t]) (use h in \<open>simp_all add: clear_states_def\<close>)
  have cfg: "?d VERIFS_PICKLE_CFG = d VERIFS_PICKLE_CFG" using sys by (auto simp: system_ok_def)
  have body: "drop header_size (file_bytes os s) = fs_bytes os s"
    using sys by (simp add: file_bytes_def enc_header_def header_size_def system_ok_def)
  have "load_verifs2 os e t ?d = Some (0, t')"
    using fetch_filepath_ok(2) [where d' = "?d", OF sys cfg] verify_ok [OF sys len] sys l(1)
    by (simp add: load_verifs2_def open_rdonly_def system_ok_def body)
  with that pickle_verifs2_ok [OF sys s] l show ?thesis by blast
qed

text \<open>
  (C7) Pickling a file system and loading the file, into this or another process whose heap of attribute
  values is sound, both answer success and rebuild the capacity counters, the queue of reusable
  numbers, every saved state and, in order, every object of the inode table: flags, lookup counts,
  attributes, file contents, entries, link targets, types and extended attributes.
\<close>

theorem pickle_then_load:
  assumes "system_ok os e path d" "fs_picklable os e s" "heap_wf (xheap t)"
    "header_size + length (fs_bytes os s) < 2 ^ 64"
  shows "\<exists>d' t'. pickle_verifs2 os e s d = Some (0, s, d') \<and> load_verifs2 os e t d' = Some (0, t') \<and>
    m_stbuf t' = m_stbuf s \<and> DeletedInodes t' = DeletedInodes s \<and>
    table_loaded (xheap s) (xheap t') (Inodes s) (Inodes t') \<and>
    list_all2 (state_loaded (xheap s) (xheap t')) (os_order os (state_pool s)) (state_pool t')"
  using pickle_load_run [OF assms] by metis

theorem pickle_then_load_witness:
  "\<exists>d' t'. pickle_verifs2 demo_os demo_env demo_fs demo_disk = Some (0, demo_fs, d') \<and>
    load_verifs2 demo_os demo_env demo_tree d' = Some (0, t') \<and> m_stbuf t' = demo_stbuf \<and>
    table_loaded empty_heap (xheap t') [Some demo_null, Some demo_root, Some demo_file] (Inodes t')"
proof -
  have "heap_wf (xheap demo_tree)" by (simp add: demo_tree_def heap_wf_def empty_heap_def)
  from pickle_then_load [OF demo_system demo_fs_picklable this demo_fs_bytes] show ?thesis by auto
qed

text \<open>
  When no slot of the table is empty, the objects come back under their own numbers: every lookup
  in the loaded table finds what the pickled one had, and the tables have the same length.
\<close>

lemma loaded_same_numbers:
  assumes r: "table_loaded (xheap s) (xheap t') (Inodes s) (Inodes t')" and full: "None \<notin> set (Inodes s)"
  shows "length (Inodes t') = length (Inodes s)"
    "GetInode ino s = Some i \<Longrightarrow> \<exists>j. GetInode ino t' = Some j \<and> same_view (xheap s) i (xheap t') j"
proof -
  from r obtain js where js: "Inodes t' = map Some js" "list_all2 (loaded (xheap s) (xheap t')) (existing (Inodes s)) js"
    by (auto simp: table_loaded_def)
  let ?is = "existing (Inodes s)"
  have tab: "Inodes s = map Some ?is" using existing_full [OF full] by simp
  then have len: "length (Inodes s) = length ?is" by (metis length_map)
  have l2: "length js = length ?is" using list_all2_lengthD [OF js(2)] by simp
  show "length (Inodes t') = length (Inodes s)" using js(1) l2 len by simp
  assume g: "GetInode ino s = Some i"
  then have k: "unat ino < length ?is" using len by (simp add: GetInode_Some)
  have "?is ! unat ino = i" using g k tab by (metis GetInode_Some nth_map option.inject)
  moreover have "loaded (xheap s) (xheap t') (?is ! unat ino) (js ! unat ino)" using js(2) k by (simp add: list_all2_nthD)
  ultimately show "\<exists>j. GetInode ino t' = Some j \<and> same_view (xheap s) i (xheap t') j"
    using js(1) k l2 by (simp add: GetInode_def loaded_def)
qed

theorem pickle_load_same_numbers:
  assumes "system_ok os e path d" "fs_picklable os e s" "heap_wf (xheap t)"
    "header_size + length (fs_bytes os s) < 2 ^ 64" and full: "None \<notin> set (Inodes s)"
  shows "\<exists>d' t'. pickle_verifs2 os e s d = Some (0, s, d') \<and> load_verifs2 os e t d' = Some (0, t') \<and>
    length (Inodes t') = length (Inodes s) \<and>
    (\<forall>ino i. GetInode ino s = Some i \<longrightarrow> (\<exists>j. GetInode ino t' = Some j \<and> same_view (xheap s) i (xheap t') j))"
proof -
  obtain t' where r: "pickle_verifs2 os e s d = Some (0, s, d(path \<mapsto> file_bytes os s))"
    "load_verifs2 os e t (d(path \<mapsto> file_bytes os s)) = Some (0, t')"
    "table_loaded (xheap s) (xheap t') (Inodes s) (Inodes t')" by (rule pickle_load_run [OF assms(1-4)])
  with loaded_same_numbers [OF r(3) full] show ?thesis by blast
qed

theorem pickle_load_same_numbers_witness:
  "\<exists>d' t'. pickle_verifs2 demo_os demo_env demo_fs demo_disk = Some (0, demo_fs, d') \<and>
    load_verifs2 demo_os demo_env demo_tree d' = Some (0, t') \<and>
    (\<exists>j. GetInode 2 t' = Some j \<and> same_view empty_heap demo_file (xheap t') j)"
proof -
  have "heap_wf (xheap demo_tree)" "None \<notin> set (Inodes demo_fs)"
    by (simp_all add: demo_tree_def heap_wf_def empty_heap_def)
  from pickle_load_same_numbers [OF demo_system demo_fs_picklable this(1) demo_fs_bytes this(2)]
  obtain d' t' where "pickle_verifs2 demo_os demo_env demo_fs demo_disk = Some (0, demo_fs, d')"
    "load_verifs2 demo_os demo_env demo_tree d' = Some (0, t')"
    "\<forall>ino i. GetInode ino demo_fs = Some i \<longrightarrow>
      (\<exists>j. GetInode ino t' = Some j \<and> same_view (xheap demo_fs) i (xheap t') j)" by blast
  moreover from this(3) have "\<exists>j. GetInode 2 t' = Some j \<and> same_view empty_heap demo_file (xheap t') j"
    by (metis demo_fs_simps(4,8))
  ultimately show ?thesis by blast
qed

text \<open>
  An empty slot is not restored: \<^verbatim>\<open>load_file_system\<close> pushes nothing for it, so the loaded table is
  shorter by the number of empty slots and the objects behind one move to other numbers, while
  directory entries and the queue of reusable numbers keep the old ones.
\<close>

theorem pickle_load_drops_empty_slots:
  assumes "system_ok os e path d" "fs_picklable os e s" "heap_wf (xheap t)"
    "header_size + length (fs_bytes os s) < 2 ^ 64" and hole: "None \<in> set (Inodes s)"
  shows "\<exists>d' t'. pickle_verifs2 os e s d = Some (0, s, d') \<and> load_verifs2 os e t d' = Some (0, t') \<and>
    length (Inodes t') = live_count (Inodes s) \<and> length (Inodes t') < length (Inodes s)"
proof -
  obtain t' where r: "pickle_verifs2 os e s d = Some (0, s, d(path \<mapsto> file_bytes os s))"
    "load_verifs2 os e t (d(path \<mapsto> file_bytes os s)) = Some (0, t')"
    "table_loaded (xheap s) (xheap t') (Inodes s) (Inodes t')" by (rule pickle_load_run [OF assms(1-4)])
  then have "length (Inodes t') = live_count (Inodes s)"
    by (auto simp: table_loaded_def length_existing dest: list_all2_lengthD)
  moreover have "live_count (Inodes s) < length (Inodes s)"
    using hole length_filter_less [of None "Inodes s" "\<lambda>x. x \<noteq> None"] by (simp add: live_count_def)
  ultimately show ?thesis using r(1,2) by auto
qed

theorem pickle_load_drops_empty_slots_witness:
  "\<exists>d' t'. pickle_verifs2 demo_os demo_env demo_hole demo_disk = Some (0, demo_hole, d') \<and>
    load_verifs2 demo_os demo_env demo_tree d' = Some (0, t') \<and> length (Inodes t') = 2"
proof -
  have "heap_wf (xheap demo_tree)" "None \<in> set (Inodes demo_hole)" 
    by (simp_all add: demo_tree_def demo_hole_def heap_wf_def empty_heap_def)
  moreover have "live_count (Inodes demo_hole) = 2" by (simp add: demo_hole_def live_count_def)
  ultimately show ?thesis
    using pickle_load_drops_empty_slots [OF demo_system demo_hole_picklable _ demo_hole_bytes] by metis
qed

text \<open>
  (C34) In every reachable state the buffer that \<^verbatim>\<open>pickle_file_system\<close> allocates for an object is filled
  exactly: \<^verbatim>\<open>GetPickledSize\<close> is the number of bytes \<^verbatim>\<open>Pickle\<close> writes, of every class of object.
\<close>

theorem pickled_size_exact:
  assumes "reachable (s, d)" "GetInode ino s = Some i" "PickleObj (xheap s) i = Some b" "length b < 2 ^ 64"
  shows "length b = unat (GetPickledSize i)"
proof -
  have "inode_ok i" using fs_ok_inode [OF _ assms(2)] reachable_ok [OF assms(1)] by simp
  from PickleObj_size [OF this assms(3)] show ?thesis using assms(4) by (metis unat_of_nat_64)
qed

theorem pickled_size_exact_witness:
  "\<exists>s root b. reachable (s, Map.empty) \<and> GetInode 1 s = Some root \<and> PickleObj (xheap s) root = Some b \<and>
    length b = unat (GetPickledSize root)"
proof -
  obtain s root where s: "FuseInit demo_env 0x12 0 0 (FuseRamFs_new 100 10) = Some s" "GetInode 1 s = Some root"
    "is_Directory root" "m_children root = [(''.'', 1), (''..'', 1)]"
    by (rule FuseInit_ok [where inodes = 10 and e = demo_env and umask = "0x12" and gid = 0 and uid = 0 and blocks = 100]) simp_all
  have m: "mounted s" by (rule mounted.mount [OF _ s(1)]) simp
  then have "xslot s (1, n) = None" for n using mounted_owned by simp
  then have "map_of (m_xattr root) = Map.empty" using s(2) by (simp add: xslot_def fun_eq_iff)
  then have "m_xattr root = []" by simp
  with s(3,4) obtain b where b: "PickleObj (xheap s) root = Some b" "length b < 1000"
    by (cases "m_obj root") (auto simp: is_Directory_def PickleObj_def Directory_Pickle_def Inode_Pickle_def)
  have r: "reachable (s, Map.empty)" by (rule reachable.init [OF m])
  have "length b < 2 ^ 64" using b(2) by simp
  from pickled_size_exact [OF r s(2) b(1) this] r s(2) b(1) show ?thesis by blast
qed

text \<open>
  (C33) A state file is taken only when it is what was written: one that is shorter than its header, whose
  length is not the one its header records, or whose digest differs, is refused with the error of
  that check, and the file system in memory is left as it was.
\<close>

theorem load_rejects_corrupted:
  assumes "system_ok os e path d" "d path = Some f"
    "length f < header_size \<or> of_nat (length f) \<noteq> (of_nat (le_nat (take 8 f)) :: size_t) \<or>
      os_sha256 os (drop header_size f) \<noteq> take 32 (drop 8 f)"
  shows "load_verifs2 os e t d = Some
    (if length f < header_size then - ENOSPC
     else if of_nat (length f) \<noteq> (of_nat (le_nat (take 8 f)) :: size_t) then - EMSGSIZE else - EINVAL, t)"
  using assms(3) by (auto simp: load_verified [OF assms(1,2)])

theorem load_rejects_corrupted_witness:
  "load_verifs2 demo_os demo_env demo_fs (demo_disk(''/s'' \<mapsto> replicate 39 0)) = Some (- ENOSPC, demo_fs) \<and>
   load_verifs2 demo_os demo_env demo_fs (demo_disk(''/s'' \<mapsto> replicate 41 0)) = Some (- EMSGSIZE, demo_fs) \<and>
   load_verifs2 demo_os demo_env demo_fs (demo_disk(''/s'' \<mapsto> 41 # replicate 40 0)) = Some (- EINVAL, demo_fs)"
proof -
  have sys: "system_ok demo_os demo_env ''/s'' (demo_disk(''/s'' \<mapsto> f))" for f
    using demo_system by (simp add: system_ok_def VERIFS_PICKLE_CFG_def)
  let ?f = "41 # replicate 40 (0 :: byte)"
  have le: "le_nat (take 8 (replicate 41 (0 :: byte))) = 0" "le_nat (take 8 ?f) = 41"
    and ne: "os_sha256 demo_os (drop header_size ?f) \<noteq> take 32 (drop 8 ?f)" by code_simp+
  have "load_verifs2 demo_os demo_env demo_fs (demo_disk(''/s'' \<mapsto> replicate 39 0)) = Some (- ENOSPC, demo_fs)"
    using load_rejects_corrupted [OF sys, of "replicate 39 0" "replicate 39 0" demo_fs] by (simp add: header_size_def)
  moreover have "load_verifs2 demo_os demo_env demo_fs (demo_disk(''/s'' \<mapsto> replicate 41 0)) = Some (- EMSGSIZE, demo_fs)"
    using load_rejects_corrupted [OF sys, of "replicate 41 0" "replicate 41 0" demo_fs] le(1)
    by (simp add: header_size_def del: take_replicate)
  moreover have "load_verifs2 demo_os demo_env demo_fs (demo_disk(''/s'' \<mapsto> ?f)) = Some (- EINVAL, demo_fs)"
    using load_rejects_corrupted [OF sys, of ?f ?f demo_fs] ne le(2)
    by (simp add: header_size_def del: take_Cons_numeral drop_Cons_numeral)
  ultimately show ?thesis by blast
qed

text \<open>
  A write the system cuts short is not reported: \<^verbatim>\<open>write_to_file\<close> throws the \<^verbatim>\<open>errno\<close> it has just set
  to 0, the cursor goes back behind the header, and the header then written describes an empty
  body. The request answers success, and the file it leaves is refused when it is loaded.
\<close>

theorem short_write_unreported:
  assumes sys: "system_ok (os\<lparr>os_write := \<lambda>_ n. int n\<rparr>) e path d"
    and w: "os_write os header_size (length (enc_statvfs (m_stbuf s))) = int k"
      "0 < k" "k < length (enc_statvfs (m_stbuf s))" and hd: "os_write os 0 header_size = int header_size"
  shows "\<exists>d'. pickle_verifs2 os e s d = Some (0, s, d') \<and> load_verifs2 os e t d' = Some (- EMSGSIZE, t)"
proof -
  let ?os = "os\<lparr>os_write := \<lambda>_ n. int n\<rparr>" and ?b = "take k (enc_statvfs (m_stbuf s))"
  define f where "f = enc_header (of_nat header_size) (os_sha256 os []) @ ?b"
  let ?d = "d(path \<mapsto> f)"
  have sh: "length (os_sha256 os x) = 32" for x using sys by (simp add: system_ok_def)
  have k: "k < 112" "length ?b = k" using w(3) by simp_all
  have fetch: "fetch_filepath os e VERIFS_PICKLE_CFG d = Inr (Some path)"
    using fetch_filepath_ok(1) [where d' = d, OF sys] by simp
  have "write_to_file os (enc_statvfs (m_stbuf s)) \<lparr>pk_file = [], pk_pos = header_size, pk_hash = [], pk_queue = q\<rparr>
    = (\<lparr>pk_file = replicate header_size 0 @ ?b, pk_pos = header_size + k, pk_hash = [], pk_queue = q\<rparr>, Some 0)" for q
    using w k by (simp add: write_to_file_def Let_def spec_write_def word_less_nat_alt unat_of_nat_64)
  then have run: "pickle_file_system os e s \<lparr>pk_file = [], pk_pos = header_size, pk_hash = [], pk_queue = q\<rparr>
    = Some (0, \<lparr>pk_file = replicate header_size 0 @ ?b, pk_pos = header_size, pk_hash = [], pk_queue = q\<rparr>)" for q
    by (simp add: pickle_file_system_def pickle_body_def write_and_hash_def pk_then_def)
  have "spec_write 0 h (replicate header_size 0 @ ?b) = h @ ?b" if "length h = header_size" for h
    using that by (simp add: spec_write_def)
  then have "pickle_verifs2 os e s d = Some (0, s, ?d)"
    using fetch sys run hd sh
    by (simp add: pickle_verifs2_def system_ok_def header_size_def enc_header_def f_def)
  moreover have "load_verifs2 ?os e t ?d = Some (- EMSGSIZE, t)"
  proof -
    have sys': "system_ok ?os e path ?d" using sys by (auto simp: system_ok_def)
    have "get_u64 (enc_u64 (of_nat header_size) @ os_sha256 os [] @ ?b) = Some (of_nat header_size, os_sha256 os [] @ ?b)"
      by simp
    then have sz: "(of_nat (le_nat (take 8 f)) :: size_t) = of_nat header_size"
      by (simp add: get_u64_def get_bytes_def enc_header_def f_def)
    have len: "length f = header_size + k" using sh k by (simp add: enc_header_def header_size_def f_def)
    have "unat (of_nat k :: size_t) = k" using k(1) by (simp add: unat_of_nat_64)
    then have "(of_nat k :: size_t) \<noteq> 0" using w(2) by auto
    then show ?thesis using load_verified [OF sys', of f t] sz len by simp
  qed
  ultimately show ?thesis by auto
qed

theorem short_write_unreported_witness:
  "\<exists>d'. pickle_verifs2 (demo_os\<lparr>os_write := \<lambda>p n. if p = 40 then 5 else int n\<rparr>) demo_env demo_fs demo_disk
      = Some (0, demo_fs, d') \<and>
    load_verifs2 (demo_os\<lparr>os_write := \<lambda>p n. if p = 40 then 5 else int n\<rparr>) demo_env demo_tree d'
      = Some (- EMSGSIZE, demo_tree)"
proof -
  let ?os = "demo_os\<lparr>os_write := \<lambda>p n. if p = 40 then 5 else int n\<rparr>"
  have "system_ok (?os\<lparr>os_write := \<lambda>_ n. int n\<rparr>) demo_env ''/s'' demo_disk"
    using demo_system by (simp add: demo_os_def)
  from short_write_unreported [OF this, of demo_fs 5 demo_tree] show ?thesis by (simp add: header_size_def)
qed

end
