(* ===== verification/Tools_Props.thy ===== *)
theory Tools_Props
  imports Tools Pickle_Props
begin

text \<open>
  The tools on a mounted file system: a checkpoint made by one and restored by the other, and a
  state file written by one and read by the other.
\<close>

lemma fuse_ioctl_pickle:
  assumes "pickle_verifs2 os e s d = Some (0, s', d')"
  shows "fuse_ioctl os e VERIFS_PICKLE x (s, d) = Some (0, s', d')"
  using assms by (simp add: fuse_ioctl_def FuseIoctl_def ioctl_codes)

lemma fuse_ioctl_load:
  assumes "load_verifs2 os e s d = Some (0, s')"
  shows "fuse_ioctl os e VERIFS_LOAD x (s, d) = Some (0, s', d)"
  using assms by (simp add: fuse_ioctl_def FuseIoctl_def ioctl_codes)

lemma write_cfg_ok:
  assumes "system_ok os e path d'"
  shows "write_cfg os VERIFS_PICKLE_CFG path d = (0, d(VERIFS_PICKLE_CFG \<mapsto> bytes_of_string path))"
  using assms by (simp add: write_cfg_def system_ok_def writes_ok_def bytes_of_string_def Let_def)

lemma cfg_same: "VERIFS_LOAD_CFG = VERIFS_PICKLE_CFG"
  by (simp add: VERIFS_LOAD_CFG_def VERIFS_PICKLE_CFG_def)

text \<open>
  (C31) The tools for pickling and loading agree on the configuration file: the first tool exits with 0 and
  leaves a state file at the path given, and the second, run with that path on this or another
  mount, exits with 0 and rebuilds counters, queue, saved states and the objects of the table in their order. Empty
  slots are not written, so the objects behind one move down; when the table has none, it comes back with the
  same length and every object under its own number, with what a reader sees of it unchanged.
\<close>

theorem tools_pickle_load:
  assumes mp: "opens mp" and sys: "system_ok os e path (d(VERIFS_PICKLE_CFG \<mapsto> bytes_of_string path))"
    and s: "fs_picklable os e s" "heap_wf (xheap t)" "header_size + length (fs_bytes os s) < 2 ^ 64"
  shows "\<exists>d' t'. pkl_main opens (fuse_ioctl os e) os [p, mp, path] (s, d) = Some (0, s, d') \<and>
    load_main opens (fuse_ioctl os e) os [q, mp, path] (t, d') = Some (0, t', d') \<and>
    m_stbuf t' = m_stbuf s \<and> DeletedInodes t' = DeletedInodes s \<and>
    table_loaded (xheap s) (xheap t') (Inodes s) (Inodes t') \<and>
    list_all2 (state_loaded (xheap s) (xheap t')) (os_order os (state_pool s)) (state_pool t') \<and>
    (None \<notin> set (Inodes s) \<longrightarrow> length (Inodes t') = length (Inodes s) \<and>
      (\<forall>ino i. GetInode ino s = Some i \<longrightarrow> (\<exists>j. GetInode ino t' = Some j \<and> same_view (xheap s) i (xheap t') j)))"
proof -
  let ?d = "d(VERIFS_PICKLE_CFG \<mapsto> bytes_of_string path)"
  obtain t' where r: "pickle_verifs2 os e s ?d = Some (0, s, ?d(path \<mapsto> file_bytes os s))"
    "load_verifs2 os e t (?d(path \<mapsto> file_bytes os s)) = Some (0, t')" "m_stbuf t' = m_stbuf s"
    "DeletedInodes t' = DeletedInodes s" "table_loaded (xheap s) (xheap t') (Inodes s) (Inodes t')"
    "list_all2 (state_loaded (xheap s) (xheap t')) (os_order os (state_pool s)) (state_pool t')"
    by (rule pickle_load_run [OF sys s])
  have same: "(?d(path \<mapsto> file_bytes os s))(VERIFS_PICKLE_CFG \<mapsto> bytes_of_string path) = ?d(path \<mapsto> file_bytes os s)"
    using sys by (auto simp: system_ok_def fun_eq_iff)
  have "pkl_main opens (fuse_ioctl os e) os [p, mp, path] (s, d) = Some (0, s, ?d(path \<mapsto> file_bytes os s))"
    using mp fuse_ioctl_pickle [OF r(1)] by (simp add: pkl_main_def write_cfg_ok [OF sys])
  moreover have "load_main opens (fuse_ioctl os e) os [q, mp, path] (t, ?d(path \<mapsto> file_bytes os s))
      = Some (0, t', ?d(path \<mapsto> file_bytes os s))"
    using mp fuse_ioctl_load [OF r(2)] by (simp add: load_main_def cfg_same write_cfg_ok [OF sys] same)
  ultimately show ?thesis using r(3-6) loaded_same_numbers [OF r(5)] by blast
qed

theorem tools_pickle_load_witness:
  "\<exists>d' t'. pkl_main (\<lambda>_. True) (fuse_ioctl demo_os demo_env) demo_os [''pkl'', ''/mnt'', ''/s''] (demo_fs, Map.empty)
      = Some (0, demo_fs, d') \<and>
    load_main (\<lambda>_. True) (fuse_ioctl demo_os demo_env) demo_os [''load'', ''/mnt'', ''/s''] (demo_tree, d') = Some (0, t', d') \<and>
    m_stbuf t' = demo_stbuf \<and> (\<exists>j. GetInode 2 t' = Some j \<and> same_view empty_heap demo_file (xheap t') j)"
proof -
  have "heap_wf (xheap demo_tree)" by (simp add: demo_tree_def heap_wf_def empty_heap_def)
  from tools_pickle_load [OF _ demo_system demo_fs_picklable this demo_fs_bytes, of "\<lambda>_. True" "''/mnt''" "''pkl''" "''load''"]
  obtain d' t' where r: "pkl_main (\<lambda>_. True) (fuse_ioctl demo_os demo_env) demo_os [''pkl'', ''/mnt'', ''/s''] (demo_fs, Map.empty)
      = Some (0, demo_fs, d')"
    "load_main (\<lambda>_. True) (fuse_ioctl demo_os demo_env) demo_os [''load'', ''/mnt'', ''/s''] (demo_tree, d') = Some (0, t', d')"
    "m_stbuf t' = m_stbuf demo_fs"
    "None \<notin> set (Inodes demo_fs) \<longrightarrow>
      (\<forall>ino i. GetInode ino demo_fs = Some i \<longrightarrow> (\<exists>j. GetInode ino t' = Some j \<and> same_view (xheap demo_fs) i (xheap t') j))"
    by blast
  from r(4) [rule_format, of 2 demo_file] r(1-3) show ?thesis by auto
qed

text \<open>
  (C32) The tools for checkpoint and restore: a checkpoint made under a key, whatever requests follow that leave the
  key alone, is given back by the restore tool when its argument denotes the same number, and both
  exit with 0.
\<close>

theorem tools_ckpt_restore:
  assumes ok: "fs_ok s" "Inodes s \<noteq> []" and mp: "opens mp" and key: "map_of (state_pool s) (strtoul k) = None"
    and mem: "env_new e" "\<forall>n. env_alloc e n" and same: "strtoul k' = strtoul k"
    and ck: "ckpt_main opens (fuse_ioctl os e) [p, mp, k] (s, d) = Some (ret, s1, d1)"
    and reqs: "run (s1, d1) reqs (s2, d2)" "list_all (keeps_state (strtoul k)) reqs"
  shows "\<exists>s3. ret = 0 \<and> restore_main opens (fuse_ioctl os e) [q, mp, k'] (s2, d2) = Some (0, s3, d2) \<and>
    Inodes s3 = Inodes s \<and> DeletedInodes s3 = DeletedInodes s \<and> m_stbuf s3 = m_stbuf s"
proof -
  obtain rs ns where f: "FuseIoctl os e VERIFS_CHECKPOINT (strtoul k) (s, d) = Some (rs, ns, s1, d1)"
    "ret = (if rs = [ReplyIoctl] then 0 else 1)"
    using ck mp by (cases "FuseIoctl os e VERIFS_CHECKPOINT (strtoul k) (s, d)") (auto simp: ckpt_main_def fuse_ioctl_def)
  obtain ns' where "rs = [ReplyIoctl]" "FuseIoctl os e VERIFS_RESTORE (strtoul k) (s2, d2) = Some ([ReplyIoctl], ns',
    s2\<lparr>Inodes := Inodes s, DeletedInodes := DeletedInodes s, m_stbuf := m_stbuf s,
      state_pool := filter (\<lambda>x. fst x \<noteq> strtoul k) (state_pool s2)\<rparr>, d2)"
    by (rule checkpoint_run_restore [OF ok(1) key ok(2) mem f(1) reqs])
  with mp same f(2) show ?thesis by (auto simp: restore_main_def fuse_ioctl_def)
qed

theorem tools_ckpt_restore_witness:
  "\<exists>s1 s2 s3. ckpt_main (\<lambda>_. True) (fuse_ioctl demo_os demo_env) [''ckpt'', ''/mnt'', ''7''] (demo_fs, Map.empty)
      = Some (0, s1, Map.empty) \<and> run (s1, Map.empty) [Req_Unlink 1 ''a''] (s2, Map.empty) \<and>
    restore_main (\<lambda>_. True) (fuse_ioctl demo_os demo_env) [''restore'', ''/mnt'', '' 07''] (s2, Map.empty)
      = Some (0, s3, Map.empty) \<and> Inodes s3 = [Some demo_null, Some demo_root, Some demo_file]"
proof -
  let ?s1 = "demo_fs\<lparr>state_pool := [(7, Inodes demo_fs, [], demo_stbuf)]\<rparr>" and ?d = "Map.empty :: disk"
  have k: "strtoul ''7'' = 7" "strtoul '' 07'' = strtoul ''7''" by (simp_all add: strtoul_def is_space_def)
  have ck: "ckpt_main (\<lambda>_. True) (fuse_ioctl demo_os demo_env) [''ckpt'', ''/mnt'', ''7''] (demo_fs, ?d) = Some (0, ?s1, ?d)"
    using Ioctl_checkpoint [OF demo_fs_ok, of demo_env 7 demo_os ?d] by (simp add: ckpt_main_def fuse_ioctl_def k)
  have ok1: "fs_ok ?s1" using demo_fs_ok by (simp add: fs_ok_def)
  have k1: "kernel_ok (Req_Unlink 1 ''a'') ?s1" by (simp add: kernel_ok_def name_known_def dir_lookup_def)
  obtain rs t where h: "handle demo_world (Req_Unlink 1 ''a'') (?s1, ?d) = Some (rs, t, ?d)"
    using handle_fs_served [OF ok1 k1, of demo_world] by (auto simp: plain_def served_def handle_def)
  have r: "run (?s1, ?d) [Req_Unlink 1 ''a''] (t, ?d)"
    by (rule run.more [OF step.serve [OF _ h] run.stop]) (use k1 in simp)
  have "\<exists>s3. (0 :: int) = 0 \<and> restore_main (\<lambda>_. True) (fuse_ioctl demo_os demo_env) [''restore'', ''/mnt'', '' 07''] (t, ?d)
      = Some (0, s3, ?d) \<and> Inodes s3 = Inodes demo_fs \<and> DeletedInodes s3 = DeletedInodes demo_fs \<and> m_stbuf s3 = m_stbuf demo_fs"
    by (rule tools_ckpt_restore [OF demo_fs_ok _ _ _ _ _ k(2) ck r]) (simp_all add: keeps_state_def)
  then show ?thesis using ck r by auto
qed

end
