(* ===== verification/Readdir_Props.thy ===== *)
theory Readdir_Props
  imports Demo Readdir
begin

text \<open>
  Listing a directory at the level of requests: what one response holds, where the key of a listing
  comes from, and where the next response resumes.
\<close>

section \<open>The key search and the size of a response\<close>

lemma fresh_key_from:
  "fresh_key rand used n = Some key \<Longrightarrow> \<exists>k \<ge> n. key = ucast (rand k AND 0xFFFF) \<and> key \<notin> set used"
proof (rule fresh_key.raw_induct
    [where P = "\<lambda>rand used n key. \<exists>k \<ge> n. key = ucast (rand k AND 0xFFFF) \<and> key \<notin> set used"])
  fix f :: "(nat \<Rightarrow> u32) \<Rightarrow> off_t list \<Rightarrow> nat \<Rightarrow> off_t option" and rand used n key
  assume IH: "\<And>rand used n key. f rand used n = Some key \<Longrightarrow>
      \<exists>k \<ge> n. key = ucast (rand k AND 0xFFFF) \<and> key \<notin> set used"
    and eq: "(let key = ucast (rand n AND 0xFFFF :: u32) in
      if key \<in> set used then f rand used (Suc n) else Some key) = Some key"
  show "\<exists>k \<ge> n. key = ucast (rand k AND 0xFFFF) \<and> key \<notin> set used"
  proof (cases "ucast (rand n AND 0xFFFF) \<in> set used")
    case True
    with eq have "f rand used (Suc n) = Some key" by simp
    from IH [OF this] show ?thesis using Suc_leD by blast
  next
    case False
    with eq show ?thesis by (intro exI [of _ n]) (auto simp: Let_def)
  qed
qed

lemma fill_response_bound:
  assumes "fill_response get dsz hasbuf bufSize ctx b n acc = Some (ctx', ents)"
    and "\<And>name. unat (dsz name) < 2 ^ 63" and "unat bufSize < 2 ^ 63"
    and "n \<le> 255" "length acc = n" "listing_bytes dsz acc = unat b" "unat b \<le> unat bufSize"
  shows "length ents \<le> 255 \<and> listing_bytes dsz ents \<le> unat bufSize"
  using assms
proof (induction "length (rd_children ctx) - rd_it ctx" arbitrary: ctx b n acc rule: less_induct)
  case less
  let ?it = "rd_it ctx" and ?ch = "rd_children ctx"
  obtain name ino where c: "?ch ! ?it = (name, ino)" by (cases "?ch ! ?it")
  show ?case
  proof (cases "n < 255 \<and> ?it \<noteq> length ?ch")
    case False
    then have "ents = acc" using less.prems(1)
      by (subst (asm) fill_response.simps) (auto simp: kReadDirEntriesPerResponse_def)
    with less.prems show ?thesis by simp
  next
    case True
    have lt: "?it < length ?ch"
      using True less.prems(1) by (subst (asm) fill_response.simps) (auto simp: kReadDirEntriesPerResponse_def split: if_splits)
    consider (skip) "get ino = None \<or> (\<exists>i. get ino = Some i \<and> HasNoLinks i)"
      | (full) i where "get ino = Some i" "\<not> HasNoLinks i" "bufSize < b + dsz name"
      | (add) i where "get ino = Some i" "\<not> HasNoLinks i" "b + dsz name \<le> bufSize"
      by (cases "get ino") force+
    then show ?thesis
    proof cases
      case skip
      let ?c = "ctx\<lparr>rd_it := Suc ?it\<rparr>"
      have "fill_response get dsz hasbuf bufSize ?c b n acc = Some (ctx', ents)"
        using fill_response_skip [where get = get, OF lt c skip, of n] less.prems(1) True by (simp add: kReadDirEntriesPerResponse_def)
      then show ?thesis using less.hyps [of ?c] less.prems lt by simp
    next
      case full
      then have "ents = acc" using less.prems(1) True
        by (simp add: fill_response_full [OF lt c] kReadDirEntriesPerResponse_def split: if_splits)
      with less.prems show ?thesis by simp
    next
      case add
      let ?e = "\<lparr>d_name = name, d_stat = (GetAttr i)\<lparr>st_ino := ino\<rparr>, d_off = rd_cookie ctx + 1\<rparr>"
      let ?c = "ctx\<lparr>rd_it := Suc ?it, rd_cookie := rd_cookie ctx + 1\<rparr>"
      have hb: hasbuf using add less.prems(1) True lt c
        by (subst (asm) fill_response.simps) (auto simp: kReadDirEntriesPerResponse_def Let_def not_less split: if_splits)
      have run: "fill_response get dsz hasbuf bufSize ?c (b + dsz name) (Suc n) (acc @ [?e]) = Some (ctx', ents)"
        using add less.prems(1) True hb
        by (simp add: fill_response_add [OF lt c] kReadDirEntriesPerResponse_def)
      have "unat (b + dsz name) = unat b + unat (dsz name)"
        using less.prems(2) [of name] less.prems(3,7) by (intro unat_add_64) simp
      then show ?thesis
        using less.hyps [OF _ run] less.prems lt True add(3)
        by (simp add: listing_bytes_def word_le_nat_alt)
    qed
  qed
qed

section \<open>Where a listing resumes\<close>

definition linked :: "(ino_t \<Rightarrow> Inode option) \<Rightarrow> string \<times> ino_t \<Rightarrow> bool" where
  "linked get c \<longleftrightarrow> (case get (snd c) of None \<Rightarrow> False | Some i \<Rightarrow> \<not> HasNoLinks i)"

lemma listing_linked:
  "list_all (linked get) cs \<Longrightarrow> map d_name (listing get cookie cs) = map fst cs"
  "list_all (linked get) cs \<Longrightarrow> listing get cookie cs \<noteq> [] \<Longrightarrow> d_off (last (listing get cookie cs)) = cookie + of_nat (length cs)"
  by (induction get cookie cs rule: listing.induct)
    (auto simp: linked_def add.assoc split: option.splits if_splits)

lemma fill_response_prefix:
  assumes "list_all (linked get) (take k (drop (rd_it ctx) (rd_children ctx)))"
    "rd_it ctx + k \<le> length (rd_children ctx)" "n + k \<le> kReadDirEntriesPerResponse"
    "unat b + (\<Sum>c \<leftarrow> take k (drop (rd_it ctx) (rd_children ctx)). unat (dsz (fst c))) \<le> unat bufSize"
  shows "fill_response get dsz True bufSize ctx b n acc = fill_response get dsz True bufSize
    (ctx\<lparr>rd_it := rd_it ctx + k, rd_cookie := rd_cookie ctx + of_nat k\<rparr>)
    (b + (\<Sum>c \<leftarrow> take k (drop (rd_it ctx) (rd_children ctx)). dsz (fst c))) (n + k)
    (acc @ listing get (rd_cookie ctx) (take k (drop (rd_it ctx) (rd_children ctx))))"
  using assms
proof (induction k arbitrary: ctx b n acc)
  case 0
  then show ?case by simp
next
  case (Suc k)
  let ?it = "rd_it ctx" and ?ch = "rd_children ctx"
  obtain name ino where c: "?ch ! ?it = (name, ino)" by (cases "?ch ! ?it")
  have lt: "?it < length ?ch" using Suc.prems by simp
  then have d: "drop ?it ?ch = (name, ino) # drop (Suc ?it) ?ch" using c by (metis Cons_nth_drop_Suc)
  obtain i where i: "get ino = Some i" "\<not> HasNoLinks i"
    using Suc.prems(1) by (auto simp: d linked_def split: option.splits)
  have le: "unat b + unat (dsz name) \<le> unat bufSize" using Suc.prems(4) by (simp add: d)
  have b': "unat (b + dsz name) = unat b + unat (dsz name)" by (intro unat_add_64 le_less_trans [OF le]) simp
  let ?c = "ctx\<lparr>rd_it := Suc ?it, rd_cookie := rd_cookie ctx + 1\<rparr>"
  have "fill_response get dsz True bufSize ctx b n acc = fill_response get dsz True bufSize ?c (b + dsz name) (Suc n)
      (acc @ [\<lparr>d_name = name, d_stat = (GetAttr i)\<lparr>st_ino := ino\<rparr>, d_off = rd_cookie ctx + 1\<rparr>])"
    using Suc.prems(3) le b' by (intro fill_response_add [where get = get, OF lt c i]) (simp_all add: word_le_nat_alt)
  also have "\<dots> = fill_response get dsz True bufSize (?c\<lparr>rd_it := rd_it ?c + k, rd_cookie := rd_cookie ?c + of_nat k\<rparr>)
    (b + dsz name + (\<Sum>c \<leftarrow> take k (drop (rd_it ?c) (rd_children ?c)). dsz (fst c))) (Suc n + k)
    ((acc @ [\<lparr>d_name = name, d_stat = (GetAttr i)\<lparr>st_ino := ino\<rparr>, d_off = rd_cookie ctx + 1\<rparr>])
      @ listing get (rd_cookie ?c) (take k (drop (rd_it ?c) (rd_children ?c))))"
    using Suc.prems b' by (intro Suc.IH) (simp_all add: d)
  finally show ?case using i by (simp add: d add.assoc)
qed

lemma fill_response_extends:
  assumes "0 < rd_it ctx" "rd_it ctx \<le> length (rd_children ctx)"
  shows "\<exists>ctx' more. fill_response get dsz True bufSize ctx b n acc = Some (ctx', acc @ more)"
  using assms
proof (induction "length (rd_children ctx) - rd_it ctx" arbitrary: ctx b n acc)
  case 0
  then show ?case by (subst fill_response.simps) auto
next
  case (Suc m)
  let ?next = "ctx\<lparr>rd_it := Suc (rd_it ctx)\<rparr>"
  obtain name ino where c: "rd_children ctx ! rd_it ctx = (name, ino)" by (cases "rd_children ctx ! rd_it ctx")
  have m: "m = length (rd_children ctx) - Suc (rd_it ctx)" "Suc (rd_it ctx) \<le> length (rd_children ctx)"
    using Suc.hyps(2) by simp_all
  have skip: "\<exists>ctx' more. fill_response get dsz True bufSize ?next b n acc = Some (ctx', acc @ more)"
    using Suc.hyps(2) Suc.prems by (intro Suc.hyps(1)) auto
  have more: "\<exists>ctx' more. fill_response get dsz True bufSize (?next\<lparr>rd_cookie := k\<rparr>) b' n' (acc @ xs) = Some (ctx', acc @ more)"
    for k b' n' xs
    using Suc.hyps(1) [of "?next\<lparr>rd_cookie := k\<rparr>" b' n' "acc @ xs"] m by auto
  show ?case
    using c skip more Suc.hyps(2) Suc.prems
    by (subst fill_response.simps) (auto simp: Let_def split: option.splits)
qed

lemma unat_sum_list_64:
  "(\<Sum>x \<leftarrow> xs. unat (f x)) < 2 ^ 64 \<Longrightarrow> unat (\<Sum>x \<leftarrow> xs. f x :: u64) = (\<Sum>x \<leftarrow> xs. unat (f x))"
proof (induction xs)
  case (Cons x xs)
  then have "unat (\<Sum>x \<leftarrow> xs. f x) = (\<Sum>x \<leftarrow> xs. unat (f x))" by simp
  with Cons.prems show ?case by (simp add: unat_add_64)
qed simp

lemma key_of_cookie:
  fixes key :: off_t
  assumes key: "key = ucast (r AND 0xFFFF :: u32)" and k: "k < 65536"
  shows "drop_bit 16 ((push_bit 16 key + of_nat k) AND 0xFFFF0000) = key"
    and "0 < k \<Longrightarrow> push_bit 16 key + of_nat k \<noteq> 0"
proof -
  have m: "key AND 0xFFFF = key" unfolding key by (rule bit_word_eqI) (auto simp: bit_simps)
  have f: "(0xFFFF :: u32) = mask 16" by (simp add: mask_eq_exp_minus_1)
  have "key = take_bit 16 key" unfolding key f by (rule bit_word_eqI) (auto simp: bit_simps)
  then have "unat key = take_bit 16 (unat key)" by (metis unsigned_take_bit_eq)
  moreover have "take_bit 16 (unat key) < 65536" using take_bit_nat_less_exp [of 16 "unat key"] by simp
  ultimately have "unat key < 65536" by metis
  then have x: "unat (push_bit 16 key + of_nat k) = unat key * 65536 + k"
    using k by (simp add: push_bit_eq_mult unat_word_ariths unat_of_nat_64)
  then have "unat (drop_bit 16 (push_bit 16 key + of_nat k)) = unat key"
    using k unfolding unat_drop_bit_eq by (simp add: drop_bit_eq_div [of _ "_ :: nat"])
  then have "drop_bit 16 (push_bit 16 key + of_nat k) = key" by (simp add: word_unat_eq_iff)
  then show "drop_bit 16 ((push_bit 16 key + of_nat k) AND 0xFFFF0000) = key"
    using m by (simp add: drop_bit_and)
  show "push_bit 16 key + of_nat k \<noteq> 0" if "0 < k" using x that by auto
qed

lemma recycled_ctx:
  assumes "key \<notin> fst ` set (readdirStates s)" "rd_it ctx \<noteq> length (rd_children ctx)"
  shows "map_of (readdirStates (RecycleStates (put_ctx key ctx
    (s\<lparr>readdirStates := readdirStates s @ [(key, ctx0)]\<rparr>)))) key = Some ctx"
proof -
  have "key \<notin> fst ` set (filter P (map (\<lambda>(k, c). (k, if k = key then ctx else c)) (readdirStates s)))" for P
    using assms(1) by force
  then show ?thesis
    using assms(2) by (simp add: RecycleStates_def put_ctx_def map_of_snoc del: map_of_append)
qed

text \<open>A response that is full after \<open>k\<close> entries leaves the iterator on the last of them.\<close>

lemma fill_response_stops:
  fixes ch :: children
  assumes lk: "\<forall>c \<in> set ch. linked get c" and k: "0 < k" "k < length ch" "k < 255"
    and dsz: "\<And>n. unat (dsz n) < 2 ^ 63" and fits: "(\<Sum>c \<leftarrow> take k ch. unat (dsz (fst c))) \<le> unat B"
    and B: "unat B < 2 ^ 63" and full: "(\<Sum>c \<leftarrow> take (Suc k) ch. unat (dsz (fst c))) > unat B"
  shows "fill_response get dsz True B \<lparr>rd_cookie = c0, rd_it = 0, rd_children = ch\<rparr> 0 0 [] =
    Some (\<lparr>rd_cookie = c0 + of_nat k + 1, rd_it = k - 1, rd_children = ch\<rparr>, listing get c0 (take k ch))"
proof -
  let ?ctx = "\<lparr>rd_cookie = c0, rd_it = 0, rd_children = ch\<rparr>" and ?sum = "\<Sum>c \<leftarrow> take k ch. dsz (fst c)"
  have lkk: "list_all (linked get) (take k ch)" using lk by (auto simp: list_all_iff dest: in_set_takeD)
  obtain name ino where c: "ch ! k = (name, ino)" by (cases "ch ! k")
  have "linked get (name, ino)" using lk k(2) c by (metis nth_mem)
  then obtain i where i: "get ino = Some i" "\<not> HasNoLinks i" by (auto simp: linked_def split: option.splits)
  have "take (Suc k) ch = take k ch @ [(name, ino)]" using k(2) c by (simp add: take_Suc_conv_app_nth)
  then have over: "(\<Sum>c \<leftarrow> take k ch. unat (dsz (fst c))) + unat (dsz name) > unat B" using full by simp
  have sum: "unat ?sum = (\<Sum>c \<leftarrow> take k ch. unat (dsz (fst c)))" using fits B by (intro unat_sum_list_64) simp
  have "unat (?sum + dsz name) = (\<Sum>c \<leftarrow> take k ch. unat (dsz (fst c))) + unat (dsz name)"
    using fits B dsz [of name] sum by (subst unat_add_64) simp_all
  then have big: "B < 0 + ?sum + dsz name" using over by (simp add: word_less_nat_alt)
  show ?thesis
    using fill_response_prefix [of get k ?ctx 0 0 dsz B "[]"] lkk k fits
      fill_response_full [where ctx = "?ctx\<lparr>rd_it := k, rd_cookie := c0 + of_nat k\<rparr>"
        and get = get and name = name and ino = ino and child = i and n = k and bufSize = B and dsz = dsz
        and b = "0 + ?sum" and hasbuf = True and acc = "listing get c0 (take k ch)"] c i big
    by (simp add: kReadDirEntriesPerResponse_def)
qed

text \<open>A response that starts inside the children begins with the entry there, if that fits.\<close>

lemma fill_response_starts:
  assumes it: "rd_it ctx < length (rd_children ctx)" and c: "rd_children ctx ! rd_it ctx = (name, ino)"
    and lk: "linked get (name, ino)" and fit: "dsz name \<le> B"
  obtains ctx' ent more where "fill_response get dsz True B ctx 0 0 [] = Some (ctx', ent # more)" "d_name ent = name"
proof -
  obtain i where i: "get ino = Some i" "\<not> HasNoLinks i" using lk by (auto simp: linked_def split: option.splits)
  let ?e = "\<lparr>d_name = name, d_stat = (GetAttr i)\<lparr>st_ino := ino\<rparr>, d_off = rd_cookie ctx + 1\<rparr>"
  let ?ctx = "ctx\<lparr>rd_it := Suc (rd_it ctx), rd_cookie := rd_cookie ctx + 1\<rparr>"
  obtain ctx' more where "fill_response get dsz True B ?ctx (0 + dsz name) (Suc 0) [?e] = Some (ctx', [?e] @ more)"
    using fill_response_extends [of ?ctx get dsz B "0 + dsz name" "Suc 0" "[?e]"] it by auto
  moreover have "fill_response get dsz True B ctx 0 0 []
      = fill_response get dsz True B ?ctx (0 + dsz name) (Suc 0) ([] @ [?e])"
    using fit by (intro fill_response_add [where get = get, OF it c i]) (simp_all add: kReadDirEntriesPerResponse_def)
  ultimately show ?thesis using that [of ctx' ?e more] by simp
qed

section \<open>The demonstration file systems\<close>

lemma demo_linked: "\<not> HasNoLinks demo_root" "\<not> HasNoLinks demo_file" "\<not> HasNoLinks tree_root"
  "\<not> HasNoLinks tree_d" "\<not> HasNoLinks tree_e"
  by (simp_all add: HasNoLinks_def demo_root_def demo_file_def tree_root_def tree_d_def tree_e_def)

lemma demo_key: "fresh_key of_nat [] 0 = Some 0"
  by (subst fresh_key.simps) simp

lemma demo_states: "readdirStates demo_tree = []"
  by (simp add: demo_tree_def)

section \<open>Properties\<close>

text \<open>
  (C28) A fresh listing of a directory whose linked entries are fewer than 255 and fit the
  response buffer (384 bytes, or less if the kernel asked for less) is complete in one
  response: it lists exactly the entries whose inodes have links, in order, each once, with
  consecutive offsets, and the listing context is recycled.
\<close>

theorem readdir_complete:
  assumes dir: "live ino s = Some dir" "is_Directory dir"
    and key: "fresh_key rand (map fst (readdirStates s)) 0 = Some key"
    and mem: "env_alloc e (min kReadDirBufSize sz)"
    and active: "\<forall>c \<in> set (readdirStates s). rd_it (snd c) \<noteq> length (rd_children (snd c))"
    and few: "length (listing (\<lambda>k. GetInode k s) (push_bit 16 key) (m_children dir)) < 255"
    and room: "listing_bytes dsz (listing (\<lambda>k. GetInode k s) (push_bit 16 key) (m_children dir))
      \<le> unat (min kReadDirBufSize sz)"
  shows "FuseReadDir e rand dsz ino sz 0 s =
    Some ([ReplyDirents (listing (\<lambda>k. GetInode k s) (push_bit 16 key) (m_children dir))], s)"
proof -
  let ?ctx = "\<lparr>rd_cookie = push_bit 16 key, rd_it = 0, rd_children = m_children dir\<rparr>"
  let ?s1 = "s\<lparr>readdirStates := readdirStates s @ [(key, ?ctx)]\<rparr>"
  have new: "key \<notin> fst ` set (readdirStates s)"
    using fresh_key_unused [OF key] by simp
  have prep: "PrepareReaddir rand dir 0 s = Some (Inr (key, ?s1))"
    by (simp add: PrepareReaddir_def key)
  have ctx: "map_of (readdirStates s @ [(key, ?ctx)]) key = Some ?ctx"
    using new by (simp add: map_of_snoc del: map_of_append)
  have get: "(\<lambda>k. GetInode k ?s1) = (\<lambda>k. GetInode k s)" by (simp add: GetInode_def fun_eq_iff)
  have buf: "(if kReadDirBufSize < sz then kReadDirBufSize else sz) = min kReadDirBufSize sz"
    by (auto simp: min_def)
  obtain cookie where fill: "fill_response (\<lambda>k. GetInode k s) dsz True (min kReadDirBufSize sz) ?ctx 0 0 [] =
      Some (?ctx\<lparr>rd_it := length (m_children dir), rd_cookie := cookie\<rparr>,
        listing (\<lambda>k. GetInode k s) (push_bit 16 key) (m_children dir))"
    using fill_response_all [of ?ctx 0 "\<lambda>k. GetInode k s" 0 dsz "min kReadDirBufSize sz" "[]"] few room
    by (auto simp: kReadDirEntriesPerResponse_def)
  have same: "map (\<lambda>(k, c). (k, if k = key then x else c)) (readdirStates s) = readdirStates s" for x
    using new by (intro map_idI) (auto simp: image_iff)
  have keep: "filter (\<lambda>(_, c). rd_it c \<noteq> length (rd_children c)) (readdirStates s) = readdirStates s"
    using active by (intro filter_True) auto
  show ?thesis
    using dir mem by (simp add: FuseReadDir_def prep ctx get buf fill put_ctx_def RecycleStates_def
        same keep del: map_of_append)
qed

theorem readdir_complete_witness:
  "\<exists>ents. FuseReadDir demo_env of_nat (\<lambda>n. 24 + of_nat (length n)) 1 4096 0 demo_fs = Some ([ReplyDirents ents], demo_fs) \<and>
    map d_name ents = [''.'', ''..'', ''a'']"
proof -
  let ?ents = "listing (\<lambda>k. GetInode k demo_fs) 0 (m_children demo_root)"
  have names: "map d_name ?ents = [''.'', ''..'', ''a'']" by (simp add: demo_linked)
  have "length ?ents = length (map d_name ?ents)" "listing_bytes dsz ?ents = (\<Sum>n \<leftarrow> map d_name ?ents. unat (dsz n))" for dsz
    by (simp_all add: listing_bytes_def comp_def)
  then have "length ?ents = 3" "listing_bytes (\<lambda>n. 24 + of_nat (length n)) ?ents = 76" unfolding names by simp_all
  then have "FuseReadDir demo_env of_nat (\<lambda>n. 24 + of_nat (length n)) 1 4096 0 demo_fs = Some ([ReplyDirents ?ents], demo_fs)"
    using readdir_complete [of 1 demo_fs demo_root of_nat 0 demo_env 4096 "\<lambda>n. 24 + of_nat (length n)"] demo_key
    by (simp add: kReadDirBufSize_def)
  with names show ?thesis by (intro exI [of _ ?ents] conjI)
qed

text \<open>
  (C29) No response overruns its buffer: whatever the directory holds and wherever the listing resumes, the
  records of a response take at most the bytes asked for and at most 384, and are at most 255.
\<close>

theorem readdir_within_buffer:
  assumes "FuseReadDir e rand dsz ino sz off s = Some (rs, s')" "ReplyDirents ents \<in> set rs"
    and "\<And>name. unat (dsz name) < 2 ^ 63"
  shows "length ents \<le> 255 \<and> listing_bytes dsz ents \<le> min 384 (unat sz)"
proof -
  let ?n = "if kReadDirBufSize < sz then kReadDirBufSize else sz"
  have n: "unat ?n = min 384 (unat sz)" by (auto simp: kReadDirBufSize_def word_less_nat_alt)
  have "unat ?n < 2 ^ 63" unfolding n by simp
  then have fill: "length ents \<le> 255 \<and> listing_bytes dsz ents \<le> unat ?n"
    if "fill_response get dsz hasbuf ?n ctx 0 0 [] = Some (ctx', ents)" for get hasbuf ctx ctx'
    using fill_response_bound [OF that assms(3)] by (simp add: listing_bytes_def)
  show ?thesis
    using assms(1,2) fill unfolding n FuseReadDir_def fuse_reply_err_def
    by (auto simp: Let_def listing_bytes_def split: option.splits if_splits sum.splits Option.bind_splits)
qed

theorem readdir_within_buffer_witness:
  "\<exists>ents s'. FuseReadDir demo_env of_nat (\<lambda>n. 150) 1 4096 0 demo_fs = Some ([ReplyDirents ents], s') \<and>
    listing_bytes (\<lambda>n. 150) ents \<le> 384"
proof -
  have get: "GetInode k (s\<lparr>readdirStates := x\<rparr>) = GetInode k s" for k s x by (simp add: GetInode_def)
  have "\<exists>ents s'. FuseReadDir demo_env of_nat (\<lambda>n. 150) 1 4096 0 demo_fs = Some ([ReplyDirents ents], s')"
    by (simp add: FuseReadDir_def PrepareReaddir_def demo_key demo_linked fill_response.simps kReadDirBufSize_def
        kReadDirEntriesPerResponse_def get)
  then obtain ents s' where r: "FuseReadDir demo_env of_nat (\<lambda>n. 150) 1 4096 0 demo_fs = Some ([ReplyDirents ents], s')"
    by blast
  from readdir_within_buffer [OF r, of ents] show ?thesis using r by simp
qed

text \<open>
  A listing that needs more than one response sends an entry twice: when the response is full after
  \<open>k\<close> entries the iterator, which still stands on the entry that did not fit, is moved back, so the
  next request, sent with the offset of the last entry received, starts with that last entry again.
\<close>

theorem readdir_sends_entry_twice:
  assumes dir: "live ino s = Some dir" "is_Directory dir" and ch: "m_children dir = ch"
    and key: "fresh_key rand (map fst (readdirStates s)) 0 = Some key" and mem: "\<forall>n. env_alloc e n"
    and lk: "\<forall>c \<in> set ch. linked (\<lambda>k. GetInode k s) c"
    and k: "0 < k" "k < length ch" "k < 255" and sz: "384 \<le> sz" and dsz: "\<forall>n. unat (dsz n) < 2 ^ 63"
    and fits: "(\<Sum>c \<leftarrow> take k ch. unat (dsz (fst c))) \<le> 384" and full: "(\<Sum>c \<leftarrow> take (Suc k) ch. unat (dsz (fst c))) > 384"
  shows "\<exists>ents s1 e2 ents2 s2. FuseReadDir e rand dsz ino sz 0 s = Some ([ReplyDirents ents], s1) \<and>
    map d_name ents = map fst (take k ch) \<and>
    FuseReadDir e rand dsz ino sz (d_off (last ents)) s1 = Some ([ReplyDirents (e2 # ents2)], s2) \<and>
    d_name e2 = d_name (last ents)"
proof -
  let ?get = "\<lambda>k. GetInode k s" and ?B = "kReadDirBufSize" and ?c0 = "push_bit 16 key"
  let ?ctx = "\<lparr>rd_cookie = ?c0, rd_it = 0, rd_children = ch\<rparr>" and ?ents = "listing ?get ?c0 (take k ch)"
  let ?ctx1 = "\<lparr>rd_cookie = ?c0 + of_nat k + 1, rd_it = k - 1, rd_children = ch\<rparr>"
  let ?s0 = "s\<lparr>readdirStates := readdirStates s @ [(key, ?ctx)]\<rparr>"
  let ?s1 = "RecycleStates (put_ctx key ?ctx1 ?s0)"
  obtain r where r: "key = ucast (rand r AND 0xFFFF)" "key \<notin> fst ` set (readdirStates s)"
    using fresh_key_from [OF key] by auto
  have lkk: "list_all (linked ?get) (take k ch)" using lk by (auto simp: list_all_iff dest: in_set_takeD)
  have B: "unat ?B = 384" "(if ?B < sz then ?B else sz) = ?B" using sz by (auto simp: kReadDirBufSize_def)
  have get: "GetInode x ?s0 = GetInode x s" "GetInode x ?s1 = GetInode x s" for x
    by (simp_all add: GetInode_def put_ctx_def RecycleStates_def)
  have "fill_response ?get dsz True ?B ?ctx 0 0 [] = Some (?ctx1, ?ents)"
    by (rule fill_response_stops [OF lk k]) (use dsz fits full B in simp_all)
  moreover have "map_of (readdirStates s @ [(key, ?ctx)]) key = Some ?ctx"
    using r(2) by (simp add: map_of_snoc del: map_of_append)
  ultimately have one: "FuseReadDir e rand dsz ino sz 0 s = Some ([ReplyDirents ?ents], ?s1)"
    using dir ch mem key by (simp add: FuseReadDir_def PrepareReaddir_def get B del: map_of_append)
  have names: "map d_name ?ents = map fst (take k ch)" using listing_linked(1) [OF lkk] by simp
  then have ne: "?ents \<noteq> []" using k by auto
  have off: "d_off (last ?ents) = ?c0 + of_nat k" using listing_linked(2) [OF lkk ne] k by simp
  have ctx1: "map_of (readdirStates ?s1) key = Some ?ctx1" using recycled_ctx [OF r(2)] k by simp
  then have prep: "PrepareReaddir rand dir (d_off (last ?ents)) ?s1 = Some (Inr (key, ?s1))"
    using key_of_cookie [OF r(1), of k] k by (simp add: PrepareReaddir_def off)
  obtain n1 i1 where c1: "ch ! (k - 1) = (n1, i1)" by (cases "ch ! (k - 1)")
  have lk1: "linked ?get (n1, i1)" using lk k(2) c1 by (metis less_imp_diff_less nth_mem)
  have last: "last (take k ch) = (n1, i1)" "take k ch \<noteq> []"
    using take_Suc_conv_app_nth [of "k - 1" ch] k c1 by auto
  have "unat (dsz n1) \<le> (\<Sum>c \<leftarrow> take k ch. unat (dsz (fst c)))"
    using last_in_set [OF last(2)] last by (intro member_le_sum_list) force+
  then have fit: "dsz n1 \<le> ?B" using fits by (simp add: word_le_nat_alt B)
  obtain ctx2 e2 more where two: "fill_response ?get dsz True ?B ?ctx1 0 0 [] = Some (ctx2, e2 # more)" "d_name e2 = n1"
    by (rule fill_response_starts [of ?ctx1 n1 i1 ?get dsz ?B]) (use k c1 lk1 fit in simp_all)
  have "live ino ?s1 = Some dir" using dir(1) unfolding live_def get .
  then have "FuseReadDir e rand dsz ino sz (d_off (last ?ents)) ?s1
      = Some ([ReplyDirents (e2 # more)], RecycleStates (put_ctx key ctx2 ?s1))"
    using dir(2) mem prep ctx1 two by (simp add: FuseReadDir_def get B del: One_nat_def)
  moreover have "d_name (last ?ents) = n1" using names last ne by (metis fst_conv last_map)
  ultimately show ?thesis using one names two(2) by blast
qed

theorem readdir_sends_entry_twice_witness:
  "\<exists>ents s1 e2 ents2 s2. FuseReadDir demo_env of_nat (\<lambda>n. 150) 1 4096 0 demo_tree = Some ([ReplyDirents ents], s1) \<and>
    map d_name ents = [''.'', ''..''] \<and>
    FuseReadDir demo_env of_nat (\<lambda>n. 150) 1 4096 (d_off (last ents)) s1 = Some ([ReplyDirents (e2 # ents2)], s2) \<and>
    d_name e2 = ''..''"
proof -
  have "\<exists>ents s1 e2 ents2 s2. FuseReadDir demo_env of_nat (\<lambda>n. 150) 1 4096 0 demo_tree = Some ([ReplyDirents ents], s1) \<and>
    map d_name ents = map fst (take 2 (m_children tree_root)) \<and>
    FuseReadDir demo_env of_nat (\<lambda>n. 150) 1 4096 (d_off (last ents)) s1 = Some ([ReplyDirents (e2 # ents2)], s2) \<and>
    d_name e2 = d_name (last ents)"
    by (rule readdir_sends_entry_twice [where dir = tree_root and key = 0])
      (simp_all add: demo_key demo_linked linked_def demo_states)
  moreover have "d_name (last ents) = ''..''" if "map d_name ents = [''.'', ''..'']" for ents
    using that by (auto simp: map_eq_Cons_conv)
  ultimately show ?thesis by auto
qed

end
