(* ===== verification/Listing_Keys.thy ===== *)
theory Listing_Keys
  imports Machine_Props Readdir_Props
begin

text \<open>
  The keys of listings in progress over the life of a mounted file system: they are 16 bits wide and no two
  listings share one, whatever requests have been served, so that the search for a key ends as long as one of
  the 65536 is free.
\<close>

section \<open>Handlers that leave the listings alone\<close>

definition lists_out :: "(off_t \<times> ReadDirCtx) list \<Rightarrow> outcome \<Rightarrow> bool" where
  "lists_out L out \<longleftrightarrow> (\<forall>rs s'. out = Some (rs, s') \<longrightarrow> readdirStates s' = L)"

lemma lists_out_simps [simp]:
  "lists_out L None" "lists_out L (Some (rs, s')) \<longleftrightarrow> readdirStates s' = L"
  "lists_out L (fuse_reply_err n s') \<longleftrightarrow> readdirStates s' = L"
  by (auto simp: lists_out_def fuse_reply_err_def)

lemma on_inode_lists: "on_inode ino f s = Some (r, s') \<Longrightarrow> readdirStates s' = readdirStates s"
  by (auto simp: on_inode_def bind_eq_Some_conv)

lemma modify_inode_lists: "modify_inode ino g s = Some s' \<Longrightarrow> readdirStates s' = readdirStates s"
  by (auto simp: modify_inode_def bind_eq_Some_conv)

lemma register_lists: "RegisterInode e i mode nlink gid uid s = Some (ino, s') \<Longrightarrow> readdirStates s' = readdirStates s"
  by (auto simp: RegisterInode_def AddInode_def PopOneDeletedInode_def UpdateInode_def Let_def
      split: Option.bind_splits if_splits list.splits)

lemma delete_lists [simp]: "readdirStates (DeleteInode ino s) = readdirStates s"
  by (simp add: DeleteInode_def)

lemma create_lists:
  assumes "do_create_node e ctx p name mode dev link s = Some (n, s')"
  shows "readdirStates s' = readdirStates s"
  using assms
  by (auto simp: do_create_node_def Let_def dest!: on_inode_lists modify_inode_lists register_lists
      split: sum.splits Option.bind_splits if_splits)

lemma lists_out_modify:
  assumes "readdirStates s = L" "\<And>t. readdirStates t = L \<Longrightarrow> lists_out L (f t)"
  shows "lists_out L (Option.bind (modify_inode ino g s) f)"
  using assms modify_inode_lists [of ino g s] by (cases "modify_inode ino g s") auto

lemma lists_out_on_inode:
  assumes "readdirStates s = L" "\<And>x t. readdirStates t = L \<Longrightarrow> lists_out L (f (x, t))"
  shows "lists_out L (Option.bind (on_inode ino m s) f)"
  using assms on_inode_lists [of ino m s] by (cases "on_inode ino m s") auto

lemma lists_out_create:
  assumes "readdirStates s = L" "\<And>n t. readdirStates t = L \<Longrightarrow> lists_out L (f (n, t))"
  shows "lists_out L (Option.bind (do_create_node e ctx p name mode dev link s) f)"
  using assms create_lists [of e ctx p name mode dev link s] by (cases "do_create_node e ctx p name mode dev link s") auto

lemma lists_reply [simp]:
  "lists_out L (reply_entry ino s) \<longleftrightarrow> readdirStates s = L \<or> GetInode ino s = None"
  "lists_out L (reply_create ino s) \<longleftrightarrow> readdirStates s = L \<or> GetInode ino s = None"
  by (auto simp: reply_entry_def reply_create_def Inode_ReplyEntry_def Inode_ReplyCreate_def split: option.splits Option.bind_splits)

lemmas lists_steps = lists_out_modify lists_out_on_inode lists_out_create

lemma lists_read: "lists_out (readdirStates s) (FuseLookup p name s)" "lists_out (readdirStates s) (FuseGetAttr ino s)"
  "lists_out (readdirStates s) (FuseReadLink ino s)" "lists_out (readdirStates s) (FuseAccess c ino m s)"
  "lists_out (readdirStates s) (FuseRead e ino sz off s)" "lists_out (readdirStates s) (FuseStatfs s)"
  by (auto simp: FuseLookup_def FuseGetAttr_def FuseReadLink_def FuseAccess_def FuseRead_def FuseStatfs_def Let_def
      split: option.splits Option.bind_splits)

lemma lists_open:
  "lists_out (readdirStates s) (FuseOpen i s)" "lists_out (readdirStates s) (FuseRelease i s)"
  "lists_out (readdirStates s) (FuseOpenDir i s)" "lists_out (readdirStates s) (FuseReleaseDir i s)"
  "lists_out (readdirStates s) (FuseFlush i s)" "lists_out (readdirStates s) (FuseFsync i s)"
  "lists_out (readdirStates s) (FuseFsyncDir i s)" "lists_out (readdirStates s) (FuseGetLock i s)"
  by (auto simp: FuseOpen_def FuseRelease_def FuseOpenDir_def FuseReleaseDir_def FuseFlush_def FuseFsync_def
      FuseFsyncDir_def FuseGetLock_def split: option.splits)

lemma lists_create:
  "lists_out (readdirStates s) (FuseMknod e c p name m r s)" "lists_out (readdirStates s) (FuseMkdir e c p name m s)"
  "lists_out (readdirStates s) (FuseCreate e c p name m s)" "lists_out (readdirStates s) (FuseLink ino p name s)"
  by (auto simp: FuseMknod_def FuseMkdir_def FuseCreate_def FuseLink_def intro!: lists_steps split: option.splits)

lemma lists_remove:
  "lists_out (readdirStates s) (FuseUnlink e p name s)" "lists_out (readdirStates s) (FuseRmdir e p name s)"
  "lists_out (readdirStates s) (FuseForget ino n s)" "lists_out (readdirStates s) (FuseWrite e ino b off s)"
  by (auto simp: FuseUnlink_def FuseRmdir_def FuseForget_def FuseWrite_def Let_def intro!: lists_steps split: option.splits prod.splits)

lemma lists_setattr: "lists_out (readdirStates s) (FuseSetAttr e ino a f s)"
proof -
  have reply: "lists_out (readdirStates s) (do { i' \<leftarrow> GetInode ino t; Some ([Inode_ReplyAttr i'], t) })"
    if "readdirStates t = readdirStates s" for t using that by (cases "GetInode ino t") simp_all
  show ?thesis by (auto simp: FuseSetAttr_def case_prod_beta intro!: lists_out_on_inode reply split: option.splits)
qed

lemma lists_symlink: "lists_out (readdirStates s) (FuseSymlink e c link p name s)"
  by (auto simp: FuseSymlink_def lists_out_def fuse_reply_err_def reply_entry_def Inode_ReplyEntry_def Let_def
      dest!: create_lists split: option.splits if_splits Option.bind_splits)

lemma lists_rename: "lists_out (readdirStates s) (FuseRename e p name q name' s)"
proof -
  have move: "lists_out (readdirStates s) (rename_move e p name q name' src i s)" for src i
    by (auto simp: rename_move_def intro!: lists_steps)
  have replace: "lists_out (readdirStates s) (rename_replace e p name q name' src i ex x s)" for src i ex x
    by (auto simp: rename_replace_def Let_def intro!: lists_steps)
  show ?thesis by (auto simp: FuseRename_def Let_def move replace split: option.splits)
qed

lemma lists_xattr:
  "lists_out (readdirStates s) (FuseSetXAttr e ino name v f s)" "lists_out (readdirStates s) (FuseGetXAttr ino name n s)"
  "lists_out (readdirStates s) (FuseListXAttr e ino n s)" "lists_out (readdirStates s) (FuseRemoveXAttr ino name s)"
  by (auto simp: FuseSetXAttr_def FuseGetXAttr_def FuseListXAttr_def FuseRemoveXAttr_def Let_def
      split: option.splits Option.bind_splits prod.splits)

lemma lists_ioctl:
  assumes "FuseIoctl os e c a (s, d) = Some (rs, ns, s', d')" "c \<noteq> VERIFS_LOAD"
  shows "readdirStates s' = readdirStates s"
proof -
  have "checkpoint e a s = Some (r, t) \<Longrightarrow> readdirStates t = readdirStates s" for r t
    by (auto simp: checkpoint_def Let_def split: Option.bind_splits sum.splits prod.splits if_splits)
  moreover have "restore e a s = Some (r, n, t) \<Longrightarrow> readdirStates t = readdirStates s" for r n t
    by (auto simp: restore_def Let_def split: Option.bind_splits sum.splits prod.splits if_splits)
  moreover have "pickle_verifs2 os e s d = Some (r, t, d1) \<Longrightarrow> readdirStates t = readdirStates s" for r t d1
    by (auto simp: pickle_verifs2_def Let_def split: sum.splits option.splits if_splits Option.bind_splits)
  ultimately show ?thesis using assms by (auto simp: FuseIoctl_def bind_eq_Some_conv split: if_splits)
qed

section \<open>The keys\<close>

definition keys_ok :: "fs \<Rightarrow> bool" where
  "keys_ok s \<longleftrightarrow> distinct (map fst (readdirStates s)) \<and> (\<forall>k \<in> set (map fst (readdirStates s)). unat k < 2 ^ 16)"

lemma unat_mask16: "unat (ucast (x AND 0xFFFF :: u32) :: off_t) < 2 ^ 16"
proof -
  have "x AND 0xFFFF = take_bit 16 x" by (simp add: take_bit_eq_mask mask_eq_exp_minus_1)
  then have "unat (x AND 0xFFFF) < 2 ^ 16" using take_bit_nat_less_exp [of 16 "unat x"] by (simp add: unsigned_take_bit_eq)
  then show ?thesis by (simp add: unsigned_ucast_eq take_bit_nat_eq_self)
qed

lemma fresh_key_small: "fresh_key rand used n = Some key \<Longrightarrow> unat key < 2 ^ 16"
  using fresh_key_from [of rand used n key] unat_mask16 by auto

lemma keys_filter: "distinct (map fst xs) \<Longrightarrow> distinct (map fst (filter P xs))"
  by (induction xs) auto

lemma keys_map: "map fst (map (\<lambda>(k, c). (k, if k = key then ctx else c)) xs) = map fst xs"
  by (induction xs) auto

lemma keys_recycle: "keys_ok s \<Longrightarrow> keys_ok (RecycleStates s)"
  by (auto simp: keys_ok_def RecycleStates_def keys_filter)

lemma keys_put_ctx: "keys_ok s \<Longrightarrow> keys_ok (put_ctx key ctx s)"
  unfolding keys_ok_def put_ctx_def by (simp add: keys_map del: map_map)

lemma keys_prepare: "PrepareReaddir rand dir cookie s = Some (Inr (key, s')) \<Longrightarrow> keys_ok s \<Longrightarrow> keys_ok s'"
  using fresh_key_unused [of rand "map fst (readdirStates s)" 0 key] fresh_key_small [of rand "map fst (readdirStates s)" 0 key]
  by (auto simp: PrepareReaddir_def keys_ok_def Let_def split: if_splits option.splits Option.bind_splits)

lemma keys_readdir: "FuseReadDir e rand dsz ino sz off s = Some (rs, s') \<Longrightarrow> keys_ok s \<Longrightarrow> keys_ok s'"
  by (auto simp: FuseReadDir_def fuse_reply_err_def Let_def intro!: keys_recycle keys_put_ctx dest: keys_prepare
      split: option.splits if_splits Option.bind_splits sum.splits prod.splits)

lemma handle_fs_lists:
  assumes "\<And>i z off. r \<noteq> Req_ReadDir i z off"
  shows "lists_out (readdirStates s) (handle_fs w r s)"
proof (cases r)
  case (Req_ReadDir i z off)
  with assms show ?thesis by blast
qed (simp_all add: lists_read lists_open lists_create lists_remove lists_setattr lists_symlink lists_rename lists_xattr)

lemma step_keys:
  assumes st: "step (s, d) r rs (s', d')" and ok: "keys_ok s"
  shows "keys_ok s'"
proof -
  from st obtain w where k: "kernel_ok r s" and h: "handle w r (s, d) = Some (rs, s', d')" by (auto elim: stepE)
  consider (ioctl) c a where "r = Req_Ioctl c a" | (listing) i z off where "r = Req_ReadDir i z off"
    | (other) "\<And>c a. r \<noteq> Req_Ioctl c a" "\<And>i z off. r \<noteq> Req_ReadDir i z off" by blast
  then show ?thesis
  proof cases
    case ioctl
    with k h have "readdirStates s' = readdirStates s" by (auto simp: handle_def kernel_ok_def intro: lists_ioctl)
    with ok show ?thesis by (simp add: keys_ok_def)
  next
    case listing
    with h ok show ?thesis by (auto simp: handle_def intro: keys_readdir)
  next
    case other
    with h have "handle_fs w r s = Some (rs, s')" by (cases r) (auto simp: handle_def)
    with handle_fs_lists [OF other(2), of s w] ok show ?thesis by (simp add: keys_ok_def)
  qed
qed

lemma mounted_keys: "mounted s \<Longrightarrow> readdirStates s = []"
  by (auto simp: mounted.simps FuseInit_def FuseRamFs_new_def Let_def bind_eq_Some_conv dest!: on_inode_lists register_lists
      split: if_splits)

lemma reachable_keys: "reachable st \<Longrightarrow> keys_ok (fst st)"
proof (induction rule: reachable.induct)
  case (init s d)
  then show ?case by (simp add: mounted_keys keys_ok_def)
next
  case (next_step st r rs st')
  then show ?case using step_keys [of "fst st" "snd st" r rs "fst st'" "snd st'"] by simp
qed

section \<open>The search for a key\<close>

text \<open>The values a key can have.\<close>

definition all_keys :: "off_t set" where
  "all_keys = {k. unat k < 2 ^ 16}"

lemma all_keys_image: "all_keys = of_nat ` {..<2 ^ 16}"
proof -
  have "k \<in> of_nat ` {..<2 ^ 16}" if "unat k < 2 ^ 16" for k :: off_t
    by (rule image_eqI [of _ _ "unat k"]) (use that in simp_all)
  moreover have "unat (of_nat n :: off_t) < 2 ^ 16" if "n < 2 ^ 16" for n
    using that by (simp add: unat_of_nat take_bit_nat_eq_self)
  ultimately show ?thesis by (auto simp: all_keys_def)
qed

lemma card_all_keys: "card all_keys = 65536" "finite all_keys"
proof -
  have "inj_on (of_nat :: nat \<Rightarrow> off_t) {..<2 ^ 16}"
    by (rule inj_on_inverseI [where g = unat]) (simp add: unat_of_nat take_bit_nat_eq_self)
  then show "card all_keys = 65536" "finite all_keys" by (simp_all add: all_keys_image card_image)
qed

lemma keys_within:
  assumes "keys_ok s"
  shows "set (map fst (readdirStates s)) \<subseteq> all_keys" "card (set (map fst (readdirStates s))) = length (readdirStates s)"
  using assms distinct_card [of "map fst (readdirStates s)"] by (auto simp: keys_ok_def all_keys_def)

lemma fresh_key_ends: "(\<exists>key. fresh_key rand used n = Some key) \<longleftrightarrow> (\<exists>k. ucast (rand (n + k) AND 0xFFFF) \<notin> set used)"
  using fresh_key_returns fresh_key_from by (metis le_Suc_ex)

text \<open>A generator each of whose 16-bit remainders comes up some time, at least once.\<close>

definition draws_all :: "(nat \<Rightarrow> u32) \<Rightarrow> bool" where
  "draws_all rand \<longleftrightarrow> (\<forall>v < 2 ^ 16. \<exists>n. rand n AND 0xFFFF = of_nat v)"

lemma draws_all_key:
  assumes "draws_all rand" "k \<in> all_keys"
  shows "\<exists>n. ucast (rand n AND 0xFFFF) = k"
proof -
  have k: "unat k < 2 ^ 16" using assms(2) by (simp add: all_keys_def)
  with assms(1) obtain n where n: "rand n AND 0xFFFF = of_nat (unat k)" unfolding draws_all_def by blast
  have u: "unat (of_nat (unat k) :: u32) = unat k"
    unfolding unat_of_nat using k by (simp add: take_bit_nat_eq_self)
  have "ucast (of_nat (unat k) :: u32) = (of_nat (unat (of_nat (unat k) :: u32)) :: off_t)" by (simp only: of_nat_unat)
  also have "\<dots> = k" unfolding u by simp
  finally have "ucast (rand n AND 0xFFFF) = k" unfolding n .
  then show ?thesis by blast
qed

section \<open>Properties\<close>

text \<open>
  (C30) The search for the key of a new listing. In every reachable state the listings in progress have distinct
  keys of 16 bits, so there are at most 65536. If every 16-bit remainder of \<^verbatim>\<open>rand()\<close> comes up some time, the search
  runs forever exactly when all 65536 keys are taken; otherwise it ends with a key that no listing has, under which a
  context with a copy of the children, positioned at the first of them, is added to the others.
\<close>

theorem listing_key_search:
  assumes "reachable (s, d)" "draws_all rand"
  shows "distinct (map fst (readdirStates s)) \<and> length (readdirStates s) \<le> 65536 \<and>
    (PrepareReaddir rand dir 0 s = None \<longleftrightarrow> length (readdirStates s) = 65536) \<and>
    (length (readdirStates s) < 65536 \<longrightarrow> (\<exists>key. key \<notin> fst ` set (readdirStates s) \<and> unat key < 65536 \<and>
       PrepareReaddir rand dir 0 s = Some (Inr (key, s\<lparr>readdirStates := readdirStates s @
         [(key, \<lparr>rd_cookie = push_bit 16 key, rd_it = 0, rd_children = m_children dir\<rparr>)]\<rparr>))))"
proof -
  let ?used = "map fst (readdirStates s)"
  have ok: "keys_ok s" using reachable_keys [OF assms(1)] by simp
  note K = keys_within [OF ok]
  have le: "length (readdirStates s) \<le> 65536" using card_mono [OF card_all_keys(2) K(1)] K(2) card_all_keys(1) by simp
  have full: "length (readdirStates s) = 65536 \<longleftrightarrow> all_keys \<subseteq> set ?used"
    using K card_all_keys card_subset_eq [OF card_all_keys(2) K(1)] by (metis subset_antisym subset_refl)
  have "(\<forall>n. ucast (rand n AND 0xFFFF) \<in> set ?used) \<longleftrightarrow> all_keys \<subseteq> set ?used"
    using draws_all_key [OF assms(2)] unat_mask16 by (auto simp: all_keys_def) metis+
  with full fresh_key_ends [of rand ?used 0] have none: "fresh_key rand ?used 0 = None \<longleftrightarrow> length (readdirStates s) = 65536"
    by (metis add_0 not_None_eq)
  have prep: "PrepareReaddir rand dir 0 s = map_option (\<lambda>key. Inr (key, s\<lparr>readdirStates := readdirStates s @
      [(key, \<lparr>rd_cookie = push_bit 16 key, rd_it = 0, rd_children = m_children dir\<rparr>)]\<rparr>)) (fresh_key rand ?used 0)"
    by (cases "fresh_key rand ?used 0") (simp_all add: PrepareReaddir_def)
  have "\<exists>key. fresh_key rand ?used 0 = Some key \<and> key \<notin> set ?used \<and> unat key < 65536" if "length (readdirStates s) < 65536"
    using that none fresh_key_unused [of rand ?used 0] fresh_key_small [of rand ?used 0]
    by (cases "fresh_key rand ?used 0") auto
  with ok le none show ?thesis unfolding prep by (auto simp: keys_ok_def)
qed

theorem listing_key_search_witness:
  "\<exists>s root key t. reachable (s, Map.empty) \<and> GetInode 1 s = Some root \<and>
     PrepareReaddir of_nat root 0 s = Some (Inr (key, t)) \<and> unat key < 65536 \<and> map fst (readdirStates t) = [key]"
proof -
  obtain s root where s: "FuseInit demo_env 0x12 0 0 (FuseRamFs_new 100 10) = Some s" "GetInode 1 s = Some root"
    by (rule FuseInit_ok [where inodes = 10 and e = demo_env and umask = "0x12" and gid = 0 and uid = 0 and blocks = 100]) simp_all
  have m: "mounted s" by (rule mounted.mount [OF _ s(1)]) simp
  then have r: "reachable (s, Map.empty)" by (rule reachable.init)
  have "draws_all of_nat"
    unfolding draws_all_def
  proof (intro allI impI)
    fix v :: nat assume v: "v < 2 ^ 16"
    have "(of_nat v :: u32) AND 0xFFFF = take_bit 16 (of_nat v)" by (simp add: take_bit_eq_mask mask_eq_exp_minus_1)
    also have "\<dots> = of_nat v" using v by (simp add: take_bit_nat_eq_self flip: of_nat_take_bit)
    finally show "\<exists>n. (of_nat n :: u32) AND 0xFFFF = of_nat v" by blast
  qed
  from listing_key_search [OF r this, of root] mounted_keys [OF m] obtain key where "unat key < 65536"
    "PrepareReaddir of_nat root 0 s = Some (Inr (key, s\<lparr>readdirStates :=
      [(key, \<lparr>rd_cookie = push_bit 16 key, rd_it = 0, rd_children = m_children root\<rparr>)]\<rparr>))" by auto
  with r s(2) show ?thesis by (intro exI conjI) (assumption | simp)+
qed

end
