(* ===== verification/Thread_Pool.thy ===== *)
theory Thread_Pool
  imports Main
begin

text \<open>
  Threads that take and release reader-writer locks and touch shared data: the lock behaviour of a piece of
  code as a term, its executions as lists of actions, and a pool of threads interleaved at these actions.
  A scope of \<^verbatim>\<open>std::shared_lock\<close>, \<^verbatim>\<open>std::unique_lock\<close> or \<^verbatim>\<open>std::lock_guard\<close> releases at its end, whatever the way out;
  \<^verbatim>\<open>std::lock\<close> takes several locks together, holding none of them while it waits.

  Two interfaces carry the theorems: an order on locks in which every thread acquires excludes deadlock, and
  a protection of data by locks excludes data races.
\<close>

section \<open>Code and its executions\<close>

datatype lock_mode = Shared | Exclusive

text \<open>Touching data is a read or a write.\<close>

datatype ('l, 'd) action =
    Acquire "('l \<times> lock_mode) list"
  | Release "'l list"
  | Touch 'd lock_mode

datatype ('l, 'd) code =
    Skip
  | Read 'd
  | Write 'd
  | Scope "('l \<times> lock_mode) list" "('l, 'd) code"
  | Then "('l, 'd) code" "('l, 'd) code"
  | Either "('l, 'd) code" "('l, 'd) code"
  | Loop "('l, 'd) code"

text \<open>An execution; which way a test goes and how often a loop is run_schedule is left open.\<close>

inductive path :: "('l, 'd) code \<Rightarrow> ('l, 'd) action list \<Rightarrow> bool" where
  path_skip: "path Skip []"
| path_read: "path (Read d) [Touch d Shared]"
| path_write: "path (Write d) [Touch d Exclusive]"
| path_scope: "path c as \<Longrightarrow> path (Scope ls c) (Acquire ls # as @ [Release (map fst ls)])"
| path_then: "path c as \<Longrightarrow> path c' as' \<Longrightarrow> path (Then c c') (as @ as')"
| path_left: "path c as \<Longrightarrow> path (Either c c') as"
| path_right: "path c' as \<Longrightarrow> path (Either c c') as"
| path_stop: "path (Loop c) []"
| path_again: "path c as \<Longrightarrow> path (Loop c) as' \<Longrightarrow> path (Loop c) (as @ as')"

inductive_cases path_elims [elim!]:
  "path Skip as" "path (Read d) as" "path (Write d) as" "path (Scope ls c) as" "path (Then c c') as"
  "path (Either c c') as"

text \<open>The pairs of a lock held and a lock acquired under it, given the locks \<open>H\<close> held before.\<close>

fun nesting :: "'l set \<Rightarrow> ('l, 'd) code \<Rightarrow> ('l \<times> 'l) set" where
  "nesting H (Scope ls c) = H \<times> fst ` set ls \<union> nesting (H \<union> fst ` set ls) c"
| "nesting H (Then c c') = nesting H c \<union> nesting H c'"
| "nesting H (Either c c') = nesting H c \<union> nesting H c'"
| "nesting H (Loop c) = nesting H c"
| "nesting H _ = {}"

section \<open>The pool\<close>

text \<open>A thread: the locks it holds and the actions it has left.\<close>

type_synonym ('l, 'd) thread = "('l \<times> lock_mode) list \<times> ('l, 'd) action list"

definition conflict :: "lock_mode \<Rightarrow> lock_mode \<Rightarrow> bool" where
  "conflict m n \<longleftrightarrow> m = Exclusive \<or> n = Exclusive"

text \<open>A thread may take locks none of which it holds, and none of which another holds in a conflicting mode.\<close>

definition may_take :: "nat \<Rightarrow> ('l \<times> lock_mode) list \<Rightarrow> ('l, 'd) thread list \<Rightarrow> bool" where
  "may_take i ls ts \<longleftrightarrow>
     (\<forall>(l, m) \<in> set ls. \<forall>j < length ts. \<forall>(l', n) \<in> set (fst (ts ! j)). l' = l \<longrightarrow> j \<noteq> i \<and> \<not> conflict m n)"

inductive tick :: "('l, 'd) thread list \<Rightarrow> ('l, 'd) thread list \<Rightarrow> bool" where
  acquire: "i < length ts \<Longrightarrow> ts ! i = (H, Acquire ls # as) \<Longrightarrow> may_take i ls ts \<Longrightarrow> tick ts (ts[i := (ls @ H, as)])"
| release: "i < length ts \<Longrightarrow> ts ! i = (H, Release ls # as) \<Longrightarrow>
    tick ts (ts[i := (filter (\<lambda>(l, m). l \<notin> set ls) H, as)])"
| touch: "i < length ts \<Longrightarrow> ts ! i = (H, Touch d m # as) \<Longrightarrow> tick ts (ts[i := (H, as)])"

definition start :: "('l, 'd) action list list \<Rightarrow> ('l, 'd) thread list" where
  "start ss = map (Pair []) ss"

definition finished :: "('l, 'd) thread list \<Rightarrow> bool" where
  "finished ts \<longleftrightarrow> (\<forall>(H, as) \<in> set ts. as = [])"

text \<open>Two threads about to touch the same data, one of them to write it.\<close>

definition racing :: "'d \<Rightarrow> ('l, 'd) thread list \<Rightarrow> bool" where
  "racing d ts \<longleftrightarrow> (\<exists>i j H as H' as' m n. i < length ts \<and> j < length ts \<and> i \<noteq> j \<and>
     ts ! i = (H, Touch d m # as) \<and> ts ! j = (H', Touch d n # as') \<and> conflict m n)"

text \<open>The same, to be evaluated.\<close>

definition next_touch :: "('l, 'd) thread \<Rightarrow> ('d \<times> lock_mode) option" where
  "next_touch t = (case snd t of Touch d m # as \<Rightarrow> Some (d, m) | _ \<Rightarrow> None)"

definition about_to_race :: "'d \<Rightarrow> nat \<Rightarrow> nat \<Rightarrow> ('l, 'd) thread list \<Rightarrow> bool" where
  "about_to_race d i j ts \<longleftrightarrow> i < length ts \<and> j < length ts \<and> i \<noteq> j \<and>
     (case (next_touch (ts ! i), next_touch (ts ! j)) of
        (Some (d1, m), Some (d2, n)) \<Rightarrow> d1 = d \<and> d2 = d \<and> conflict m n
      | _ \<Rightarrow> False)"

lemma next_touch_eq: "next_touch t = Some (d, m) \<longleftrightarrow> (\<exists>H as. t = (H, Touch d m # as))"
  by (cases t) (auto simp: next_touch_def split: list.splits action.splits)

lemma about_to_race_racing: "about_to_race d i j ts \<Longrightarrow> racing d ts"
  unfolding about_to_race_def racing_def by (auto simp: next_touch_eq split: option.splits) blast

section \<open>Running a pool\<close>

text \<open>The execution in which the tests go as the list says; where it has ended, the first way, and loops are left.\<close>

fun pick :: "bool list \<Rightarrow> ('l, 'd) code \<Rightarrow> ('l, 'd) action list \<times> bool list" where
  "pick bs Skip = ([], bs)"
| "pick bs (Read d) = ([Touch d Shared], bs)"
| "pick bs (Write d) = ([Touch d Exclusive], bs)"
| "pick bs (Scope ls c) = (case pick bs c of (as, bs') \<Rightarrow> (Acquire ls # as @ [Release (map fst ls)], bs'))"
| "pick bs (Then c c') =
     (case pick bs c of (as, bs') \<Rightarrow> case pick bs' c' of (as', bs'') \<Rightarrow> (as @ as', bs''))"
| "pick bs (Either c c') = (case bs of [] \<Rightarrow> pick [] c | b # bs' \<Rightarrow> if b then pick bs' c' else pick bs' c)"
| "pick bs (Loop c) = (case bs of b # bs' \<Rightarrow> if b then pick bs' c else ([], bs') | [] \<Rightarrow> ([], []))"

lemma path_once: "path c as \<Longrightarrow> path (Loop c) as"
  using path_again [of c as "[]"] path_stop [of c] by simp

lemma path_pick: "path c (fst (pick bs c))"
  by (induction bs c rule: pick.induct)
    (auto intro: path.intros path_once split: prod.splits list.splits)

text \<open>The step of one thread, if it can make one, and the steps of a schedule.\<close>

definition move :: "nat \<Rightarrow> ('l, 'd) thread list \<Rightarrow> ('l, 'd) thread list option" where
  "move i ts =
     (if i < length ts
      then case ts ! i of
             (H, Acquire ls # as) \<Rightarrow> if may_take i ls ts then Some (ts[i := (ls @ H, as)]) else None
           | (H, Release ls # as) \<Rightarrow> Some (ts[i := (filter (\<lambda>(l, m). l \<notin> set ls) H, as)])
           | (H, Touch d m # as) \<Rightarrow> Some (ts[i := (H, as)])
           | (H, []) \<Rightarrow> None
      else None)"

fun run_schedule :: "nat list \<Rightarrow> ('l, 'd) thread list \<Rightarrow> ('l, 'd) thread list option" where
  "run_schedule [] ts = Some ts"
| "run_schedule (i # is) ts = Option.bind (move i ts) (run_schedule is)"

lemma move_simps:
  "i < length ts \<Longrightarrow> ts ! i = (H, Acquire ls # as) \<Longrightarrow>
     move i ts = (if may_take i ls ts then Some (ts[i := (ls @ H, as)]) else None)"
  "i < length ts \<Longrightarrow> ts ! i = (H, Release rs # as) \<Longrightarrow>
     move i ts = Some (ts[i := (filter (\<lambda>(l, m). l \<notin> set rs) H, as)])"
  "i < length ts \<Longrightarrow> ts ! i = (H, Touch d m # as) \<Longrightarrow> move i ts = Some (ts[i := (H, as)])"
  "ts ! i = (H, []) \<Longrightarrow> move i ts = None"
  by (simp_all add: move_def)

lemma tick_iff_move: "tick ts ts' \<longleftrightarrow> (\<exists>i < length ts. move i ts = Some ts')"
proof
  show "tick ts ts' \<Longrightarrow> \<exists>i < length ts. move i ts = Some ts'"
    by (erule tick.cases; simp) (metis move_simps(1), metis move_simps(2), metis move_simps(3))
  assume "\<exists>i < length ts. move i ts = Some ts'"
  then obtain i where i: "i < length ts" "move i ts = Some ts'" by blast
  obtain H as where t: "ts ! i = (H, as)" by fastforce
  show "tick ts ts'"
  proof (cases as)
    case Nil
    then show ?thesis using i t by (simp add: move_simps)
  next
    case (Cons a as')
    with t i show ?thesis
      by (cases a) (auto simp: move_simps split: if_splits intro: tick.intros)
  qed
qed

lemma run_ticks: "run_schedule is ts = Some ts' \<Longrightarrow> tick\<^sup>*\<^sup>* ts ts'"
proof (induction "is" arbitrary: ts)
  case (Cons i "is")
  then obtain ts1 where "move i ts = Some ts1" "run_schedule is ts1 = Some ts'" by (auto simp: bind_eq_Some_conv)
  moreover from this(1) have "tick ts ts1" by (auto simp: tick_iff_move move_def split: if_splits)
  ultimately show ?case using Cons.IH by (meson converse_rtranclp_into_rtranclp)
qed simp

text \<open>A pool in which no thread can make a step though one has actions left.\<close>

definition at_rest :: "nat \<Rightarrow> ('l, 'd) thread list \<Rightarrow> bool" where
  "at_rest i ts \<longleftrightarrow> Option.is_none (move i ts)"

definition stuck :: "('l, 'd) thread list \<Rightarrow> bool" where
  "stuck ts \<longleftrightarrow> \<not> finished ts \<and> list_all (\<lambda>i. at_rest i ts) [0..<length ts]"

lemma stuck_iff: "stuck ts \<longleftrightarrow> \<not> finished ts \<and> \<not> (\<exists>ts'. tick ts ts')"
  by (auto simp: stuck_def list_all_iff at_rest_def Option.is_none_def tick_iff_move not_Some_eq [symmetric] simp del: not_Some_eq)

section \<open>Exclusion\<close>

definition exclusive :: "('l, 'd) thread list \<Rightarrow> bool" where
  "exclusive ts \<longleftrightarrow> (\<forall>i < length ts. \<forall>j < length ts. i \<noteq> j \<longrightarrow>
     (\<forall>(l, m) \<in> set (fst (ts ! i)). \<forall>(l', n) \<in> set (fst (ts ! j)). l = l' \<longrightarrow> \<not> conflict m n))"

lemma exclusiveD:
  "exclusive ts \<Longrightarrow> i < length ts \<Longrightarrow> j < length ts \<Longrightarrow> i \<noteq> j \<Longrightarrow> (l, m) \<in> set (fst (ts ! i)) \<Longrightarrow>
     (l, n) \<in> set (fst (ts ! j)) \<Longrightarrow> \<not> conflict m n"
  unfolding exclusive_def by fastforce

lemma conflict_sym: "conflict m n \<longleftrightarrow> conflict n m"
  by (auto simp: conflict_def)

lemma exclusive_start: "exclusive (start ss)"
  by (simp add: exclusive_def start_def)

lemma exclusive_shrink:
  assumes "exclusive ts" "i < length ts" "set H \<subseteq> set (fst (ts ! i))"
  shows "exclusive (ts[i := (H, as)])"
  using assms unfolding exclusive_def by (simp add: nth_list_update subset_iff) blast

lemma exclusive_tick: "tick ts ts' \<Longrightarrow> exclusive ts \<Longrightarrow> exclusive ts'"
proof (induction rule: tick.induct)
  case (acquire i ts H ls as)
  have new: "\<not> conflict m n" if "(l, m) \<in> set ls" "j < length ts" "(l, n) \<in> set (fst (ts ! j))" for l m n j
    using acquire(3) that unfolding may_take_def by fastforce
  show ?case unfolding exclusive_def
  proof (intro allI impI ballI, clarsimp)
    fix a b l m n
    assume ab: "a < length ts" "b < length ts" "a \<noteq> b"
      and m: "(l, m) \<in> set (fst (ts[i := (ls @ H, as)] ! a))" and n: "(l, n) \<in> set (fst (ts[i := (ls @ H, as)] ! b))"
      and c: "conflict m n"
    have old: "\<not> conflict m n" if "(l, m) \<in> set (fst (ts ! a))" "(l, n) \<in> set (fst (ts ! b))"
      using exclusiveD [OF acquire(4) ab(1,2,3) that] .
    consider "a = i" | "b = i" | "a \<noteq> i" "b \<noteq> i" by blast
    then show False
    proof cases
      case 1
      then show False using m n ab c new [of l m b n] old acquire(2) by auto
    next
      case 2
      then show False using m n ab c new [of l n a m] old acquire(2) conflict_sym by auto
    next
      case 3
      then show False using m n c old by simp
    qed
  qed
qed (auto intro: exclusive_shrink)

lemma exclusive_reached: "tick\<^sup>*\<^sup>* (start ss) ts \<Longrightarrow> exclusive ts"
  by (induction rule: rtranclp_induct) (auto intro: exclusive_start exclusive_tick)

section \<open>Deadlock\<close>

text \<open>Locks are acquired along the order \<open>B\<close>, and none is held at the end.\<close>

fun follows :: "('l \<times> 'l) set \<Rightarrow> 'l set \<Rightarrow> ('l, 'd) action list \<Rightarrow> bool" where
  "follows B H [] \<longleftrightarrow> H = {}"
| "follows B H (Acquire ls # as) \<longleftrightarrow> H \<times> fst ` set ls \<subseteq> B \<and> follows B (H \<union> fst ` set ls) as"
| "follows B H (Release ls # as) \<longleftrightarrow> follows B (H - set ls) as"
| "follows B H (Touch d m # as) \<longleftrightarrow> follows B H as"

definition follow_all :: "('l \<times> 'l) set \<Rightarrow> ('l, 'd) thread list \<Rightarrow> bool" where
  "follow_all B ts \<longleftrightarrow> (\<forall>(H, as) \<in> set ts. follows B (fst ` set H) as)"

lemma follow_allD: "follow_all B ts \<Longrightarrow> i < length ts \<Longrightarrow> ts ! i = (H, as) \<Longrightarrow> follows B (fst ` set H) as"
  unfolding follow_all_def by (metis (mono_tags, lifting) case_prod_conv nth_mem)

lemma follow_all_update:
  assumes "follow_all B ts" "follows B (fst ` set H) as"
  shows "follow_all B (ts[i := (H, as)])"
  using assms set_update_subset_insert [of ts i "(H, as)"] unfolding follow_all_def by fastforce

lemma fst_filter_locks: "fst ` set (filter (\<lambda>(l, m). l \<notin> S) H) = fst ` set H - S"
  by force

lemma follow_all_tick: "tick ts ts' \<Longrightarrow> follow_all B ts \<Longrightarrow> follow_all B ts'"
proof (induction rule: tick.induct)
  case (acquire i ts H ls as)
  from follow_allD [OF acquire(4,1,2)] show ?case
    by (intro follow_all_update [OF acquire(4)]) (simp add: image_Un Un_commute)
next
  case (release i ts H ls as)
  from follow_allD [OF release(3,1,2)] show ?case
    by (intro follow_all_update [OF release(3)]) (simp add: fst_filter_locks del: set_filter)
next
  case (touch i ts H d m as)
  from follow_allD [OF touch(3,1,2)] show ?case by (intro follow_all_update [OF touch(3)]) simp
qed

definition actions_left :: "('l, 'd) thread list \<Rightarrow> nat" where
  "actions_left ts = sum_list (map (length \<circ> snd) ts)"

lemma actions_left_update:
  "i < length ts \<Longrightarrow> length (snd t) < length (snd (ts ! i)) \<Longrightarrow> actions_left (ts[i := t]) < actions_left ts"
proof (induction ts arbitrary: i)
  case (Cons u ts)
  then show ?case by (cases i) (auto simp: actions_left_def)
qed simp

lemma tick_decreases: "tick ts ts' \<Longrightarrow> actions_left ts' < actions_left ts"
  by (induction rule: tick.induct) (simp_all add: actions_left_update)

text \<open>No schedule is longer than the actions left.\<close>

lemma run_length: "run_schedule is ts = Some ts' \<Longrightarrow> length is + actions_left ts' \<le> actions_left ts"
proof (induction "is" arbitrary: ts)
  case (Cons i "is")
  then obtain ts1 where m: "move i ts = Some ts1" "run_schedule is ts1 = Some ts'" by (auto simp: bind_eq_Some_conv)
  from m(1) have "tick ts ts1" by (auto simp: tick_iff_move move_def split: if_splits)
  with tick_decreases have "actions_left ts1 < actions_left ts" by blast
  with Cons.IH [OF m(2)] show ?case by simp
qed simp

text \<open>The interface: an order of the locks without infinite ascending chains.\<close>

locale lock_order =
  fixes before :: "('l \<times> 'l) set"
  assumes ascending_ends: "wf (before\<inverse>)"
begin

lemma before_irrefl: "(l, l) \<notin> before"
  using wf_not_refl [OF ascending_ends] by simp

lemma path_follows:
  "path c as \<Longrightarrow> nesting H c \<subseteq> before \<Longrightarrow> follows before H rest \<Longrightarrow> follows before H (as @ rest)"
proof (induction arbitrary: H rest rule: path.induct)
  case (path_scope c as ls)
  have "l \<notin> H" if "l \<in> fst ` set ls" for l
    using path_scope(3) that before_irrefl [of l] by auto
  then have "H \<union> fst ` set ls - fst ` set ls = H" by blast
  then show ?case using path_scope by simp
qed simp_all

text \<open>The holder of a last lock in the order waits for nothing that is held.\<close>

lemma progress:
  assumes ok: "follow_all before ts"
  shows "finished ts \<or> (\<exists>ts'. tick ts ts')"
proof (rule ccontr)
  assume stuck: "\<not> (finished ts \<or> (\<exists>ts'. tick ts ts'))"
  have waits: "\<exists>ls rest. as = Acquire ls # rest \<and> \<not> may_take i ls ts"
    if "i < length ts" "ts ! i = (H, as)" "as \<noteq> []" for i H as
    using that stuck by (cases as rule: list.exhaust; cases "hd as") (auto intro: tick.intros)
  have idle: "H = []" if "i < length ts" "ts ! i = (H, [])" for i H
    using follow_allD [OF ok that] by simp
  define held where "held = {l. \<exists>i < length ts. l \<in> fst ` set (fst (ts ! i))}"
  have step: "\<exists>l' \<in> held. \<forall>l \<in> fst ` set H. (l, l') \<in> before" if t: "i < length ts" "ts ! i = (H, as)" "as \<noteq> []" for i H as
  proof -
    obtain ls rest where w: "as = Acquire ls # rest" "\<not> may_take i ls ts" using waits [OF t] by blast
    then obtain l' m j n where l': "(l', m) \<in> set ls" "j < length ts" "(l', n) \<in> set (fst (ts ! j))"
      unfolding may_take_def by auto
    then have "l' \<in> held" by (force simp: held_def)
    moreover have "fst ` set H \<times> fst ` set ls \<subseteq> before" using follow_allD [OF ok t(1,2)] w(1) by simp
    ultimately show ?thesis using l'(1) by force
  qed
  obtain i H as where i: "i < length ts" "ts ! i = (H, as)" "as \<noteq> []"
    using stuck unfolding finished_def by (auto simp: in_set_conv_nth)
  from step [OF i] have "held \<noteq> {}" by blast
  then obtain l where l: "l \<in> held" "\<And>l'. (l, l') \<in> before \<Longrightarrow> l' \<notin> held"
    using ascending_ends unfolding wf_eq_minimal by (metis converse.intros equals0I)
  then obtain j where j: "j < length ts" "l \<in> fst ` set (fst (ts ! j))" by (auto simp: held_def)
  obtain H' as' where t: "ts ! j = (H', as')" by fastforce
  then have "as' \<noteq> []" using idle j by fastforce
  from step [OF j(1) t this] j(2) t l(2) show False by auto
qed

text \<open>Every action is done once, so that a pool that is not stuck finishes.\<close>

lemma all_finish: "follow_all before ts \<Longrightarrow> \<exists>ts'. tick\<^sup>*\<^sup>* ts ts' \<and> finished ts'"
proof (induction "actions_left ts" arbitrary: ts rule: less_induct)
  case less
  show ?case
  proof (cases "finished ts")
    case False
    then obtain ts1 where t: "tick ts ts1" using progress [OF less(2)] by blast
    from less(1) [OF tick_decreases [OF t] follow_all_tick [OF t less(2)]] show ?thesis
      using t by (meson converse_rtranclp_into_rtranclp)
  qed blast
qed

lemma no_deadlock:
  assumes code: "\<forall>s \<in> set ss. \<exists>c. path c s \<and> nesting {} c \<subseteq> before" and run: "tick\<^sup>*\<^sup>* (start ss) ts"
  shows "finished ts \<or> (\<exists>ts'. tick ts ts')" "\<exists>ts'. tick\<^sup>*\<^sup>* ts ts' \<and> finished ts'"
proof -
  have "follows before {} s" if "s \<in> set ss" for s
    using code that path_follows [of _ s "{}" "[]"] by auto
  then have "follow_all before (start ss)" by (auto simp: follow_all_def start_def)
  with run have "follow_all before ts" by (induction rule: rtranclp_induct) (auto intro: follow_all_tick)
  then show "finished ts \<or> (\<exists>ts'. tick ts ts')" "\<exists>ts'. tick\<^sup>*\<^sup>* ts ts' \<and> finished ts'"
    by (fact progress, fact all_finish)
qed

end

section \<open>Data races\<close>

text \<open>
  The data \<open>D\<close> are touched only under locks that protect them. A scope that takes a lock the thread holds
  is never entered.
\<close>

fun guarded :: "(('l \<times> lock_mode) list \<Rightarrow> 'd \<Rightarrow> lock_mode \<Rightarrow> bool) \<Rightarrow> 'd set \<Rightarrow> ('l \<times> lock_mode) list \<Rightarrow> ('l, 'd) code \<Rightarrow> bool" where
  "guarded P D H Skip \<longleftrightarrow> True"
| "guarded P D H (Read d) \<longleftrightarrow> (d \<in> D \<longrightarrow> P H d Shared)"
| "guarded P D H (Write d) \<longleftrightarrow> (d \<in> D \<longrightarrow> P H d Exclusive)"
| "guarded P D H (Scope ls c) \<longleftrightarrow> (fst ` set ls \<inter> fst ` set H = {} \<longrightarrow> guarded P D (ls @ H) c)"
| "guarded P D H (Then c c') \<longleftrightarrow> guarded P D H c \<and> guarded P D H c'"
| "guarded P D H (Either c c') \<longleftrightarrow> guarded P D H c \<and> guarded P D H c'"
| "guarded P D H (Loop c) \<longleftrightarrow> guarded P D H c"

fun safe :: "(('l \<times> lock_mode) list \<Rightarrow> 'd \<Rightarrow> lock_mode \<Rightarrow> bool) \<Rightarrow> 'd set \<Rightarrow> ('l, 'd) thread \<Rightarrow> bool" where
  "safe P D (H, []) \<longleftrightarrow> True"
| "safe P D (H, Acquire ls # as) \<longleftrightarrow> (fst ` set ls \<inter> fst ` set H = {} \<longrightarrow> safe P D (ls @ H, as))"
| "safe P D (H, Release ls # as) \<longleftrightarrow> safe P D (filter (\<lambda>(l, m). l \<notin> set ls) H, as)"
| "safe P D (H, Touch d m # as) \<longleftrightarrow> (d \<in> D \<longrightarrow> P H d m) \<and> safe P D (H, as)"

lemma filter_scope:
  assumes "fst ` set ls \<inter> fst ` set H = {}"
  shows "filter (\<lambda>(l, m). l \<notin> set (map fst ls)) (ls @ H) = H"
proof -
  have "filter (\<lambda>(l, m). l \<notin> set (map fst ls)) ls = []" by (force simp: filter_empty_conv)
  moreover have "filter (\<lambda>(l, m). l \<notin> set (map fst ls)) H = H" using assms by (force simp: filter_id_conv)
  ultimately show ?thesis by simp
qed

lemma path_safe: "path c as \<Longrightarrow> guarded P D H c \<Longrightarrow> safe P D (H, rest) \<Longrightarrow> safe P D (H, as @ rest)"
proof (induction arbitrary: H rest rule: path.induct)
  case (path_scope c as ls)
  have "safe P D (ls @ H, as @ Release (map fst ls) # rest)" if "fst ` set ls \<inter> fst ` set H = {}"
    using path_scope(3,4) that filter_scope [OF that] by (intro path_scope(2)) simp_all
  then show ?case by simp
qed simp_all

lemma may_take_fresh: "may_take i ls ts \<Longrightarrow> i < length ts \<Longrightarrow> fst ` set ls \<inter> fst ` set (fst (ts ! i)) = {}"
  unfolding may_take_def by fastforce

lemma safe_tick: "tick ts ts' \<Longrightarrow> \<forall>t \<in> set ts. safe P D t \<Longrightarrow> \<forall>t \<in> set ts'. safe P D t"
proof (induction rule: tick.induct)
  case (acquire i ts H ls as)
  then have "safe P D (H, Acquire ls # as)" by (metis nth_mem)
  moreover have "fst ` set ls \<inter> fst ` set H = {}" using may_take_fresh acquire(1-3) by fastforce
  ultimately show ?case using acquire(4) using set_update_subset_insert [of ts i "(ls @ H, as)"] by auto
next
  case (release i ts H ls as)
  then have "safe P D (H, Release ls # as)" by (metis nth_mem)
  with release(3) show ?case
    using set_update_subset_insert [of ts i "(filter (\<lambda>(l, m). l \<notin> set ls) H, as)"] by auto
next
  case (touch i ts H d m as)
  then have "safe P D (H, Touch d m # as)" by (metis nth_mem)
  with touch(3) show ?case using set_update_subset_insert [of ts i "(H, as)"] by auto
qed

text \<open>The interface: what protects a datum from conflicting uses are locks that conflict.\<close>

locale data_guard =
  fixes protects :: "('l \<times> lock_mode) list \<Rightarrow> 'd \<Rightarrow> lock_mode \<Rightarrow> bool"
  assumes clash: "protects H d m \<Longrightarrow> protects H' d n \<Longrightarrow> conflict m n \<Longrightarrow>
    \<exists>l a b. (l, a) \<in> set H \<and> (l, b) \<in> set H' \<and> conflict a b"
begin

lemma no_race:
  assumes code: "\<forall>s \<in> set ss. \<exists>c. path c s \<and> guarded protects D [] c" and run: "tick\<^sup>*\<^sup>* (start ss) ts" and d: "d \<in> D"
  shows "\<not> racing d ts"
proof
  have "safe protects D ([], s)" if "s \<in> set ss" for s
    using code that path_safe [of _ s protects D "[]" "[]"] by auto
  then have "\<forall>t \<in> set (start ss). safe protects D t" by (auto simp: start_def)
  with run have safe: "\<forall>t \<in> set ts. safe protects D t"
    by (induction rule: rtranclp_induct) (auto dest: safe_tick)
  assume "racing d ts"
  then obtain i j H as H' as' m n where t: "i < length ts" "j < length ts" "i \<noteq> j"
    "ts ! i = (H, Touch d m # as)" "ts ! j = (H', Touch d n # as')" "conflict m n" unfolding racing_def by blast
  then have "protects H d m" "protects H' d n" using safe d by (metis nth_mem safe.simps(4))+
  from clash [OF this t(6)] obtain l a b where "(l, a) \<in> set H" "(l, b) \<in> set H'" "conflict a b" by blast
  with exclusiveD [OF exclusive_reached [OF run] t(1-3), of l a b] t(4,5) show False by simp
qed

end

end
