(* ===== verification/Locking.thy ===== *)
theory Locking
  imports Thread_Pool Machine
begin

text \<open>
  The locks of the file system (\<^verbatim>\<open>inode.hpp\<close>, \<^verbatim>\<open>directory.hpp\<close>, \<^verbatim>\<open>fuse_cpp_ramfs.hpp\<close>) and, for every method and
  handler, which locks it takes, how they nest and which shared data it touches under them. The numbers of the
  inodes an execution comes across are parameters; an early return is a choice.
\<close>

section \<open>Locks and data\<close>

text \<open>
  The mutexes of the program. \<open>ChildrenRwSem\<close>, \<open>EntryRwSem\<close> and \<open>XattrRwSem\<close> are members of an inode and named by
  its number; \<open>SavedEntryRwSem\<close> is the member of a copy in the pool, named by the key and its place there.
\<close>

datatype fs_lock =
    CrMutex
  | RenameMutex
  | ChildrenRwSem ino_t
  | InodesRwSem
  | DeletedInodesMutex
  | EntryRwSem ino_t
  | XattrRwSem ino_t
  | SavedEntryRwSem u64 ino_t
  | StbufMutex

text \<open>
  What the threads share: \<^verbatim>\<open>m_children\<close>, \<^verbatim>\<open>Inodes\<close>, \<^verbatim>\<open>DeletedInodes\<close>, \<^verbatim>\<open>m_fuseEntryParam\<close>, \<^verbatim>\<open>m_xattr\<close>,
  \<^verbatim>\<open>m_stbuf\<close>, \<^verbatim>\<open>m_buf\<close>, \<^verbatim>\<open>readdirStates\<close> with its contexts, the \<^verbatim>\<open>state_pool\<close>, and the life of an object,
  which \<^verbatim>\<open>delete\<close> ends. \<^verbatim>\<open>m_nlookup\<close> is atomic; link targets, types and inode numbers never change.
\<close>

datatype fs_data =
    Data_Children ino_t
  | Data_Inodes
  | Data_DeletedInodes
  | Data_Attr ino_t
  | Data_Xattr ino_t
  | Data_Stbuf
  | Data_Buf ino_t
  | Data_Listings
  | Data_Pool
  | Data_Object ino_t

type_synonym fs_code = "(fs_lock, fs_data) code"

text \<open>A sequence of statements, what may be skipped by a return, and a loop over inodes that may be left.\<close>

primrec block :: "('l, 'd) code list \<Rightarrow> ('l, 'd) code" where
  "block [] = Skip"
| "block (c # cs) = Then c (block cs)"

definition or_return :: "('l, 'd) code \<Rightarrow> ('l, 'd) code" where
  "or_return c = Either Skip c"

primrec each :: "('a \<Rightarrow> ('l, 'd) code) \<Rightarrow> 'a list \<Rightarrow> ('l, 'd) code" where
  "each f [] = Skip"
| "each f (i # is) = Then (f i) (or_return (each f is))"

section \<open>Inodes\<close>

text \<open>\<^verbatim>\<open>NumLinks\<close>, \<^verbatim>\<open>IsActive\<close>, \<^verbatim>\<open>HasNoLinks\<close>, \<^verbatim>\<open>UsedBlocks\<close>, \<^verbatim>\<open>Size\<close>, \<^verbatim>\<open>GetAttr\<close>, \<^verbatim>\<open>GetMode\<close>.\<close>

definition lk_get :: "ino_t \<Rightarrow> fs_code" where
  "lk_get i = Scope [(EntryRwSem i, Shared)] (Read (Data_Attr i))"

text \<open>\<^verbatim>\<open>IncrementLinkCount\<close> and \<^verbatim>\<open>DecrementLinkCount\<close>.\<close>

definition lk_link_count :: "ino_t \<Rightarrow> fs_code" where
  "lk_link_count i = Scope [(EntryRwSem i, Exclusive)] (Write (Data_Attr i))"

text \<open>\<^verbatim>\<open>ReplyEntry\<close>, \<^verbatim>\<open>ReplyCreate\<close> and \<^verbatim>\<open>ReplyAttr\<close>.\<close>

definition lk_Reply :: "ino_t \<Rightarrow> fs_code" where
  "lk_Reply i = Scope [(EntryRwSem i, Shared)] (Read (Data_Attr i))"

definition lk_ReplySetAttr :: "ino_t \<Rightarrow> fs_code" where
  "lk_ReplySetAttr i = Scope [(EntryRwSem i, Exclusive)] (Write (Data_Attr i))"

definition lk_SetXAttrAndReply :: "ino_t \<Rightarrow> fs_code" where
  "lk_SetXAttrAndReply i =
     Scope [(XattrRwSem i, Exclusive)] (block [Read (Data_Xattr i), or_return (Write (Data_Xattr i))])"

definition lk_GetXAttrAndReply :: "ino_t \<Rightarrow> fs_code" where
  "lk_GetXAttrAndReply i = Scope [(XattrRwSem i, Shared)] (Read (Data_Xattr i))"

definition lk_ListXAttrAndReply :: "ino_t \<Rightarrow> fs_code" where
  "lk_ListXAttrAndReply i = Scope [(XattrRwSem i, Shared)] (Read (Data_Xattr i))"

definition lk_RemoveXAttrAndReply :: "ino_t \<Rightarrow> fs_code" where
  "lk_RemoveXAttrAndReply i =
     Scope [(EntryRwSem i, Exclusive)] (block [Read (Data_Xattr i), or_return (Write (Data_Xattr i))])"

definition lk_ReplyAccess :: "ino_t \<Rightarrow> fs_code" where
  "lk_ReplyAccess i = or_return (Scope [(EntryRwSem i, Shared)] (Read (Data_Attr i)))"

definition lk_Initialize :: "ino_t \<Rightarrow> fs_code" where
  "lk_Initialize i = Write (Data_Attr i)"

section \<open>The inode table and the counters\<close>

definition lk_GetInode :: fs_code where
  "lk_GetInode = Scope [(InodesRwSem, Shared)] (Read Data_Inodes)"

definition lk_DeleteInode :: fs_code where
  "lk_DeleteInode =
     Scope [(InodesRwSem, Exclusive), (DeletedInodesMutex, Exclusive)] (block [Write Data_Inodes, Write Data_DeletedInodes])"

definition lk_AddInode :: fs_code where
  "lk_AddInode = Scope [(InodesRwSem, Exclusive)] (Write Data_Inodes)"

definition lk_UpdateInode :: fs_code where
  "lk_UpdateInode = Scope [(InodesRwSem, Exclusive)] (Write Data_Inodes)"

definition lk_PopOneDeletedInode :: fs_code where
  "lk_PopOneDeletedInode =
     Scope [(DeletedInodesMutex, Exclusive)] (block [Read Data_DeletedInodes, Write Data_DeletedInodes])"

text \<open>\<^verbatim>\<open>UpdateUsedBlocks\<close> and \<^verbatim>\<open>UpdateUsedInodes\<close>.\<close>

definition lk_UpdateUsed :: fs_code where
  "lk_UpdateUsed = Scope [(StbufMutex, Exclusive)] (Write Data_Stbuf)"

definition lk_FsStat :: fs_code where
  "lk_FsStat = Scope [(StbufMutex, Shared)] (Read Data_Stbuf)"

definition lk_GetFreeInodes :: fs_code where
  "lk_GetFreeInodes = Scope [(StbufMutex, Shared)] (Read Data_Stbuf)"

definition lk_CheckHasSpaceFor :: "ino_t option \<Rightarrow> fs_code" where
  "lk_CheckHasSpaceFor inode =
     or_return (block
       ((case inode of None \<Rightarrow> [] | Some i \<Rightarrow> [lk_get i, lk_get i]) @
        [or_return (Scope [(StbufMutex, Shared)] (Read Data_Stbuf))]))"

section \<open>Directories and files\<close>

definition lk_UpdateSize :: "ino_t \<Rightarrow> fs_code" where
  "lk_UpdateSize i =
     Scope [(EntryRwSem i, Exclusive)] (block [Read (Data_Attr i), Write (Data_Attr i), or_return lk_UpdateUsed])"

definition lk_Directory_Initialize :: "ino_t \<Rightarrow> fs_code" where
  "lk_Directory_Initialize i = block [lk_Initialize i, lk_UpdateSize i]"

definition lk_find :: "ino_t \<Rightarrow> fs_code" where
  "lk_find i = Read (Data_Children i)"

definition lk_ChildInodeNumberWithName :: "ino_t \<Rightarrow> fs_code" where
  "lk_ChildInodeNumberWithName i = Scope [(ChildrenRwSem i, Shared)] (lk_find i)"

definition lk_AddChild_nolock :: "ino_t \<Rightarrow> fs_code" where
  "lk_AddChild_nolock i =
     block [lk_find i, or_return (block [lk_CheckHasSpaceFor (Some i),
       or_return (block [Write (Data_Children i), lk_UpdateSize i])])]"

definition lk_AddChild :: "ino_t \<Rightarrow> fs_code" where
  "lk_AddChild i = Scope [(ChildrenRwSem i, Exclusive)] (lk_AddChild_nolock i)"

definition lk_UpdateChild_nolock :: "ino_t \<Rightarrow> fs_code" where
  "lk_UpdateChild_nolock i = block [lk_find i, or_return (block [Write (Data_Children i), Write (Data_Attr i)])]"

definition lk_RemoveChild_nolock :: "ino_t \<Rightarrow> fs_code" where
  "lk_RemoveChild_nolock i =
     block [lk_find i, or_return (block [Write (Data_Children i), lk_UpdateSize i, Write (Data_Attr i)])]"

definition lk_RemoveChild :: "ino_t \<Rightarrow> fs_code" where
  "lk_RemoveChild i = Scope [(ChildrenRwSem i, Exclusive)] (lk_RemoveChild_nolock i)"

definition lk_PrepareReaddir :: "ino_t \<Rightarrow> fs_code" where
  "lk_PrepareReaddir i =
     Either (Read Data_Listings)
       (block [Scope [(ChildrenRwSem i, Shared)] (Read (Data_Children i)), Read Data_Listings,
          Loop (Read Data_Listings), Write Data_Listings])"

definition lk_RecycleStates :: fs_code where
  "lk_RecycleStates = Loop (block [Read Data_Listings, or_return (Write Data_Listings)])"

definition lk_IsEmpty :: "ino_t \<Rightarrow> ino_t list \<Rightarrow> fs_code" where
  "lk_IsEmpty i kids =
     Scope [(ChildrenRwSem i, Shared)]
       (block [Read (Data_Children i), each (\<lambda>k. block [lk_GetInode, or_return (lk_get k)]) kids])"

definition lk_FileTruncate :: "ino_t \<Rightarrow> fs_code" where
  "lk_FileTruncate i =
     block [lk_get i, lk_get i, lk_CheckHasSpaceFor (Some i),
       or_return (block [or_return (Write (Data_Buf i)),
         or_return (block [or_return (Write (Data_Buf i)), lk_UpdateUsed,
           Scope [(EntryRwSem i, Exclusive)] (Write (Data_Attr i))])])]"

definition lk_File_WriteAndReply :: "ino_t \<Rightarrow> fs_code" where
  "lk_File_WriteAndReply i =
     block [lk_get i, lk_get i, or_return (block [lk_get i, lk_CheckHasSpaceFor (Some i)]),
       or_return (block [or_return (Write (Data_Buf i)),
         or_return (block [or_return (Write (Data_Buf i)), Write (Data_Buf i),
           or_return (block [Read (Data_Attr i), lk_UpdateUsed]),
           Scope [(EntryRwSem i, Exclusive)] (Write (Data_Attr i))])])]"

definition lk_File_ReadAndReply :: "ino_t \<Rightarrow> fs_code" where
  "lk_File_ReadAndReply i =
     block [Read (Data_Attr i), Either (Read (Data_Buf i))
       (Scope [(EntryRwSem i, Exclusive)] (block [Write (Data_Attr i), Read (Data_Attr i), Read (Data_Buf i)]))]"

section \<open>Creation\<close>

text \<open>A new inode \<open>i\<close>, a directory or not.\<close>

definition lk_RegisterInode :: "bool \<Rightarrow> ino_t \<Rightarrow> fs_code" where
  "lk_RegisterInode dir i =
     block [Read Data_DeletedInodes, Either lk_AddInode (block [lk_PopOneDeletedInode, lk_UpdateInode]), lk_UpdateUsed,
       if dir then lk_Directory_Initialize i else lk_Initialize i, lk_get i, lk_UpdateUsed]"

definition lk_do_create_node :: "bool \<Rightarrow> ino_t \<Rightarrow> ino_t \<Rightarrow> fs_code" where
  "lk_do_create_node dir p i =
     or_return (block [lk_GetFreeInodes, or_return (block
       ([lk_RegisterInode dir i] @ (if dir then [lk_AddChild i, lk_AddChild i] else []) @
        [lk_AddChild p,
         Either (block [lk_UpdateUsed, lk_get i, lk_UpdateUsed, Write (Data_Object i), lk_DeleteInode])
           (if dir then lk_link_count p else Skip)]))])"

section \<open>Handlers\<close>

definition handler :: "fs_code \<Rightarrow> fs_code" where
  "handler c = Scope [(CrMutex, Shared)] c"

text \<open>The test at the start of most handlers: the inode is there and has links.\<close>

definition if_alive :: "ino_t \<Rightarrow> fs_code \<Rightarrow> fs_code" where
  "if_alive i c = block [lk_GetInode, or_return (block [lk_get i, or_return c])]"

definition lk_FuseLookup :: "ino_t \<Rightarrow> ino_t \<Rightarrow> fs_code" where
  "lk_FuseLookup p ino =
     handler (if_alive p (or_return (block [lk_ChildInodeNumberWithName p, or_return (if_alive ino (lk_Reply ino))])))"

definition lk_FuseGetAttr :: "ino_t \<Rightarrow> fs_code" where
  "lk_FuseGetAttr i = handler (if_alive i (lk_Reply i))"

definition lk_FuseSetAttr :: "ino_t \<Rightarrow> u32 \<Rightarrow> fs_code" where
  "lk_FuseSetAttr i to_set =
     handler (if_alive i
       (if flag_set to_set FUSE_SET_ATTR_SIZE
        then Either (lk_get i) (block [lk_FileTruncate i, or_return (lk_Reply i)])
        else lk_ReplySetAttr i))"

text \<open>\<^verbatim>\<open>FuseOpen\<close>, \<^verbatim>\<open>FuseRelease\<close>, \<^verbatim>\<open>FuseOpenDir\<close>, \<^verbatim>\<open>FuseReleaseDir\<close>, \<^verbatim>\<open>FuseFsyncDir\<close> and \<^verbatim>\<open>FuseReadLink\<close>.\<close>

definition lk_FuseOpen :: "ino_t \<Rightarrow> fs_code" where
  "lk_FuseOpen i = handler (if_alive i Skip)"

definition lk_FuseFsync :: fs_code where
  "lk_FuseFsync = handler lk_GetInode"

text \<open>The walk of a listing over the entries \<open>kids\<close> of its context.\<close>

definition lk_readdir_entry :: "ino_t \<Rightarrow> fs_code" where
  "lk_readdir_entry k =
     block [Read Data_Listings, lk_GetInode, Either (Write Data_Listings)
       (block [lk_get k, Either (Write Data_Listings) (block [lk_get k, Write Data_Listings])])]"

definition lk_FuseReadDir :: "ino_t \<Rightarrow> ino_t list \<Rightarrow> fs_code" where
  "lk_FuseReadDir i kids =
     handler (if_alive i (or_return (block [lk_PrepareReaddir i, or_return (block
       [Read Data_Listings, each lk_readdir_entry kids, Read Data_Listings, lk_RecycleStates])])))"

definition lk_FuseMknod :: "bool \<Rightarrow> ino_t \<Rightarrow> ino_t \<Rightarrow> fs_code" where
  "lk_FuseMknod dir p i =
     handler (if_alive p (or_return (block [lk_GetFreeInodes, or_return (block [lk_ChildInodeNumberWithName p,
       or_return (block [lk_do_create_node dir p i, or_return (block [lk_GetInode, lk_Reply i])])])])))"

definition lk_FuseUnlink :: "ino_t \<Rightarrow> ino_t \<Rightarrow> fs_code" where
  "lk_FuseUnlink p ino =
     handler (if_alive p (or_return (block [lk_ChildInodeNumberWithName p,
       or_return (block [lk_RemoveChild p, lk_GetInode, lk_link_count ino])])))"

definition lk_FuseRmdir :: "ino_t \<Rightarrow> ino_t \<Rightarrow> ino_t list \<Rightarrow> fs_code" where
  "lk_FuseRmdir p ino kids =
     handler (if_alive p (or_return (block [lk_ChildInodeNumberWithName p,
       or_return (if_alive ino (or_return (block [lk_IsEmpty ino kids,
         or_return (block [lk_RemoveChild p, lk_link_count p, Loop (block [lk_get ino, lk_link_count ino]), lk_get ino])])))])))"

definition lk_FuseForget :: "ino_t \<Rightarrow> fs_code" where
  "lk_FuseForget i =
     handler (block [lk_GetInode, or_return (block [lk_get i,
       or_return (block [lk_get i, Write (Data_Object i), lk_DeleteInode, lk_UpdateUsed, lk_UpdateUsed])])])"

definition lk_FuseWrite :: "ino_t \<Rightarrow> fs_code" where
  "lk_FuseWrite i = handler (or_return (if_alive i (or_return (lk_File_WriteAndReply i))))"

definition lk_FuseRead :: "ino_t \<Rightarrow> fs_code" where
  "lk_FuseRead i = handler (if_alive i (or_return (lk_File_ReadAndReply i)))"

text \<open>
  The locks of a rename are taken together by \<^verbatim>\<open>std::lock\<close>. The source is a directory or not; the
  inode of the new name is \<open>ex\<close>, with the entries \<open>kids\<close> if it is a directory.
\<close>

definition rename_locks :: "bool \<Rightarrow> ino_t \<Rightarrow> ino_t \<Rightarrow> (fs_lock \<times> lock_mode) list" where
  "rename_locks src_dir p q =
     (if src_dir then [(RenameMutex, Exclusive)] else []) @ [(ChildrenRwSem p, Exclusive)] @
     (if p = q then [] else [(ChildrenRwSem q, Exclusive)])"

definition lk_rename_replace :: "bool \<Rightarrow> ino_t \<Rightarrow> ino_t \<Rightarrow> ino_t \<Rightarrow> ino_t \<Rightarrow> bool \<Rightarrow> ino_t list \<Rightarrow> fs_code" where
  "lk_rename_replace src_dir p q src ex ex_dir kids =
     block [lk_get src, if src_dir then lk_get ex else Skip,
       or_return (block [lk_get ex, if ex_dir then lk_IsEmpty ex kids else Skip,
         or_return (block [lk_get src, if src_dir then Skip else lk_get ex,
           or_return (block [lk_link_count ex, lk_UpdateChild_nolock q, lk_RemoveChild_nolock p, lk_get ex,
             if ex_dir then block [lk_link_count ex, lk_link_count ex, lk_link_count p] else Skip])])])]"

definition lk_rename_move :: "bool \<Rightarrow> ino_t \<Rightarrow> ino_t \<Rightarrow> ino_t \<Rightarrow> fs_code" where
  "lk_rename_move src_dir p q src =
     block [lk_AddChild_nolock q, lk_RemoveChild_nolock p, lk_get src,
       if src_dir then block [lk_link_count p, lk_link_count q] else Skip]"

definition lk_FuseRename :: "bool \<Rightarrow> ino_t \<Rightarrow> ino_t \<Rightarrow> ino_t \<Rightarrow> ino_t \<Rightarrow> bool \<Rightarrow> ino_t list \<Rightarrow> fs_code" where
  "lk_FuseRename src_dir p q src ex ex_dir kids =
     handler (block [lk_GetInode, lk_GetInode, or_return (block [lk_get p, or_return (or_return (block [lk_get q,
       or_return (block [lk_ChildInodeNumberWithName p, if_alive src (block [lk_get src,
         Scope (rename_locks src_dir p q)
           (block [lk_find q, lk_GetInode,
              Either (lk_rename_move src_dir p q src)
                (block [lk_get ex,
                   Either (lk_rename_move src_dir p q src) (lk_rename_replace src_dir p q src ex ex_dir kids)])])])])]))])])"

definition lk_FuseLink :: "ino_t \<Rightarrow> ino_t \<Rightarrow> fs_code" where
  "lk_FuseLink i p =
     handler (block [lk_GetInode, lk_GetInode, or_return (block [lk_get i, or_return (or_return (block [lk_get p,
       or_return (block [lk_ChildInodeNumberWithName p, or_return (block [lk_AddChild p,
         or_return (block [lk_link_count i, lk_Reply i])])])]))])])"

definition lk_FuseSymlink :: "ino_t \<Rightarrow> ino_t \<Rightarrow> fs_code" where
  "lk_FuseSymlink p i =
     handler (if_alive p (or_return (block [lk_CheckHasSpaceFor None, lk_GetFreeInodes, lk_ChildInodeNumberWithName p,
       or_return (block [lk_do_create_node False p i, or_return (block [lk_GetInode, lk_Reply i])])])))"

definition lk_FuseStatfs :: fs_code where
  "lk_FuseStatfs = handler lk_FsStat"

definition lk_FuseSetXAttr :: "ino_t \<Rightarrow> fs_code" where
  "lk_FuseSetXAttr i = handler (if_alive i (lk_SetXAttrAndReply i))"

definition lk_FuseGetXAttr :: "ino_t \<Rightarrow> fs_code" where
  "lk_FuseGetXAttr i = handler (if_alive i (lk_GetXAttrAndReply i))"

definition lk_FuseListXAttr :: "ino_t \<Rightarrow> fs_code" where
  "lk_FuseListXAttr i = handler (if_alive i (lk_ListXAttrAndReply i))"

definition lk_FuseRemoveXAttr :: "ino_t \<Rightarrow> fs_code" where
  "lk_FuseRemoveXAttr i = handler (if_alive i (lk_RemoveXAttrAndReply i))"

definition lk_FuseAccess :: "ino_t \<Rightarrow> fs_code" where
  "lk_FuseAccess i = handler (if_alive i (lk_ReplyAccess i))"

definition lk_FuseCreate :: "bool \<Rightarrow> ino_t \<Rightarrow> ino_t \<Rightarrow> fs_code" where
  "lk_FuseCreate dir p i =
     handler (if_alive p (or_return (block [lk_do_create_node dir p i, or_return (block [lk_GetInode, lk_Reply i])])))"

section \<open>Checkpoint, restore and the state file\<close>

text \<open>The copy constructors: the members of the base class, then the entries or the buffer.\<close>

definition lk_copy :: "ino_t \<Rightarrow> fs_code" where
  "lk_copy i = block [Read (Data_Attr i), Read (Data_Xattr i),
     or_return (Either (Read (Data_Children i)) (Read (Data_Buf i)))]"

text \<open>The inodes \<open>is\<close> of the table.\<close>

definition lk_checkpoint :: "ino_t list \<Rightarrow> fs_code" where
  "lk_checkpoint is =
     Scope [(CrMutex, Exclusive)] (block [Read Data_Inodes,
       each (\<lambda>i. block [lk_get i, or_return (lk_copy i)]) is,
       or_return (block [Read Data_DeletedInodes, Read Data_Stbuf, Read Data_Pool, or_return (Write Data_Pool)])])"

definition lk_invalidate_kernel_states :: "ino_t list \<Rightarrow> fs_code" where
  "lk_invalidate_kernel_states is =
     block [Read Data_Inodes, each (\<lambda>i. block [lk_get i, or_return (Read (Data_Children i))]) is]"

definition lk_restore :: "u64 \<Rightarrow> ino_t list \<Rightarrow> ino_t list \<Rightarrow> fs_code" where
  "lk_restore key is saved =
     Scope [(CrMutex, Exclusive)] (block [Read Data_Pool, or_return (block
       [lk_invalidate_kernel_states is, Read Data_DeletedInodes, Write Data_DeletedInodes, Read Data_Stbuf, Write Data_Stbuf,
        each (\<lambda>j. block [Scope [(SavedEntryRwSem key j, Shared)] (Read Data_Pool), or_return (Read Data_Pool)]) saved,
        Either (block [Write Data_DeletedInodes, Write Data_Stbuf])
          (block [each (\<lambda>i. Write (Data_Object i)) is, Write Data_Inodes, Write Data_Pool])])])"

text \<open>\<^verbatim>\<open>pickle_verifs2\<close> with \<^verbatim>\<open>pickle_file_system\<close> and the \<^verbatim>\<open>Pickle\<close> methods; \<^verbatim>\<open>load_verifs2\<close>. Neither takes \<^verbatim>\<open>crMutex\<close>.\<close>

definition lk_pickle_verifs2 :: "ino_t list \<Rightarrow> (u64 \<times> ino_t) list \<Rightarrow> fs_code" where
  "lk_pickle_verifs2 is saved =
     or_return (block [Read Data_Stbuf, Read Data_Inodes,
       each (\<lambda>i. block [Read Data_Inodes, or_return (block [lk_copy i, lk_get i])]) is,
       or_return (block [Read Data_DeletedInodes, Loop (block [Read Data_DeletedInodes, Write Data_DeletedInodes]),
         Read Data_Pool,
         each (\<lambda>(key, j). block [Read Data_Pool, or_return (Scope [(SavedEntryRwSem key j, Shared)] (Read Data_Pool))]) saved])])"

definition lk_load_verifs2 :: fs_code where
  "lk_load_verifs2 =
     or_return (block [Write Data_Pool, Write Data_Inodes, Loop (block [Read Data_DeletedInodes, Write Data_DeletedInodes]),
       Write Data_Stbuf, Loop (Write Data_Inodes),
       or_return (block [Loop (Write Data_DeletedInodes), Read Data_Pool, Loop (block [Read Data_Pool, Write Data_Pool])])])"

section \<open>Requests\<close>

text \<open>
  What an execution finds: the inode of the name, the number given to a new inode, the inode of the new name of a
  rename, whether these are directories, the entries walked, the inodes of the table and of saved states.
\<close>

record found =
  f_child :: ino_t
  f_child_dir :: bool
  f_new :: ino_t
  f_existing :: ino_t
  f_existing_dir :: bool
  f_kids :: "ino_t list"
  f_table :: "ino_t list"
  f_saved :: "(u64 \<times> ino_t) list"

definition lk_FuseIoctl :: "found \<Rightarrow> u32 \<Rightarrow> u64 \<Rightarrow> fs_code" where
  "lk_FuseIoctl f cmd arg =
     (if cmd = VERIFS_CHECKPOINT then lk_checkpoint (f_table f)
      else if cmd = VERIFS_RESTORE then lk_restore arg (f_table f) (map snd (filter (\<lambda>(key, j). key = arg) (f_saved f)))
      else if cmd = VERIFS_PICKLE then lk_pickle_verifs2 (f_table f) (f_saved f)
      else if cmd = VERIFS_LOAD then lk_load_verifs2
      else Skip)"

fun lk_request :: "found \<Rightarrow> request \<Rightarrow> fs_code" where
  "lk_request f (Req_Lookup p n) = lk_FuseLookup p (f_child f)"
| "lk_request f (Req_Forget i n) = lk_FuseForget i"
| "lk_request f (Req_GetAttr i) = lk_FuseGetAttr i"
| "lk_request f (Req_SetAttr i a to_set) = lk_FuseSetAttr i to_set"
| "lk_request f (Req_ReadLink i) = lk_FuseOpen i"
| "lk_request f (Req_Mknod c p n m r) = lk_FuseMknod (S_ISDIR m) p (f_new f)"
| "lk_request f (Req_Mkdir c p n m) = lk_FuseMknod (S_ISDIR (m OR S_IFDIR)) p (f_new f)"
| "lk_request f (Req_Unlink p n) = lk_FuseUnlink p (f_child f)"
| "lk_request f (Req_Rmdir p n) = lk_FuseRmdir p (f_child f) (f_kids f)"
| "lk_request f (Req_Symlink c l p n) = lk_FuseSymlink p (f_new f)"
| "lk_request f (Req_Rename p n q n') =
     lk_FuseRename (f_child_dir f) p q (f_child f) (f_existing f) (f_existing_dir f) (f_kids f)"
| "lk_request f (Req_Link i p n) = lk_FuseLink i p"
| "lk_request f (Req_Open i) = lk_FuseOpen i"
| "lk_request f (Req_Read i z off) = lk_FuseRead i"
| "lk_request f (Req_Write i b off) = lk_FuseWrite i"
| "lk_request f (Req_Flush i) = Skip"
| "lk_request f (Req_Release i) = lk_FuseOpen i"
| "lk_request f (Req_Fsync i) = lk_FuseFsync"
| "lk_request f (Req_OpenDir i) = lk_FuseOpen i"
| "lk_request f (Req_ReadDir i z off) = lk_FuseReadDir i (f_kids f)"
| "lk_request f (Req_ReleaseDir i) = lk_FuseOpen i"
| "lk_request f (Req_FsyncDir i) = lk_FuseOpen i"
| "lk_request f Req_Statfs = lk_FuseStatfs"
| "lk_request f (Req_SetXAttr i n v fl) = lk_FuseSetXAttr i"
| "lk_request f (Req_GetXAttr i n z) = lk_FuseGetXAttr i"
| "lk_request f (Req_ListXAttr i z) = lk_FuseListXAttr i"
| "lk_request f (Req_RemoveXAttr i n) = lk_FuseRemoveXAttr i"
| "lk_request f (Req_Access c i m) = lk_FuseAccess i"
| "lk_request f (Req_Create c p n m) = lk_FuseCreate (S_ISDIR (m OR S_IFREG)) p (f_new f)"
| "lk_request f (Req_GetLock i) = Skip"
| "lk_request f (Req_Ioctl c a) = lk_FuseIoctl f c a"

end
