(* ===== verification/Locking_Props.thy ===== *)
theory Locking_Props
  imports Locking
begin

text \<open>
  What the locks give: an order in which every handler acquires them, so that no pool of handlers is ever stuck
  unless renames cross, and a lock that every access of the tables is made under. Where the code takes the wrong
  lock or none, a pool that races, and for renames that cross, a pool that is stuck.
\<close>

section \<open>The lock order\<close>

fun lock_level :: "fs_lock \<Rightarrow> nat" where
  "lock_level CrMutex = 0"
| "lock_level RenameMutex = 1"
| "lock_level (ChildrenRwSem i) = 2"
| "lock_level InodesRwSem = 3"
| "lock_level DeletedInodesMutex = 3"
| "lock_level (EntryRwSem i) = 4"
| "lock_level (XattrRwSem i) = 5"
| "lock_level (SavedEntryRwSem k j) = 5"
| "lock_level StbufMutex = 6"

text \<open>Locks of a lower level come first; among those of directories, the pairs \<open>N\<close> say which.\<close>

definition lock_before :: "(ino_t \<times> ino_t) set \<Rightarrow> (fs_lock \<times> fs_lock) set" where
  "lock_before N = {(l, l'). lock_level l < lock_level l' \<or>
     (\<exists>x y. l = ChildrenRwSem x \<and> l' = ChildrenRwSem y \<and> (x, y) \<in> N)}"

lemma lock_beforeI [intro]: "lock_level l < lock_level l' \<Longrightarrow> (l, l') \<in> lock_before N"
  by (simp add: lock_before_def)

fun dir_of :: "fs_lock \<Rightarrow> ino_t" where
  "dir_of (ChildrenRwSem i) = i"
| "dir_of _ = 0"

lemma lock_level_le: "lock_level l \<le> 6"
  by (cases l) simp_all

lemma lock_before_order:
  assumes "finite N" "acyclic N"
  shows "lock_order (lock_before N)"
proof (rule lock_order.intro)
  from assms have "wf (N\<inverse>)" by (rule finite_acyclic_wf_converse)
  then have "wf (inv_image (less_than <*lex*> N\<inverse>) (\<lambda>l. (6 - lock_level l, dir_of l)))" by auto
  moreover have "(lock_before N)\<inverse> \<subseteq> inv_image (less_than <*lex*> N\<inverse>) (\<lambda>l. (6 - lock_level l, dir_of l))"
  proof (rule subrelI)
    fix l' l
    assume "(l', l) \<in> (lock_before N)\<inverse>"
    then show "(l', l) \<in> inv_image (less_than <*lex*> N\<inverse>) (\<lambda>l. (6 - lock_level l, dir_of l))"
      using lock_level_le [of l'] by (auto simp: lock_before_def)
  qed
  ultimately show "wf ((lock_before N)\<inverse>)" by (rule wf_subset)
qed

text \<open>Without nested directory locks the levels alone are the order.\<close>

interpretation levels: lock_order "lock_before {}"
  by (rule lock_before_order) (auto simp: acyclic_def)

text \<open>The order of nested scopes, statement by statement.\<close>

definition climbs :: "('l \<times> 'l) set \<Rightarrow> 'l set \<Rightarrow> ('l, 'd) code \<Rightarrow> bool" where
  "climbs B H c \<longleftrightarrow> nesting H c \<subseteq> B"

lemma climbs_simps [simp]:
  "climbs B H Skip" "climbs B H (Read d)" "climbs B H (Write d)"
  "climbs B H (Scope ls c) \<longleftrightarrow> (\<forall>l \<in> H. \<forall>l' \<in> fst ` set ls. (l, l') \<in> B) \<and> climbs B (fst ` set ls \<union> H) c"
  "climbs B H (Then c c') \<longleftrightarrow> climbs B H c \<and> climbs B H c'"
  "climbs B H (Either c c') \<longleftrightarrow> climbs B H c \<and> climbs B H c'"
  "climbs B H (Loop c) \<longleftrightarrow> climbs B H c"
  by (auto simp: climbs_def Un_commute)

lemma climbs_each: "(\<And>i. climbs B H (f i)) \<Longrightarrow> climbs B H (each f is)"
  by (induction "is") (simp_all add: or_return_def)

lemmas lk_inode_defs =
  lk_get_def lk_link_count_def lk_Reply_def lk_ReplySetAttr_def lk_SetXAttrAndReply_def lk_GetXAttrAndReply_def
  lk_ListXAttrAndReply_def lk_RemoveXAttrAndReply_def lk_ReplyAccess_def lk_Initialize_def

lemmas lk_table_defs =
  lk_GetInode_def lk_DeleteInode_def lk_AddInode_def lk_UpdateInode_def lk_PopOneDeletedInode_def lk_UpdateUsed_def
  lk_FsStat_def lk_GetFreeInodes_def lk_CheckHasSpaceFor_def

lemmas lk_object_defs =
  lk_UpdateSize_def lk_Directory_Initialize_def lk_find_def lk_ChildInodeNumberWithName_def lk_AddChild_nolock_def
  lk_AddChild_def lk_UpdateChild_nolock_def lk_RemoveChild_nolock_def lk_RemoveChild_def lk_PrepareReaddir_def
  lk_RecycleStates_def lk_IsEmpty_def lk_FileTruncate_def lk_File_WriteAndReply_def lk_File_ReadAndReply_def
  lk_RegisterInode_def lk_do_create_node_def

lemmas lk_handler_defs =
  handler_def if_alive_def or_return_def lk_FuseLookup_def lk_FuseGetAttr_def lk_FuseSetAttr_def lk_FuseOpen_def
  lk_FuseFsync_def lk_readdir_entry_def lk_FuseReadDir_def lk_FuseMknod_def lk_FuseUnlink_def lk_FuseRmdir_def
  lk_FuseForget_def lk_FuseWrite_def lk_FuseRead_def rename_locks_def lk_rename_replace_def lk_rename_move_def
  lk_FuseRename_def lk_FuseLink_def lk_FuseSymlink_def lk_FuseStatfs_def lk_FuseSetXAttr_def lk_FuseGetXAttr_def
  lk_FuseListXAttr_def lk_FuseRemoveXAttr_def lk_FuseAccess_def lk_FuseCreate_def lk_copy_def lk_checkpoint_def
  lk_invalidate_kernel_states_def lk_restore_def lk_pickle_verifs2_def lk_load_verifs2_def lk_FuseIoctl_def

lemmas lk_defs = lk_inode_defs lk_table_defs lk_object_defs lk_handler_defs

text \<open>The directories a rename holds while it looks into the directory it replaces.\<close>

fun rename_nest :: "found \<Rightarrow> request \<Rightarrow> (ino_t \<times> ino_t) set" where
  "rename_nest f (Req_Rename p n q n') = (if f_existing_dir f then {(p, f_existing f), (q, f_existing f)} else {})"
| "rename_nest f _ = {}"

lemma request_climbs: "rename_nest f r \<subseteq> N \<Longrightarrow> climbs (lock_before N) {} (lk_request f r)"
  by (cases r) (auto simp: lk_defs lock_before_def intro!: climbs_each split: option.splits)

text \<open>Which requests run, what they find, and the actions they perform.\<close>

definition executions :: "(found \<times> request) list \<Rightarrow> (fs_lock, fs_data) action list list \<Rightarrow> bool" where
  "executions qs ss \<longleftrightarrow> list_all2 (\<lambda>(f, r) s. path (lk_request f r) s) qs ss"

definition nest_of :: "(found \<times> request) list \<Rightarrow> (ino_t \<times> ino_t) set" where
  "nest_of qs = (\<Union>(f, r) \<in> set qs. rename_nest f r)"

lemma finite_nest: "finite (nest_of qs)"
proof -
  have "finite (rename_nest f r)" for f r by (cases r) auto
  then show ?thesis by (auto simp: nest_of_def)
qed

lemma executions_code:
  assumes "executions qs ss" "s \<in> set ss"
  obtains f r where "(f, r) \<in> set qs" "path (lk_request f r) s"
proof -
  from assms obtain k where "k < length ss" "s = ss ! k" "k < length qs" "(\<lambda>(f, r) s. path (lk_request f r) s) (qs ! k) (ss ! k)"
    by (auto simp: executions_def list_all2_conv_all_nth in_set_conv_nth)
  with that [of "fst (qs ! k)" "snd (qs ! k)"] show thesis by (simp add: case_prod_beta)
qed

lemma handlers_no_deadlock:
  assumes "executions qs ss" "acyclic (nest_of qs)" "tick\<^sup>*\<^sup>* (start ss) ts"
  shows "\<not> stuck ts" "\<exists>ts'. tick\<^sup>*\<^sup>* ts ts' \<and> finished ts'"
proof -
  have code: "\<forall>s \<in> set ss. \<exists>c. path c s \<and> nesting {} c \<subseteq> lock_before (nest_of qs)"
  proof
    fix s assume "s \<in> set ss"
    with assms(1) obtain f r where fr: "(f, r) \<in> set qs" "path (lk_request f r) s" by (rule executions_code)
    moreover from fr(1) have "rename_nest f r \<subseteq> nest_of qs" by (auto simp: nest_of_def)
    ultimately show "\<exists>c. path c s \<and> nesting {} c \<subseteq> lock_before (nest_of qs)"
      using request_climbs unfolding climbs_def by blast
  qed
  note fin = lock_order.no_deadlock [OF lock_before_order [OF finite_nest assms(2)] code assms(3)]
  from fin(1) show "\<not> stuck ts" by (auto simp: stuck_iff)
  from fin(2) show "\<exists>ts'. tick\<^sup>*\<^sup>* ts ts' \<and> finished ts'" .
qed

text \<open>
  Renames as a kernel sends them that lets one rename between directories through at a time: the directory
  looked into is an entry of the new parent, and the old parent of that one rename is not below it.
\<close>

lemma kernel_renames_acyclic:
  assumes "acyclic T" "\<forall>(f, r) \<in> set qs. rename_nest f r \<subseteq> insert (p, ex) T" "(ex, p) \<notin> T\<^sup>*"
  shows "acyclic (nest_of qs)"
proof (rule acyclic_subset)
  show "acyclic (insert (p, ex) T)" using assms(1,3) by (simp add: acyclic_insert)
  show "nest_of qs \<subseteq> insert (p, ex) T" using assms(2) by (fastforce simp: nest_of_def)
qed

section \<open>Protection\<close>

text \<open>The lock meant to guard each datum; for the last four there is none but \<^verbatim>\<open>crMutex\<close>.\<close>

fun guard_lock :: "fs_data \<Rightarrow> fs_lock" where
  "guard_lock (Data_Children i) = ChildrenRwSem i"
| "guard_lock Data_Inodes = InodesRwSem"
| "guard_lock Data_DeletedInodes = DeletedInodesMutex"
| "guard_lock (Data_Attr i) = EntryRwSem i"
| "guard_lock (Data_Xattr i) = XattrRwSem i"
| "guard_lock Data_Stbuf = StbufMutex"
| "guard_lock (Data_Buf i) = CrMutex"
| "guard_lock Data_Listings = CrMutex"
| "guard_lock Data_Pool = CrMutex"
| "guard_lock (Data_Object i) = CrMutex"

text \<open>
  Either \<^verbatim>\<open>crMutex\<close> is held exclusively, or it is held in some mode and the guard is held, exclusively
  for a write.
\<close>

definition protected :: "(fs_lock \<times> lock_mode) list \<Rightarrow> fs_data \<Rightarrow> lock_mode \<Rightarrow> bool" where
  "protected H d m \<longleftrightarrow> (CrMutex, Exclusive) \<in> set H \<or>
     (\<exists>n. (CrMutex, n) \<in> set H) \<and> ((guard_lock d, Exclusive) \<in> set H \<or> m = Shared \<and> (guard_lock d, Shared) \<in> set H)"

interpretation fs_guard: data_guard protected
proof
  fix H H' d m n
  assume p: "protected H d m" "protected H' d n" "conflict m n"
  consider "(CrMutex, Exclusive) \<in> set H \<or> (CrMutex, Exclusive) \<in> set H'"
    | "(guard_lock d, Exclusive) \<in> set H \<or> m = Shared \<and> (guard_lock d, Shared) \<in> set H"
      "(guard_lock d, Exclusive) \<in> set H' \<or> n = Shared \<and> (guard_lock d, Shared) \<in> set H'"
    using p unfolding protected_def by blast
  then show "\<exists>l a b. (l, a) \<in> set H \<and> (l, b) \<in> set H' \<and> conflict a b"
  proof cases
    case 1
    with p(1,2) show ?thesis unfolding protected_def conflict_def by blast
  next
    case 2
    with p(3) show ?thesis unfolding conflict_def by auto
  qed
qed

lemma guarded_each: "(\<And>i. guarded P D H (f i)) \<Longrightarrow> guarded P D H (each f is)"
  by (induction "is") (simp_all add: or_return_def)

text \<open>The data whose every use is under its guard, among any requests or if no attribute is removed.\<close>

fun guarded_datum :: "bool \<Rightarrow> fs_data \<Rightarrow> bool" where
  "guarded_datum removals (Data_Children i) = True"
| "guarded_datum removals Data_Inodes = True"
| "guarded_datum removals Data_Stbuf = True"
| "guarded_datum removals Data_Pool = True"
| "guarded_datum removals (Data_Xattr i) = (\<not> removals)"
| "guarded_datum removals _ = False"

fun is_removal :: "request \<Rightarrow> bool" where
  "is_removal (Req_RemoveXAttr i n) = True"
| "is_removal _ = False"

text \<open>All requests but the two ioctls for the state file take \<^verbatim>\<open>crMutex\<close> or touch nothing.\<close>

fun takes_cr_mutex :: "request \<Rightarrow> bool" where
  "takes_cr_mutex (Req_Ioctl c a) = (c \<noteq> VERIFS_PICKLE \<and> c \<noteq> VERIFS_LOAD)"
| "takes_cr_mutex _ = True"

lemma request_guarded:
  "takes_cr_mutex r \<Longrightarrow> (is_removal r \<Longrightarrow> removals) \<Longrightarrow> guarded protected {d. guarded_datum removals d} [] (lk_request f r)"
  by (cases r) (auto simp: lk_defs protected_def intro!: guarded_each split: option.splits)

lemma handlers_no_race:
  assumes "executions qs ss" "\<forall>(f, r) \<in> set qs. takes_cr_mutex r" "tick\<^sup>*\<^sup>* (start ss) ts"
    and d: "guarded_datum (\<exists>(f, r) \<in> set qs. is_removal r) d"
  shows "\<not> racing d ts"
proof (rule fs_guard.no_race [OF _ assms(3)])
  let ?R = "\<exists>(f, r) \<in> set qs. is_removal r"
  show "\<forall>s \<in> set ss. \<exists>c. path c s \<and> guarded protected {d. guarded_datum ?R d} [] c"
  proof
    fix s assume "s \<in> set ss"
    with assms(1) obtain f r where "(f, r) \<in> set qs" "path (lk_request f r) s" by (rule executions_code)
    moreover from this(1) assms(2) have "guarded protected {d. guarded_datum ?R d} [] (lk_request f r)"
      by (intro request_guarded) auto
    ultimately show "\<exists>c. path c s \<and> guarded protected {d. guarded_datum ?R d} [] c" by blast
  qed
qed (use d in simp)


section \<open>Pools on concrete requests\<close>

lemma case_SomeE: "(case x of None \<Rightarrow> False | Some y \<Rightarrow> P y) \<Longrightarrow> (\<And>y. x = Some y \<Longrightarrow> P y \<Longrightarrow> thesis) \<Longrightarrow> thesis"
  by (simp split: option.splits)

text \<open>The pool in which the tests of each request go as its list says.\<close>

definition pool_of :: "(found \<times> request) list \<Rightarrow> bool list list \<Rightarrow> (fs_lock, fs_data) action list list" where
  "pool_of qs bss = map2 (\<lambda>(f, r) bs. fst (pick bs (lk_request f r))) qs bss"

lemma executions_pool: "length qs = length bss \<Longrightarrow> executions qs (pool_of qs bss)"
  by (auto simp: executions_def pool_of_def list_all2_conv_all_nth path_pick split: prod.splits)

text \<open>Whether two requests race on a datum after so many steps of the one and so many of the other.\<close>

definition races_after :: "(found \<times> request) list \<Rightarrow> bool list \<Rightarrow> nat \<Rightarrow> nat \<Rightarrow> fs_data \<Rightarrow> bool" where
  "races_after qs bs a b d \<longleftrightarrow> length qs = 2 \<and>
     (case run_schedule (replicate a 0 @ replicate b 1) (start (pool_of qs [bs, bs])) of
        None \<Rightarrow> False | Some ts \<Rightarrow> about_to_race d 0 1 ts)"

lemma races_after_race:
  assumes "races_after qs bs a b d"
  shows "\<exists>ss ts. executions qs ss \<and> tick\<^sup>*\<^sup>* (start ss) ts \<and> racing d ts"
proof -
  from assms obtain ts where "run_schedule (replicate a 0 @ replicate b 1) (start (pool_of qs [bs, bs])) = Some ts"
    "about_to_race d 0 1 ts" "length qs = length [bs, bs]"
    by (auto simp: races_after_def split: option.splits)
  then show ?thesis using executions_pool run_ticks about_to_race_racing by metis
qed

definition found_file :: found where
  "found_file = \<lparr>f_child = 6, f_child_dir = False, f_new = 9, f_existing = 0, f_existing_dir = False, f_kids = [],
     f_table = [0, 1, 2], f_saved = []\<rparr>"

definition crossing_renames :: "(found \<times> request) list" where
  "crossing_renames =
     [(found_file \<lparr>f_existing := 4, f_existing_dir := True\<rparr>, Req_Rename 2 ''f'' 3 ''y''),
      (found_file \<lparr>f_child := 7, f_existing := 2, f_existing_dir := True\<rparr>, Req_Rename 4 ''g'' 5 ''a'')]"

definition root_ctx :: fuse_ctx where
  "root_ctx = \<lparr>ctx_uid = 0, ctx_gid = 0\<rparr>"

definition all_on :: "bool list" where
  "all_on = replicate 12 True"

definition busy_pool :: "(found \<times> request) list" where
  "busy_pool =
     [(found_file \<lparr>f_existing := 7, f_existing_dir := True, f_kids := [8]\<rparr>, Req_Rename 1 ''a'' 2 ''b''),
      (found_file, Req_Mkdir root_ctx 2 ''d'' 0), (found_file, Req_Ioctl VERIFS_CHECKPOINT 5)]"

definition busy_schedule :: "nat list" where
  "busy_schedule = replicate 45 0 @ replicate 10 1"

section \<open>No deadlock\<close>

text \<open>
  (C15) Any number of requests served at the same time, whatever they find and however they are interleaved: unless
  renames over directories form a cycle (each holding a directory that another looks into), no reachable state of the
  pool is stuck, from each of them all requests can run to their end, and no schedule is longer than the actions left,
  so that they do so whichever thread that can move is chosen at each step.
\<close>

theorem handlers_deadlock_free:
  assumes "executions qs ss" "acyclic (nest_of qs)" "tick\<^sup>*\<^sup>* (start ss) ts"
  shows "\<not> stuck ts \<and> (\<exists>ts'. tick\<^sup>*\<^sup>* ts ts' \<and> finished ts') \<and>
    (\<forall>is ts'. run_schedule is ts = Some ts' \<longrightarrow> length is \<le> actions_left ts)"
  using handlers_no_deadlock [OF assms] run_length by fastforce

text \<open>
  A rename that holds three directories, a creation that waits for one of them and a checkpoint that waits for both.
\<close>

lemma busy_acyclic: "acyclic (nest_of busy_pool)"
  by (rule acyclicI_order [where f = "\<lambda>i. if i = 7 then 0 else 1 :: nat"]) (auto simp: nest_of_def busy_pool_def)

theorem handlers_deadlock_free_witness:
  "\<exists>ts. run_schedule busy_schedule (start (pool_of busy_pool [all_on, all_on, all_on])) = Some ts \<and>
     at_rest 1 ts \<and> at_rest 2 ts \<and> \<not> stuck ts \<and> (\<exists>ts'. tick\<^sup>*\<^sup>* ts ts' \<and> finished ts')"
proof -
  have "case run_schedule busy_schedule (start (pool_of busy_pool [all_on, all_on, all_on])) of
          None \<Rightarrow> False | Some ts \<Rightarrow> at_rest 1 ts \<and> at_rest 2 ts" by code_simp
  then obtain ts where ts: "run_schedule busy_schedule (start (pool_of busy_pool [all_on, all_on, all_on])) = Some ts"
    "at_rest 1 ts \<and> at_rest 2 ts" by (rule case_SomeE)
  have "executions busy_pool (pool_of busy_pool [all_on, all_on, all_on])"
    by (rule executions_pool) (simp add: busy_pool_def)
  from handlers_deadlock_free [OF this busy_acyclic run_ticks [OF ts(1)]] ts show ?thesis by blast
qed

text \<open>Two renames over directories, each of which holds the directory that the other is to replace.\<close>

lemma crossing_renames_deadlock:
  "\<exists>ss ts. executions crossing_renames ss \<and> tick\<^sup>*\<^sup>* (start ss) ts \<and> stuck ts"
proof -
  have "case run_schedule (replicate 39 0 @ replicate 39 1) (start (pool_of crossing_renames [all_on, all_on])) of
          None \<Rightarrow> False | Some ts \<Rightarrow> stuck ts" by code_simp
  then obtain ts where "run_schedule (replicate 39 0 @ replicate 39 1) (start (pool_of crossing_renames [all_on, all_on])) = Some ts"
    "stuck ts" by (rule case_SomeE)
  moreover have "executions crossing_renames (pool_of crossing_renames [all_on, all_on])"
    by (rule executions_pool) (simp add: crossing_renames_def)
  ultimately show ?thesis using run_ticks by blast
qed

section \<open>No data race\<close>

text \<open>
  (C16) Any number of requests served at the same time, the pickle and load ioctls apart: in no interleaving are two
  of them about to touch, one of them writing, the entries of the same directory, the inode table, the counters or
  the pool of saved states; nor, if no request removes one, the extended attributes of the same inode.
\<close>

theorem handlers_race_free:
  assumes "executions qs ss" "\<forall>(f, r) \<in> set qs. takes_cr_mutex r" "tick\<^sup>*\<^sup>* (start ss) ts"
    and "guarded_datum (\<exists>(f, r) \<in> set qs. is_removal r) d"
  shows "\<not> racing d ts"
  using handlers_no_race [OF assms] .

theorem handlers_race_free_witness:
  "\<exists>ts. run_schedule busy_schedule (start (pool_of busy_pool [all_on, all_on, all_on])) = Some ts \<and>
     next_touch (ts ! 0) = Some (Data_Attr 8, Shared) \<and> \<not> racing (Data_Children 2) ts \<and> \<not> racing (Data_Xattr 2) ts"
proof -
  have "case run_schedule busy_schedule (start (pool_of busy_pool [all_on, all_on, all_on])) of
          None \<Rightarrow> False | Some ts \<Rightarrow> next_touch (ts ! 0) = Some (Data_Attr 8, Shared)" by code_simp
  then obtain ts where ts: "run_schedule busy_schedule (start (pool_of busy_pool [all_on, all_on, all_on])) = Some ts"
    "next_touch (ts ! 0) = Some (Data_Attr 8, Shared)" by (rule case_SomeE)
  have e: "executions busy_pool (pool_of busy_pool [all_on, all_on, all_on])"
    by (rule executions_pool) (simp add: busy_pool_def)
  have t: "\<forall>(f, r) \<in> set busy_pool. takes_cr_mutex r" by (simp add: busy_pool_def ioctl_codes)
  have "guarded_datum (\<exists>(f, r) \<in> set busy_pool. is_removal r) d" if "d \<in> {Data_Children 2, Data_Xattr 2}" for d
    using that by (auto simp: busy_pool_def)
  then show ?thesis using handlers_race_free [OF e t run_ticks [OF ts(1)]] ts by blast
qed

subsection \<open>Accesses the locks leave open\<close>

text \<open>
  The removal of an extended attribute holds \<^verbatim>\<open>entryRwSem\<close>, its readers \<^verbatim>\<open>xattrRwSem\<close>.
\<close>

lemma xattr_removal_races:
  "\<exists>ss ts. executions [(found_file, Req_GetXAttr 2 ''user.a'' 0), (found_file, Req_RemoveXAttr 2 ''user.a'')] ss \<and>
     tick\<^sup>*\<^sup>* (start ss) ts \<and> racing (Data_Xattr 2) ts"
  by (rule races_after_race [of _ all_on 8 9]) code_simp

text \<open>\<^verbatim>\<open>RegisterInode\<close> asks whether the queue is empty without its mutex.\<close>

lemma queue_test_races:
  "\<exists>ss ts. executions [(found_file, Req_Create root_ctx 1 ''b'' 0), (found_file, Req_Forget 2 1)] ss \<and>
     tick\<^sup>*\<^sup>* (start ss) ts \<and> racing Data_DeletedInodes ts"
  by (rule races_after_race [of _ all_on 10 13]) code_simp

text \<open>The time stamps of a directory are set under \<^verbatim>\<open>childrenRwSem\<close> and read under \<^verbatim>\<open>entryRwSem\<close>.\<close>

lemma directory_times_race:
  "\<exists>ss ts. executions [(found_file, Req_Unlink 1 ''a''), (found_file, Req_GetAttr 1)] ss \<and>
     tick\<^sup>*\<^sup>* (start ss) ts \<and> racing (Data_Attr 1) ts"
  by (rule races_after_race [of _ all_on 20 5]) code_simp

text \<open>The buffer of a file is written without a lock.\<close>

lemma file_buffer_races:
  "\<exists>ss ts. executions [(found_file, Req_Write 2 (Some []) 0), (found_file, Req_Read 2 1 0)] ss \<and>
     tick\<^sup>*\<^sup>* (start ss) ts \<and> racing (Data_Buf 2) ts"
  by (rule races_after_race [of _ all_on 25 11]) code_simp

text \<open>The table of listings has no lock.\<close>

lemma listings_race:
  "\<exists>ss ts. executions [(found_file, Req_ReadDir 1 100 0), (found_file, Req_ReadDir 1 100 0)] ss \<and>
     tick\<^sup>*\<^sup>* (start ss) ts \<and> racing Data_Listings ts"
  by (rule races_after_race [of _ all_on 10 12]) code_simp

text \<open>Loading a state file replaces the inode table without \<^verbatim>\<open>crMutex\<close>, while other requests use it.\<close>

lemma load_races:
  "\<exists>ss ts. executions [(found_file, Req_Ioctl VERIFS_LOAD 0), (found_file, Req_Lookup 1 ''a'')] ss \<and>
     tick\<^sup>*\<^sup>* (start ss) ts \<and> racing Data_Inodes ts"
  by (rule races_after_race [of _ all_on 1 2]) code_simp

end
