(* ===== verification/Util.thy ===== *)
theory Util
  imports Ram_Fs
begin

text \<open>
  The command line (\<^verbatim>\<open>util.cpp\<close> and \<^verbatim>\<open>main.cpp\<close>): sizes with a unit, the option string of
  \<^verbatim>\<open>-o\<close>, the argument vector, and the file system \<^verbatim>\<open>main\<close> makes of them. Strings hold no NUL.

  A result \<open>None\<close> is an access outside a string or buffer, or a loop that does not end; \<open>Inl n\<close> is a
  call of \<^verbatim>\<open>exit(n)\<close>.
\<close>

section \<open>Sizes\<close>

abbreviation NUL :: char where "NUL \<equiv> CHR 0x00"

definition OPTION_MAX :: nat where "OPTION_MAX = 131072"

definition is_digit :: "char \<Rightarrow> bool" where
  "is_digit c \<longleftrightarrow> 48 \<le> (of_char c :: nat) \<and> (of_char c :: nat) \<le> 57"

definition digit_val :: "char \<Rightarrow> nat" where
  "digit_val c = of_char c - 48"

text \<open>The chain of tests on the last character; a digit is not a unit but part of the number.\<close>

definition size_unit :: "char \<Rightarrow> size_t option" where
  "size_unit uc =
     (if is_digit uc then Some 1
      else if uc = CHR ''k'' \<or> uc = CHR ''K'' then Some 1024
      else if uc = CHR ''m'' \<or> uc = CHR ''M'' then Some 1048576
      else if uc = CHR ''g'' \<or> uc = CHR ''G'' then Some (1048576 * 1024)
      else if uc = CHR ''t'' \<or> uc = CHR ''T'' then Some (1048576 * 1048576)
      else if uc = CHR ''p'' \<or> uc = CHR ''P'' then Some (1048576 * 1048576 * 1024)
      else if uc = CHR ''e'' \<or> uc = CHR ''E'' then Some (1048576 * 1048576 * 1048576)
      else None)"

text \<open>The loop over the number, from its last character down; \<open>None\<close> at a non-digit.\<close>

fun gather_number :: "string \<Rightarrow> size_t \<Rightarrow> size_t \<Rightarrow> size_t option" where
  "gather_number [] sz magnitude = Some sz"
| "gather_number (cur # below) sz magnitude =
     (if \<not> is_digit cur then None
      else gather_number below (sz + magnitude * of_nat (digit_val cur)) (magnitude * 10))"

text \<open>\<open>None\<close>: the search for the last character that is not a space leaves the string.\<close>

definition SizeStr2Number :: "string \<Rightarrow> size_t option" where
  "SizeStr2Number str =
     (let len = min (length str) OPTION_MAX in
      case dropWhile (\<lambda>c. c = CHR '' '') (rev (take len str)) of
        [] \<Rightarrow> None
      | uc # below \<Rightarrow>
          (case size_unit uc of
             None \<Rightarrow> Some 0
           | Some unit \<Rightarrow>
               (case gather_number (if is_digit uc then uc # below else below) 0 1 of
                  None \<Rightarrow> Some 0
                | Some sz \<Rightarrow> Some (sz * unit))))"

section \<open>The option string\<close>

record fuse_ramfs_options =
  capacity :: size_t
  inodes :: size_t
  deamonize :: bool
  subtype :: "string option"
  mountpoint :: "string option"
  optstr :: "string option"

definition no_options :: fuse_ramfs_options where
  "no_options = \<lparr>capacity = 0, inodes = 0, deamonize = False, subtype = None, mountpoint = None, optstr = None\<rparr>"

text \<open>\<^verbatim>\<open>strtok_r\<close> with a single delimiter: the next token and what the saved pointer points at.\<close>

definition strtok_r :: "char \<Rightarrow> string \<Rightarrow> string option \<times> string" where
  "strtok_r d s =
     (case dropWhile (\<lambda>c. c = d) s of
        [] \<Rightarrow> (None, [])
      | t \<Rightarrow> (Some (takeWhile (\<lambda>c. c \<noteq> d) t), drop 1 (dropWhile (\<lambda>c. c \<noteq> d) t)))"

definition key_value :: "string \<Rightarrow> string option \<times> string option" where
  "key_value kvtoken =
     (let (key, ctx2) = strtok_r (CHR ''='') kvtoken in (key, fst (strtok_r (CHR ''='') ctx2)))"

text \<open>Storing characters at the cursor of a buffer of \<open>n\<close> bytes, of which \<open>out\<close> is written.\<close>

definition put_chars :: "nat \<Rightarrow> string \<Rightarrow> string \<Rightarrow> string option" where
  "put_chars n out cs = (if length out + length cs \<le> n then Some (out @ cs) else None)"

text \<open>The body of the loop for a token with a key.\<close>

definition parse_token ::
    "nat \<Rightarrow> string \<Rightarrow> string option \<Rightarrow> fuse_ramfs_options \<times> string \<Rightarrow> (fuse_ramfs_options \<times> string) option" where
  "parse_token n key value st = (let (opt, out) = st in
     if key = ''size'' then
       (case value of None \<Rightarrow> Some st
        | Some v \<Rightarrow> map_option (\<lambda>x. (opt\<lparr>capacity := x\<rparr>, out)) (SizeStr2Number v))
     else if key = ''inodes'' then
       (case value of None \<Rightarrow> Some st
        | Some v \<Rightarrow> map_option (\<lambda>x. (opt\<lparr>inodes := x\<rparr>, out)) (SizeStr2Number v))
     else if key = ''subtype'' then
       Some (case value of None \<Rightarrow> st | Some v \<Rightarrow> (opt\<lparr>subtype := Some v\<rparr>, out))
     else do {
       out \<leftarrow> (if out \<noteq> [] then put_chars n out '','' else Some out);
       out \<leftarrow> put_chars n out (take OPTION_MAX key);
       out \<leftarrow> (case value of None \<Rightarrow> Some out
              | Some v \<Rightarrow> put_chars n out (CHR ''='' # take OPTION_MAX v));
       Some (opt, out)
     })"

text \<open>The loop. A token without a key is looked at again: \<^verbatim>\<open>continue\<close> skips the step to the next.\<close>

partial_function (option) parse_tokens ::
    "nat \<Rightarrow> string option \<Rightarrow> string \<Rightarrow> fuse_ramfs_options \<times> string \<Rightarrow> (fuse_ramfs_options \<times> string) option" where
  "parse_tokens n kvtoken ctx1 st =
     (case kvtoken of
        None \<Rightarrow> Some st
      | Some tok \<Rightarrow>
          (case key_value tok of
             (None, _) \<Rightarrow> parse_tokens n kvtoken ctx1 st
           | (Some key, value) \<Rightarrow>
               parse_token n key value st \<bind>
               (\<lambda>st. parse_tokens n (fst (strtok_r (CHR '','') ctx1)) (snd (strtok_r (CHR '','') ctx1)) st)))"

text \<open>The switches before the option string, up to the \<^verbatim>\<open>o\<close>; without one the copy leaves the string.\<close>

fun bypass_switches :: "nat \<Rightarrow> string \<Rightarrow> string \<Rightarrow> (string \<times> string) option" where
  "bypass_switches n out [] = None"
| "bypass_switches n out (c # cs) =
     put_chars n out [c] \<bind> (\<lambda>out. if c = CHR ''o'' then Some (out, cs) else bypass_switches n out cs)"

text \<open>
  The end of \<^verbatim>\<open>ramfs_parse_options\<close>: the character before the cursor is erased when it is an \<^verbatim>\<open>o\<close>, and
  with it a \<^verbatim>\<open>-\<close> before it. When nothing has been copied, or an \<^verbatim>\<open>o\<close> alone, the test reads the byte in front
  of the buffer: no result. \<open>junk\<close> is what the buffer held.
\<close>

definition erase_o :: "(nat \<Rightarrow> char) \<Rightarrow> nat \<Rightarrow> string \<Rightarrow> string option" where
  "erase_o junk n out =
     (let buf = out @ map junk [length out..<n]; k = length out in
      if k = 0 then None
      else if out ! (k - 1) \<noteq> CHR ''o'' then Some buf
      else if k = 1 then None
      else if out ! (k - 2) = CHR ''-'' then Some (buf[k - 1 := NUL, k - 2 := NUL])
      else Some (buf[k - 1 := NUL]))"

text \<open>The options found and the buffer with those that were not recognised.\<close>

definition ramfs_parse_options ::
    "(nat \<Rightarrow> char) \<Rightarrow> string \<Rightarrow> fuse_ramfs_options \<Rightarrow> (int + fuse_ramfs_options \<times> string) option" where
  "ramfs_parse_options junk str opt =
     (let n = min (length str) OPTION_MAX + 1 in do {
        (out, rest) \<leftarrow> (if take 1 str = ''-'' then bypass_switches n [] str else Some ([], str));
        (opt, out) \<leftarrow> parse_tokens n (fst (strtok_r (CHR '','') rest)) (snd (strtok_r (CHR '','') rest)) (opt, out);
        if capacity opt > 0 \<and> capacity opt < 1024 then Some (Inl 1)
        else if inodes opt > 0 \<and> inodes opt < 2 then Some (Inl 1)
        else map_option (\<lambda>newopt. Inr (opt, newopt)) (erase_o junk n out)
      })"

text \<open>The C string in a buffer; \<open>None\<close> when no NUL ends it.\<close>

definition cstring :: "string \<Rightarrow> string option" where
  "cstring buf = (if NUL \<in> set buf then Some (takeWhile (\<lambda>c. c \<noteq> NUL) buf) else None)"

section \<open>The argument vector\<close>

text \<open>\<^verbatim>\<open>struct fuse_args\<close>; a null pointer in the vector is \<open>None\<close>.\<close>

record fuse_args =
  argc :: nat
  argv :: "string option list"
  allocated :: bool

text \<open>\<open>m\<close> rounds of \<^verbatim>\<open>argv[i] = argv[i+1]\<close>.\<close>

primrec shift_args :: "nat \<Rightarrow> nat \<Rightarrow> string option list \<Rightarrow> string option list" where
  "shift_args i 0 v = v"
| "shift_args i (Suc m) v = shift_args (Suc i) m (v[i := v ! Suc i])"

definition erase_arg :: "fuse_args \<Rightarrow> nat \<Rightarrow> fuse_args" where
  "erase_arg args index =
     (if index \<ge> argc args then args
      else args\<lparr>argv := (shift_args index (argc args - 1 - index) (argv args))[argc args - 1 := None],
                argc := argc args - 1\<rparr>)"

text \<open>\<open>add_arg\<close> is libfuse's \<^verbatim>\<open>fuse_opt_add_arg\<close>.\<close>

definition ramfs_set_subtype :: "(fuse_args \<Rightarrow> string \<Rightarrow> fuse_args) \<Rightarrow> fuse_args \<Rightarrow> string \<Rightarrow> fuse_args" where
  "ramfs_set_subtype add_arg args sub =
     (let len = min (length sub) OPTION_MAX + 32 in add_arg args (take (len - 1) (''-osubtype='' @ sub)))"

text \<open>
  \<^verbatim>\<open>getopt\<close> comes from the C library: with its internal state, \<^verbatim>\<open>optind\<close> and the vector, it gives the
  option character (none for -1), the new state and \<^verbatim>\<open>optind\<close>, and the vector, which it may permute.
\<close>

type_synonym 'g getopt =
  "'g \<Rightarrow> nat \<Rightarrow> nat \<Rightarrow> string option list \<Rightarrow> char option \<times> 'g \<times> nat \<times> string option list"

record cmdline =
  cl_args :: fuse_args
  cl_options :: fuse_ramfs_options
  o_idx1 :: nat
  argo_idx :: nat

text \<open>The case \<^verbatim>\<open>'o'\<close>: the whole argument is copied and parsed.\<close>

definition case_o :: "(nat \<Rightarrow> char) \<Rightarrow> nat \<Rightarrow> cmdline \<Rightarrow> (int + cmdline) option" where
  "case_o junk optind cl =
     (let args = cl_args cl in
      if optind < 2 \<or> optind > length (argv args) then None
      else case argv args ! (optind - 1) of
        None \<Rightarrow> None
      | Some str \<Rightarrow>
          if length str > OPTION_MAX then None
          else do {
            r \<leftarrow> ramfs_parse_options junk str (cl_options cl);
            case r of
              Inl code \<Rightarrow> Some (Inl code)
            | Inr (opt, newopt) \<Rightarrow> do {
                s \<leftarrow> cstring newopt;
                let cl = cl\<lparr>cl_options := opt\<lparr>optstr := Some s\<rparr>\<rparr>;
                Some (Inr (if s = [] then
                  cl\<lparr>argo_idx := optind - 1,
                     o_idx1 := (if argv args ! (optind - 2) = Some ''-o'' then optind - 2 else o_idx1 cl)\<rparr>
                else cl\<lparr>cl_args := args\<lparr>argv := (argv args)[optind - 1 := Some s]\<rparr>\<rparr>))
              }
          })"

partial_function (option) getopt_loop ::
    "'g getopt \<Rightarrow> (nat \<Rightarrow> char) \<Rightarrow> 'g \<Rightarrow> nat \<Rightarrow> cmdline \<Rightarrow> (int + nat \<times> cmdline) option" where
  "getopt_loop getopt junk g optind cl =
     (case getopt g optind (argc (cl_args cl)) (argv (cl_args cl)) of
        (opt, g, optind, v) \<Rightarrow>
          (let cl = cl\<lparr>cl_args := (cl_args cl)\<lparr>argv := v\<rparr>\<rparr> in
           case opt of
             None \<Rightarrow> Some (Inr (optind, cl))
           | Some c \<Rightarrow>
               if c = CHR ''o'' then
                 case_o junk optind cl \<bind>
                   case_sum (\<lambda>code. Some (Inl code)) (\<lambda>cl. getopt_loop getopt junk g optind cl)
               else if c = CHR ''b'' then
                 getopt_loop getopt junk g (optind - 1)
                   (cl\<lparr>cl_options := (cl_options cl)\<lparr>deamonize := True\<rparr>, cl_args := erase_arg (cl_args cl) (optind - 1)\<rparr>)
               else getopt_loop getopt junk g optind cl))"

text \<open>
  What follows the loop; \<open>base\<close> is the C library's \<^verbatim>\<open>basename\<close>. A subtype that an option gave points into the
  copy of the argument, which the loop has freed, and is printed at the end: no result.
\<close>

definition finish_cmdline ::
    "(fuse_args \<Rightarrow> string \<Rightarrow> fuse_args) \<Rightarrow> (string \<Rightarrow> string) \<Rightarrow> nat \<Rightarrow> cmdline
     \<Rightarrow> (int + fuse_args \<times> fuse_ramfs_options) option" where
  "finish_cmdline add_arg base optind cl =
     (let args = cl_args cl; options = cl_options cl in
      if optind \<ge> argc args then Some (Inl 1)
      else if optind \<noteq> argc args - 1 then Some (Inl 1)
      else if subtype options \<noteq> None then None
      else do {
        arg \<leftarrow> argv args ! optind;
        prog \<leftarrow> argv args ! 0;
        let options = options\<lparr>mountpoint := Some (take OPTION_MAX arg)\<rparr>;
        let args = erase_arg args optind;
        let options = options\<lparr>subtype := Some (base prog)\<rparr>;
        let args = ramfs_set_subtype add_arg args (base prog);
        let args = (if argo_idx cl \<noteq> 0 then erase_arg args (argo_idx cl) else args);
        let args = (if o_idx1 cl \<noteq> 0 then erase_arg args (o_idx1 cl) else args);
        let args = add_arg (add_arg args ''-odefault_permissions'') ''-oallow_other'';
        Some (Inr (args, options))
      })"

definition ramfs_parse_cmdline ::
    "'g getopt \<Rightarrow> (fuse_args \<Rightarrow> string \<Rightarrow> fuse_args) \<Rightarrow> (string \<Rightarrow> string) \<Rightarrow> (nat \<Rightarrow> char) \<Rightarrow> 'g
     \<Rightarrow> fuse_args \<Rightarrow> fuse_ramfs_options \<Rightarrow> (int + fuse_args \<times> fuse_ramfs_options) option" where
  "ramfs_parse_cmdline getopt add_arg base junk g args options = do {
     r \<leftarrow> getopt_loop getopt junk g 1 \<lparr>cl_args = args, cl_options = options, o_idx1 = 0, argo_idx = 0\<rparr>;
     case r of
       Inl code \<Rightarrow> Some (Inl code)
     | Inr (optind, cl) \<Rightarrow> finish_cmdline add_arg base optind cl
   }"

section \<open>The entry point\<close>

text \<open>
  \<^verbatim>\<open>copy_args\<close>: the vector, with pointers of 8 bytes, and then each string. A failed \<^verbatim>\<open>malloc\<close> is not checked for,
  and the store through the null pointer follows.
\<close>

primrec copy_strings :: "env \<Rightarrow> string list \<Rightarrow> string option list option" where
  "copy_strings e [] = Some []"
| "copy_strings e (s # ss) =
     (if env_alloc e (of_nat (length s + 1)) then map_option (\<lambda>v. Some s # v) (copy_strings e ss) else None)"

definition copy_args :: "env \<Rightarrow> string list \<Rightarrow> string option list option" where
  "copy_args e args =
     (if args \<noteq> [] \<and> \<not> env_alloc e (of_nat (8 * length args)) then None else copy_strings e args)"

text \<open>The part of \<^verbatim>\<open>main\<close> before the mount: the arguments left for libfuse, the options, the file system.\<close>

definition main_setup ::
    "env \<Rightarrow> 'g getopt \<Rightarrow> (fuse_args \<Rightarrow> string \<Rightarrow> fuse_args) \<Rightarrow> (string \<Rightarrow> string) \<Rightarrow> (nat \<Rightarrow> char) \<Rightarrow> 'g
     \<Rightarrow> string list \<Rightarrow> (int + fuse_args \<times> fuse_ramfs_options \<times> fs) option" where
  "main_setup e getopt add_arg base junk g args = do {
     fuse_argv \<leftarrow> copy_args e args;
     r \<leftarrow> ramfs_parse_cmdline getopt add_arg base junk g
       \<lparr>argc = length args, argv = fuse_argv, allocated = True\<rparr> no_options;
     Some (case r of
       Inl code \<Rightarrow> Inl code
     | Inr (fargs, options) \<Rightarrow>
         Inr (fargs, options, FuseRamFs_new (capacity options div BufBlockSize) (inodes options)))
   }"

end
