(* ===== verification/Util_Props.thy ===== *)
theory Util_Props
  imports Util Demo
begin

text \<open>
  The command line: what a size means, when parsing the options ends, how the argument vector
  shrinks, and the file system a command line with a size gives.
\<close>

section \<open>Sizes\<close>

text \<open>The value of a decimal numeral, read from the left.\<close>

definition decimal :: "string \<Rightarrow> nat" where
  "decimal ds = foldl (\<lambda>a c. 10 * a + digit_val c) 0 ds"

lemma gather_number_decimal:
  "list_all is_digit ds \<Longrightarrow> gather_number (rev ds) sz mag = Some (sz + mag * of_nat (decimal ds))"
proof (induction ds arbitrary: sz mag rule: rev_induct)
  case (snoc c ds)
  then show ?case by (simp add: decimal_def algebra_simps)
qed (simp add: decimal_def)

lemma gather_number_none: "c \<in> set cs \<Longrightarrow> \<not> is_digit c \<Longrightarrow> gather_number cs sz mag = None"
  by (induction cs sz mag rule: gather_number.induct) auto

lemma size_unit_not_space: "size_unit u = Some m \<Longrightarrow> u \<noteq> CHR '' ''"
  by (auto simp: size_unit_def is_digit_def)

lemma SizeStr2Number_split:
  assumes "length ds + Suc k \<le> OPTION_MAX" "u \<noteq> CHR '' ''"
  shows "SizeStr2Number (ds @ u # replicate k (CHR '' '')) =
    (case size_unit u of None \<Rightarrow> Some 0
     | Some unit \<Rightarrow> (case gather_number (if is_digit u then u # rev ds else rev ds) 0 1 of
         None \<Rightarrow> Some 0 | Some sz \<Rightarrow> Some (sz * unit)))"
proof -
  have "dropWhile (\<lambda>c. c = CHR '' '') (replicate k (CHR '' '') @ u # rev ds) = u # rev ds"
    using assms(2) by (induction k) auto
  then show ?thesis using assms(1) by (simp add: SizeStr2Number_def)
qed

lemma SizeStr2Number_None: "SizeStr2Number str = None \<longleftrightarrow> (\<forall>c \<in> set (take OPTION_MAX str). c = CHR '' '')"
proof -
  have t: "take (min (length str) OPTION_MAX) str = take OPTION_MAX str" by (simp add: min_def)
  have "SizeStr2Number str = None \<longleftrightarrow> dropWhile (\<lambda>c. c = CHR '' '') (rev (take OPTION_MAX str)) = []"
    unfolding SizeStr2Number_def Let_def t
    by (cases "dropWhile (\<lambda>c. c = CHR '' '') (rev (take OPTION_MAX str))") (simp_all split: option.split del: dropWhile_eq_Nil_conv)
  then show ?thesis by (simp add: dropWhile_eq_Nil_conv)
qed

text \<open>
  (C40) A size is the value of its decimal numeral times its unit, modulo the width of \<^verbatim>\<open>size_t\<close>: the loop
  from the last digit down computes what reading the numeral from the left gives, and spaces behind
  the unit do not matter.
\<close>

theorem size_with_unit:
  assumes "list_all is_digit ds" "size_unit u = Some unit" "\<not> is_digit u" "length ds + Suc k \<le> OPTION_MAX"
  shows "SizeStr2Number (ds @ u # replicate k (CHR '' '')) = Some (of_nat (decimal ds) * unit)"
  using SizeStr2Number_split [OF assms(4) size_unit_not_space [OF assms(2)]] assms
  by (simp add: gather_number_decimal)

theorem size_with_unit_witness: "SizeStr2Number ''64m  '' = Some 67108864"
proof -
  have "decimal ''64'' = 64" by (simp add: decimal_def digit_val_def)
  then show ?thesis
    using size_with_unit [of "''64''" "CHR ''m''" 1048576 "Suc (Suc 0)"]
    by (simp add: is_digit_def size_unit_def OPTION_MAX_def)
qed

lemma size_plain:
  assumes "list_all is_digit ds" "ds \<noteq> []" "length ds \<le> OPTION_MAX"
  shows "SizeStr2Number ds = Some (of_nat (decimal ds))"
proof -
  obtain ds' u where ds: "ds = ds' @ [u]" using assms(2) by (metis rev_exhaust)
  have u: "is_digit u" "u \<noteq> CHR '' ''" using assms(1) by (auto simp: ds is_digit_def)
  from SizeStr2Number_split [of ds' 0 u] u assms gather_number_decimal [OF assms(1), of 0 1] show ?thesis
    by (simp add: ds size_unit_def)
qed

section \<open>Tokens\<close>

lemma strtok_r_Some:
  assumes "strtok_r d s = (Some t, rest)"
  shows "t \<noteq> []" "length t + (if rest = [] then 0 else Suc (length rest)) \<le> length s" "length rest < length s"
proof -
  let ?s = "dropWhile (\<lambda>c. c = d) s"
  obtain c cs where s: "?s = c # cs" using assms by (cases ?s) (auto simp: strtok_r_def)
  have "c \<noteq> d" using s hd_dropWhile [of "\<lambda>c. c = d" s] by simp
  moreover have t: "t = takeWhile (\<lambda>c. c \<noteq> d) ?s" "rest = drop 1 (dropWhile (\<lambda>c. c \<noteq> d) ?s)"
    using assms s by (simp_all add: strtok_r_def)
  ultimately show "t \<noteq> []" using s by simp
  have l: "length t + length (dropWhile (\<lambda>c. c \<noteq> d) ?s) = length ?s" "length ?s \<le> length s"
    unfolding t(1) by (metis length_append takeWhile_dropWhile_id, simp add: length_dropWhile_le)
  have r: "length rest = length (dropWhile (\<lambda>c. c \<noteq> d) ?s) - 1" using t(2) by simp
  have "0 < length t" using \<open>t \<noteq> []\<close> by blast
  then show "length rest < length s" using l r by linarith
  show "length t + (if rest = [] then 0 else Suc (length rest)) \<le> length s"
  proof (cases rest)
    case Nil
    with l show ?thesis by simp
  next
    case (Cons x xs)
    then have "0 < length rest" by simp
    with r l Cons show ?thesis by simp
  qed
qed

text \<open>The tokens of a string, as the loop of \<^verbatim>\<open>ramfs_parse_options\<close> gets them.\<close>

function tokens :: "char \<Rightarrow> string \<Rightarrow> string list" where
  "tokens d s = (case strtok_r d s of (None, _) \<Rightarrow> [] | (Some t, rest) \<Rightarrow> t # tokens d rest)"
  by pat_completeness auto
termination
  by (relation "measure (length \<circ> snd)") (auto dest: strtok_r_Some(3) [OF sym])

declare tokens.simps [simp del]

text \<open>
  A token that the loop gets past: it has a key, and a size it gives is not blank.
\<close>

definition token_ok :: "string \<Rightarrow> bool" where
  "token_ok tok = (case key_value tok of
     (None, _) \<Rightarrow> False
   | (Some key, value) \<Rightarrow> key \<in> {''size'', ''inodes''} \<longrightarrow>
       (case value of None \<Rightarrow> True | Some v \<Rightarrow> \<exists>c \<in> set (take OPTION_MAX v). c \<noteq> CHR '' ''))"

lemma key_value_length:
  assumes "key_value tok = (Some key, val)"
  shows "length key + (case val of None \<Rightarrow> 0 | Some v \<Rightarrow> Suc (length v)) \<le> length tok"
proof -
  obtain rest where r: "strtok_r (CHR ''='') tok = (Some key, rest)" "val = fst (strtok_r (CHR ''='') rest)"
    using assms by (auto simp: key_value_def split: prod.splits)
  show ?thesis
  proof (cases val)
    case None
    then show ?thesis using strtok_r_Some(2) [OF r(1)] by (simp split: if_splits)
  next
    case (Some v)
    with r(2) obtain rest2 where v: "strtok_r (CHR ''='') rest = (Some v, rest2)" by (metis prod.collapse)
    then have "rest \<noteq> []" by (auto simp: strtok_r_def)
    with strtok_r_Some(2) [OF r(1)] strtok_r_Some(2) [OF v] Some show ?thesis by (simp split: if_splits)
  qed
qed

text \<open>
  What a token adds to the copied text, nothing for the options the program knows itself, and what it
  sets in the options.
\<close>

definition copy_token :: "string \<Rightarrow> string \<Rightarrow> string" where
  "copy_token tok out = (case key_value tok of
     (None, _) \<Rightarrow> out
   | (Some key, value) \<Rightarrow>
       if key \<in> {''size'', ''inodes'', ''subtype''} then out
       else (if out = [] then [] else out @ '','') @ take OPTION_MAX key @
         (case value of None \<Rightarrow> [] | Some v \<Rightarrow> CHR ''='' # take OPTION_MAX v))"

definition read_token :: "string \<Rightarrow> fuse_ramfs_options \<Rightarrow> fuse_ramfs_options" where
  "read_token tok opt = (case key_value tok of
     (Some key, Some v) \<Rightarrow>
       if key = ''size'' then (case SizeStr2Number v of None \<Rightarrow> opt | Some x \<Rightarrow> opt\<lparr>capacity := x\<rparr>)
       else if key = ''inodes'' then (case SizeStr2Number v of None \<Rightarrow> opt | Some x \<Rightarrow> opt\<lparr>inodes := x\<rparr>)
       else if key = ''subtype'' then opt\<lparr>subtype := Some v\<rparr>
       else opt
   | _ \<Rightarrow> opt)"

lemma copy_token_length:
  assumes kv: "key_value tok = (Some key, val)"
  shows "length (copy_token tok out) \<le> length out + Suc (length tok)"
  using key_value_length [OF kv] by (auto simp: copy_token_def kv split: option.splits)

lemma parse_token_ok:
  assumes kv: "key_value tok = (Some key, val)" and ok: "token_ok tok" and room: "length out + Suc (length tok) \<le> n"
  shows "parse_token n key val (opt, out) = Some (read_token tok opt, copy_token tok out)"
proof -
  have len: "length key + (case val of None \<Rightarrow> 0 | Some v \<Rightarrow> Suc (length v)) \<le> length tok"
    using key_value_length [OF kv] .
  have num: "\<exists>x. SizeStr2Number v = Some x" if "key \<in> {''size'', ''inodes''}" "val = Some v" for v
    using ok that kv SizeStr2Number_None [of v] by (auto simp: token_ok_def)
  show ?thesis
  proof (cases "key \<in> {''size'', ''inodes'', ''subtype''}")
    case True
    with num show ?thesis by (cases val) (auto simp: parse_token_def read_token_def copy_token_def kv)
  next
    case False
    with room len show ?thesis by (cases val) (auto simp: parse_token_def put_chars_def read_token_def copy_token_def kv)
  qed
qed

definition pending :: "string option \<Rightarrow> string \<Rightarrow> string list" where
  "pending kvtoken ctx = (case kvtoken of None \<Rightarrow> [] | Some tok \<Rightarrow> tok # tokens (CHR '','') ctx)"

lemma pending_strtok_r: "pending (fst (strtok_r (CHR '','') s)) (snd (strtok_r (CHR '','') s)) = tokens (CHR '','') s"
  by (subst tokens.simps) (auto simp: pending_def split: prod.splits option.splits)

text \<open>Enough room for the token at hand and what is left: every token is written with one comma.\<close>

definition room_for :: "string option \<Rightarrow> string \<Rightarrow> nat" where
  "room_for kvtoken ctx = (case kvtoken of None \<Rightarrow> 0
     | Some tok \<Rightarrow> Suc (length tok) + (if ctx = [] then 0 else Suc (length ctx)))"

lemma room_for_strtok_r:
  "room_for (fst (strtok_r d s)) (snd (strtok_r d s)) \<le> (if s = [] then 0 else Suc (length s))"
  using strtok_r_Some(2) [of d s] by (cases "strtok_r d s"; cases "fst (strtok_r d s)") (auto simp: room_for_def strtok_r_def)

lemma parse_tokens_ok:
  assumes "list_all token_ok (pending kvtoken ctx)" "length out + room_for kvtoken ctx \<le> n"
  shows "parse_tokens n kvtoken ctx (opt, out) =
      Some (fold read_token (pending kvtoken ctx) opt, fold copy_token (pending kvtoken ctx) out) \<and>
    length (fold copy_token (pending kvtoken ctx) out) \<le> n"
  using assms
proof (induction "length ctx + (if kvtoken = None then 0 else 1)" arbitrary: kvtoken ctx opt out rule: less_induct)
  case less
  show ?case
  proof (cases kvtoken)
    case None
    with less.prems show ?thesis by (subst parse_tokens.simps) (simp add: room_for_def pending_def)
  next
    case (Some tok)
    let ?k = "fst (strtok_r (CHR '','') ctx)" and ?c = "snd (strtok_r (CHR '','') ctx)"
    have ok: "token_ok tok" using less.prems(1) Some by (simp add: pending_def)
    then obtain key val where kv: "key_value tok = (Some key, val)" by (auto simp: token_ok_def split: prod.splits option.splits)
    have p: "parse_token n key val (opt, out) = Some (read_token tok opt, copy_token tok out)"
      by (rule parse_token_ok [OF kv ok]) (use less.prems(2) Some in \<open>simp add: room_for_def\<close>)
    have step: "parse_tokens n kvtoken ctx (opt, out) = parse_tokens n ?k ?c (read_token tok opt, copy_token tok out)"
      using Some kv p by (subst parse_tokens.simps) simp
    have rest: "pending kvtoken ctx = tok # pending ?k ?c" unfolding pending_strtok_r using Some by (simp add: pending_def)
    have "length ?c + (if ?k = None then 0 else 1) < length ctx + (if kvtoken = None then 0 else 1)"
      using Some strtok_r_Some(3) [of "CHR '',''" ctx] by (cases "strtok_r (CHR '','') ctx"; cases ?k) (auto simp: strtok_r_def split: list.splits)
    moreover have "list_all token_ok (pending ?k ?c)"
      using less.prems(1) rest by simp
    moreover have "length (copy_token tok out) + room_for ?k ?c \<le> n"
      using less.prems(2) copy_token_length [OF kv, of out] Some room_for_strtok_r [of "CHR '',''" ctx]
      by (simp add: room_for_def [of "Some tok"])
    ultimately show ?thesis unfolding step rest using less.hyps by simp
  qed
qed

lemma parse_token_Some:
  assumes "key_value tok = (Some key, val)" "parse_token n key val st = Some st'"
  shows "token_ok tok"
proof -
  have "SizeStr2Number v \<noteq> None" if "key \<in> {''size'', ''inodes''}" "val = Some v" for v
    using assms(2) that by (auto simp: parse_token_def split: prod.splits)
  then show ?thesis
    using assms(1) unfolding token_ok_def SizeStr2Number_None by (simp split: option.split)
qed

lemma parse_tokens_Some:
  "parse_tokens n kvtoken ctx st = Some r \<Longrightarrow> list_all token_ok (pending kvtoken ctx)"
proof (rule parse_tokens.raw_induct [where P = "\<lambda>n kvtoken ctx st r. list_all token_ok (pending kvtoken ctx)"])
  fix f :: "nat \<Rightarrow> string option \<Rightarrow> string \<Rightarrow> fuse_ramfs_options \<times> string \<Rightarrow> (fuse_ramfs_options \<times> string) option"
    and n kvtoken ctx st r
  let ?k = "fst (strtok_r (CHR '','') ctx)" and ?c = "snd (strtok_r (CHR '','') ctx)"
  assume IH: "\<And>n kvtoken ctx st r. f n kvtoken ctx st = Some r \<Longrightarrow> list_all token_ok (pending kvtoken ctx)"
    and eq: "(case kvtoken of None \<Rightarrow> Some st
      | Some tok \<Rightarrow> (case key_value tok of (None, _) \<Rightarrow> f n kvtoken ctx st
         | (Some key, val) \<Rightarrow> parse_token n key val st \<bind> f n ?k ?c)) = Some r"
  show "list_all token_ok (pending kvtoken ctx)"
    using eq IH [of n kvtoken ctx st r] IH [of n ?k ?c _ r] parse_token_Some
    unfolding pending_strtok_r
    by (auto simp: pending_def [of "Some _"] pending_def [of None] split: option.splits prod.splits Option.bind_splits)
qed

lemma bypass_switches_None: "CHR ''o'' \<notin> set cs \<Longrightarrow> bypass_switches n out cs = None"
  by (induction n out cs rule: bypass_switches.induct) (auto simp: put_chars_def)

lemma bypass_switches_ok:
  assumes "CHR ''o'' \<in> set cs" "length out + length cs \<le> n"
  shows "bypass_switches n out cs =
    Some (out @ takeWhile (\<lambda>c. c \<noteq> CHR ''o'') cs @ ''o'', drop 1 (dropWhile (\<lambda>c. c \<noteq> CHR ''o'') cs))"
  using assms by (induction n out cs rule: bypass_switches.induct) (auto simp: put_chars_def)

text \<open>The part of the argument that holds the options: all of it, or what follows the switches.\<close>

definition option_text :: "string \<Rightarrow> string" where
  "option_text str = (if take 1 str = ''-'' then drop 1 (dropWhile (\<lambda>c. c \<noteq> CHR ''o'') str) else str)"

lemma options_start:
  assumes "length str \<le> OPTION_MAX" "take 1 str = ''-'' \<Longrightarrow> CHR ''o'' \<in> set str"
  obtains out where "(if take 1 str = ''-'' then bypass_switches (Suc (length str)) [] str else Some ([], str))
      = Some (out, option_text str)" "length out + length (option_text str) \<le> length str"
    "out = (if take 1 str = ''-'' then takeWhile (\<lambda>c. c \<noteq> CHR ''o'') str @ ''o'' else [])"
proof (cases "take 1 str = ''-''")
  case True
  let ?p = "takeWhile (\<lambda>c. c \<noteq> CHR ''o'') str" and ?q = "dropWhile (\<lambda>c. c \<noteq> CHR ''o'') str"
  have "?q \<noteq> []" using assms(2) [OF True] by auto
  then have "0 < length ?q" by blast
  moreover have "length ?p + length ?q = length str" by (metis length_append takeWhile_dropWhile_id)
  ultimately have "Suc (length ?p + (length ?q - Suc 0)) \<le> length str" by linarith
  then show ?thesis
    using that [of "?p @ ''o''"] bypass_switches_ok [OF assms(2) [OF True], of "[]" "Suc (length str)"] True
    by (simp add: option_text_def)
qed (use that in \<open>simp add: option_text_def\<close>)

text \<open>The switches copied in front, the text copied in all, and the options set.\<close>

definition switch_text :: "string \<Rightarrow> string" where
  "switch_text str = (if take 1 str = ''-'' then takeWhile (\<lambda>c. c \<noteq> CHR ''o'') str @ ''o'' else [])"

definition copied :: "string \<Rightarrow> string" where
  "copied str = fold copy_token (tokens (CHR '','') (option_text str)) (switch_text str)"

definition options_read :: "string \<Rightarrow> fuse_ramfs_options \<Rightarrow> fuse_ramfs_options" where
  "options_read str opt = fold read_token (tokens (CHR '','') (option_text str)) opt"

definition below_limits :: "fuse_ramfs_options \<Rightarrow> bool" where
  "below_limits opt \<longleftrightarrow> 0 < capacity opt \<and> capacity opt < 1024 \<or> 0 < inodes opt \<and> inodes opt < 2"



lemma parse_options_eq:
  assumes len: "length str \<le> OPTION_MAX" and sw: "take 1 str = ''-'' \<longrightarrow> CHR ''o'' \<in> set str"
    and ok: "list_all token_ok (tokens (CHR '','') (option_text str))"
  shows "ramfs_parse_options junk str opt = (if below_limits (options_read str opt) then Some (Inl 1)
      else map_option (\<lambda>buf. Inr (options_read str opt, buf)) (erase_o junk (Suc (length str)) (copied str)))"
    "length (copied str) \<le> Suc (length str)"
proof -
  let ?n = "Suc (length str)" and ?t = "option_text str"
  let ?k = "fst (strtok_r (CHR '','') ?t)" and ?c = "snd (strtok_r (CHR '','') ?t)"
  have out: "(if take 1 str = ''-'' then bypass_switches ?n [] str else Some ([], str)) = Some (switch_text str, ?t)"
    "length (switch_text str) + length ?t \<le> length str"
    by (rule options_start [OF len]; use sw in \<open>simp only: switch_text_def\<close>)+
  have "list_all token_ok (pending ?k ?c)" unfolding pending_strtok_r using ok .
  moreover have "length (switch_text str) + room_for ?k ?c \<le> ?n"
    using room_for_strtok_r [of "CHR '',''" ?t] out(2) by (auto split: if_splits)
  ultimately have p: "parse_tokens ?n ?k ?c (opt, switch_text str) = Some (options_read str opt, copied str)"
    "length (copied str) \<le> ?n"
    using parse_tokens_ok [of ?k ?c "switch_text str" ?n opt] unfolding pending_strtok_r
    by (simp_all add: options_read_def copied_def)
  have n: "min (length str) OPTION_MAX + 1 = ?n" using len by simp
  show "ramfs_parse_options junk str opt = (if below_limits (options_read str opt) then Some (Inl 1)
      else map_option (\<lambda>buf. Inr (options_read str opt, buf)) (erase_o junk ?n (copied str)))"
    unfolding ramfs_parse_options_def n Let_def out(1) using p(1) by (auto simp: below_limits_def)
  show "length (copied str) \<le> ?n" using p(2) .
qed

lemma parse_options_Some:
  assumes len: "length str \<le> OPTION_MAX" and run: "ramfs_parse_options junk str opt = Some r"
  shows "take 1 str = ''-'' \<longrightarrow> CHR ''o'' \<in> set str" "list_all token_ok (tokens (CHR '','') (option_text str))"
proof -
  show sw: "take 1 str = ''-'' \<longrightarrow> CHR ''o'' \<in> set str"
  proof (rule ccontr)
    assume no: "\<not> (take 1 str = ''-'' \<longrightarrow> CHR ''o'' \<in> set str)"
    then have "bypass_switches n out str = None" for n out using bypass_switches_None by blast
    with no run show False by (simp add: ramfs_parse_options_def Let_def)
  qed
  obtain out where out: "(if take 1 str = ''-'' then bypass_switches (Suc (length str)) [] str else Some ([], str))
    = Some (out, option_text str)" using options_start [OF len] sw by blast
  have n: "min (length str) OPTION_MAX + 1 = Suc (length str)" using len by simp
  from run show "list_all token_ok (tokens (CHR '','') (option_text str))"
    unfolding ramfs_parse_options_def n Let_def out
    by (auto dest!: parse_tokens_Some simp: pending_strtok_r split: Option.bind_splits)
qed

text \<open>
  With nothing copied and the limits kept, the parser reads in front of its buffer: a size given as an
  argument of its own, behind a separate \<^verbatim>\<open>-o\<close>, is enough.
\<close>

lemma nothing_copied:
  assumes "length str \<le> OPTION_MAX" "copied str = []" "\<not> below_limits (options_read str opt)"
  shows "ramfs_parse_options junk str opt = None"
proof (cases "ramfs_parse_options junk str opt")
  case (Some r)
  then show ?thesis
    using parse_options_eq(1) [OF assms(1) parse_options_Some [OF assms(1) Some], of junk opt] assms(2,3)
    by (simp add: erase_o_def)
qed simp

lemma size_alone: "ramfs_parse_options junk ''size=64m'' no_options = None"
  by (rule nothing_copied)
    (simp_all add: OPTION_MAX_def copied_def options_read_def option_text_def switch_text_def tokens.simps strtok_r_def key_value_def
      copy_token_def read_token_def SizeStr2Number_def size_unit_def is_digit_def digit_val_def below_limits_def no_options_def)



lemma shift_args_eq:
  "i + m < length v \<Longrightarrow> shift_args i m v = take i v @ take m (drop (Suc i) v) @ drop (i + m) v"
proof (induction m arbitrary: i v)
  case 0
  then show ?case by simp
next
  case (Suc m)
  let ?v = "v[i := v ! Suc i]"
  have "shift_args i (Suc m) v = take (Suc i) ?v @ take m (drop (Suc (Suc i)) ?v) @ drop (Suc i + m) ?v"
    using Suc.IH [of "Suc i" ?v] Suc.prems by simp
  moreover have "take (Suc i) ?v = take i v @ [v ! Suc i]" using Suc.prems by (simp add: take_Suc_conv_app_nth)
  moreover have "drop (Suc i) v = v ! Suc i # drop (Suc (Suc i)) v" using Suc.prems by (simp add: Cons_nth_drop_Suc)
  ultimately show ?case using Suc.prems by simp
qed

text \<open>
  Erasing an argument removes that one and keeps the others in order; an index behind the vector
  changes nothing.
\<close>

theorem erase_arg_removes:
  assumes "length (argv args) = argc args"
  shows "erase_arg args index = (if index < argc args
    then args\<lparr>argc := argc args - 1, argv := take index (argv args) @ drop (Suc index) (argv args) @ [None]\<rparr>
    else args)"
proof (cases "index < argc args")
  case True
  let ?v = "argv args" and ?n = "argc args - 1"
  obtain x where x: "drop ?n ?v = [x]" using True assms
    by (metis Cons_nth_drop_Suc Suc_diff_1 diff_less drop_all le_refl less_numeral_extra(1) less_zeroE linorder_neqE_nat)
  have "shift_args index (?n - index) ?v = take index ?v @ take (?n - index) (drop (Suc index) ?v) @ [x]"
    using shift_args_eq [of index "?n - index" ?v] True assms x by simp
  moreover have "take (?n - index) (drop (Suc index) ?v) = drop (Suc index) ?v" using assms by simp
  ultimately have "(shift_args index (?n - index) ?v)[?n := None] = take index ?v @ drop (Suc index) ?v @ [None]"
    using True assms by (auto simp: list_update_append)
  then show ?thesis using True by (simp add: erase_arg_def)
qed (simp add: erase_arg_def)

theorem erase_arg_removes_witness:
  "argv (erase_arg \<lparr>argc = 3, argv = [Some ''ramfs'', Some ''-b'', Some ''/mnt''], allocated = True\<rparr> 1)
    = [Some ''ramfs'', Some ''/mnt'', None]"
  using erase_arg_removes [of "\<lparr>argc = 3, argv = [Some ''ramfs'', Some ''-b'', Some ''/mnt''], allocated = True\<rparr>" 1]
  by simp

lemma takeWhile_until:
  "d \<notin> set k \<Longrightarrow> takeWhile (\<lambda>c. c \<noteq> d) (k @ d # v) = k \<and> dropWhile (\<lambda>c. c \<noteq> d) (k @ d # v) = d # v"
  "d \<notin> set k \<Longrightarrow> takeWhile (\<lambda>c. c \<noteq> d) k = k \<and> dropWhile (\<lambda>c. c \<noteq> d) k = []"
  by (induction k) auto

lemma strtok_r_all: "d \<notin> set s \<Longrightarrow> s \<noteq> [] \<Longrightarrow> strtok_r d s = (Some s, [])"
  using takeWhile_until(2) [of d s] by (cases s) (auto simp: strtok_r_def simp del: takeWhile_eq_all_conv dropWhile_eq_Nil_conv)

lemma strtok_r_first: "d \<notin> set k \<Longrightarrow> k \<noteq> [] \<Longrightarrow> strtok_r d (k @ d # v) = (Some k, v)"
  using takeWhile_until(1) [of d "tl k" v] by (cases k) (auto simp: strtok_r_def)

lemma unit_not_separator:
  "is_digit c \<or> size_unit c \<noteq> None \<Longrightarrow> c \<noteq> CHR '','' \<and> c \<noteq> CHR ''='' \<and> c \<noteq> CHR '' ''"
  by (auto simp: is_digit_def size_unit_def)

lemma parse_size_option:
  assumes v: "SizeStr2Number v = Some x" "CHR '','' \<notin> set v" "CHR ''='' \<notin> set v" and len: "length v < 1000"
  shows "ramfs_parse_options junk (''-osize='' @ v) opt =
    (if 0 < x \<and> x < 1024 then Some (Inl 1)
     else if 0 < inodes opt \<and> inodes opt < 2 then Some (Inl 1)
     else Some (Inr (opt\<lparr>capacity := x\<rparr>, NUL # NUL # map junk [2..<8 + length v])))"
proof -
  have ne: "v \<noteq> []" using v(1) by (auto simp: SizeStr2Number_def)
  let ?n = "8 + length v" and ?t = "''size='' @ v"
  have n: "min (length (''-osize='' @ v)) OPTION_MAX + 1 = ?n" using len by (simp add: OPTION_MAX_def)
  have start: "bypass_switches ?n [] (''-osize='' @ v) = Some (''-o'', ?t)" by (simp add: put_chars_def)
  have tok: "strtok_r (CHR '','') ?t = (Some ?t, [])" using v(2) by (intro strtok_r_all) auto
  have kv: "key_value ?t = (Some ''size'', Some v)"
    using strtok_r_first [of "CHR ''=''" "''size''" v] strtok_r_all [OF v(3) ne] by (simp add: key_value_def)
  have pt: "parse_token ?n ''size'' (Some v) (opt, ''-o'') = Some (opt\<lparr>capacity := x\<rparr>, ''-o'')"
    using v(1) by (simp add: parse_token_def)
  have "parse_tokens ?n (Some ?t) [] (opt, ''-o'') = parse_tokens ?n None [] (opt\<lparr>capacity := x\<rparr>, ''-o'')"
    using kv pt by (subst parse_tokens.simps) (simp add: strtok_r_def)
  also have "\<dots> = Some (opt\<lparr>capacity := x\<rparr>, ''-o'')" by (subst parse_tokens.simps) simp
  finally have run: "parse_tokens ?n (Some ?t) [] (opt, ''-o'') = Some (opt\<lparr>capacity := x\<rparr>, ''-o'')" .
  have "erase_o junk ?n ''-o'' = Some (NUL # NUL # map junk [2..<?n])" by (simp add: erase_o_def numeral_eq_Suc)
  then show ?thesis
    unfolding ramfs_parse_options_def n Let_def using start tok run by simp
qed

text \<open>
  What libfuse documents of \<^verbatim>\<open>fuse_opt_add_arg\<close>: the argument is added behind the last one.
\<close>

definition appends_arg :: "(fuse_args \<Rightarrow> string \<Rightarrow> fuse_args) \<Rightarrow> bool" where
  "appends_arg add_arg \<longleftrightarrow>
     (\<forall>a s. add_arg a s = a\<lparr>argc := argc a + 1, argv := take (argc a) (argv a) @ [Some s]\<rparr>)"

lemma copy_args_ok: "(\<forall>n. env_alloc e n) \<Longrightarrow> copy_args e ss = Some (map Some ss)"
proof -
  assume mem: "\<forall>n. env_alloc e n"
  then have "copy_strings e ss = Some (map Some ss)" by (induction ss) auto
  with mem show ?thesis by (simp add: copy_args_def)
qed

lemma finish_with_mountpoint:
  assumes "appends_arg add_arg" "length (base prog) \<le> OPTION_MAX" "length mp \<le> OPTION_MAX" "subtype options = None"
  shows "finish_cmdline add_arg base 2 \<lparr>cl_args = \<lparr>argc = 3, argv = [Some prog, Some sw, Some mp], allocated = True\<rparr>,
      cl_options = options, o_idx1 = 0, argo_idx = 1\<rparr> =
    Some (Inr (\<lparr>argc = 4, argv = [Some prog, Some (''-osubtype='' @ base prog), Some ''-odefault_permissions'',
      Some ''-oallow_other''], allocated = True\<rparr>, options\<lparr>mountpoint := Some mp, subtype := Some (base prog)\<rparr>))"
  using assms
  by (simp add: finish_cmdline_def erase_arg_def ramfs_set_subtype_def appends_arg_def numeral_2_eq_2 numeral_3_eq_3 Let_def)

lemma subtype_option_read_after_free:
  "subtype (cl_options cl) \<noteq> None \<Longrightarrow> argc (cl_args cl) = Suc optind \<Longrightarrow> finish_cmdline add_arg base optind cl = None"
  by (simp add: finish_cmdline_def Let_def)

text \<open>
  (C37) The option \<^verbatim>\<open>size\<close> decides the capacity: a command line with the argument \<^verbatim>\<open>-osize=\<close>, a decimal
  numeral and a unit, and the mount point, constructs a file system with one block for every 512 bytes
  of that size, where 0 blocks (a size of 0, or a product that is a multiple of \<open>2 ^ 64\<close>) select the default capacity;
  libfuse is left the subtype and the two options that are always added. A size below 1024 other than 0 ends the program.
\<close>

theorem mount_with_size:
  fixes getopt :: "'g getopt"
  assumes v: "list_all is_digit ds" "size_unit u = Some unit" "\<not> is_digit u" "length ds < 100"
    and x: "x = of_nat (decimal ds) * unit" and args: "args = [prog, ''-osize='' @ ds @ [u], mp]"
    and go: "getopt g 1 3 (map Some args) = (Some (CHR ''o''), ga, 2, map Some args)"
      "getopt ga 2 3 (map Some args) = (None, gb, 2, map Some args)"
    and add: "appends_arg add_arg" and mem: "\<forall>n. env_alloc e n"
    and len: "length (base prog) \<le> OPTION_MAX" "length mp \<le> OPTION_MAX" "prog \<noteq> ''-o''"
  shows "main_setup e getopt add_arg base junk g args =
    (if 0 < x \<and> x < 1024 then Some (Inl 1)
     else Some (Inr (\<lparr>argc = 4, argv = [Some prog, Some (''-osubtype='' @ base prog), Some ''-odefault_permissions'',
         Some ''-oallow_other''], allocated = True\<rparr>,
       no_options\<lparr>capacity := x, mountpoint := Some mp, subtype := Some (base prog), optstr := Some []\<rparr>,
       FuseRamFs_new (x div 512) 0)))"
proof -
  let ?o = "''-osize='' @ ds @ [u]" and ?args = "\<lparr>argc = 3, argv = map Some args, allocated = True\<rparr>"
  let ?cl = "\<lparr>cl_args = ?args, cl_options = no_options, o_idx1 = 0, argo_idx = 0\<rparr>"
  have num: "SizeStr2Number (ds @ [u]) = Some x"
    using SizeStr2Number_split [of ds 0 u] size_unit_not_space [OF v(2)] v
    by (simp add: gather_number_decimal x OPTION_MAX_def)
  have sep: "CHR '','' \<notin> set (ds @ [u])" "CHR ''='' \<notin> set (ds @ [u])"
    using v unit_not_separator by (auto simp: list_all_iff)
  have opts: "ramfs_parse_options junk ?o no_options =
    (if 0 < x \<and> x < 1024 then Some (Inl 1)
     else Some (Inr (no_options\<lparr>capacity := x\<rparr>, NUL # NUL # map junk [2..<9 + length ds])))"
    using parse_size_option [OF num sep] v(4) by (simp add: no_options_def)
  have co: "case_o junk 2 ?cl = (if 0 < x \<and> x < 1024 then Some (Inl 1)
     else Some (Inr (?cl\<lparr>cl_options := no_options\<lparr>capacity := x, optstr := Some []\<rparr>, argo_idx := 1\<rparr>)))"
    using opts len v(4) by (simp add: case_o_def args cstring_def OPTION_MAX_def)
  have loop: "getopt_loop getopt junk g 1 ?cl = (if 0 < x \<and> x < 1024 then Some (Inl 1)
     else Some (Inr (2, ?cl\<lparr>cl_options := no_options\<lparr>capacity := x, optstr := Some []\<rparr>, argo_idx := 1\<rparr>)))"
    using go co by (subst getopt_loop.simps) (simp, subst getopt_loop.simps, simp)
  let ?opt = "no_options\<lparr>capacity := x, optstr := Some []\<rparr>"
  have fin: "finish_cmdline add_arg base 2 (?cl\<lparr>cl_options := ?opt, argo_idx := 1\<rparr>) =
    Some (Inr (\<lparr>argc = 4, argv = [Some prog, Some (''-osubtype='' @ base prog), Some ''-odefault_permissions'',
      Some ''-oallow_other''], allocated = True\<rparr>, ?opt\<lparr>mountpoint := Some mp, subtype := Some (base prog)\<rparr>))"
    using finish_with_mountpoint [where base = base and options = ?opt and sw = ?o, OF add len(1,2)] by (simp add: args no_options_def)
  have copy: "copy_args e args = Some (map Some args)" "length args = 3" using copy_args_ok [OF mem] by (blast, simp add: args)
  show ?thesis
  proof (cases "0 < x \<and> x < 1024")
    case True
    then show ?thesis by (simp add: main_setup_def copy ramfs_parse_cmdline_def loop del: One_nat_def)
  next
    case False
    have "main_setup e getopt add_arg base junk g args = Some (Inr (\<lparr>argc = 4, argv = [Some prog,
         Some (''-osubtype='' @ base prog), Some ''-odefault_permissions'', Some ''-oallow_other''], allocated = True\<rparr>,
       ?opt\<lparr>mountpoint := Some mp, subtype := Some (base prog)\<rparr>, FuseRamFs_new (x div 512) 0))"
      using fin loop [unfolded if_not_P [OF False]]
      by (simp add: main_setup_def copy ramfs_parse_cmdline_def no_options_def BufBlockSize_def del: One_nat_def)
    then show ?thesis unfolding if_not_P [OF False] by (simp add: no_options_def)
  qed
qed

text \<open>\<^verbatim>\<open>getopt\<close> for a vector whose only switch is the second word.\<close>

definition demo_getopt :: "bool getopt" where
  "demo_getopt g ind n v = (if g then (Some (CHR ''o''), False, 2, v) else (None, False, ind, v))"

theorem mount_with_size_witness:
  "main_setup demo_env demo_getopt (\<lambda>a s. a\<lparr>argc := argc a + 1, argv := take (argc a) (argv a) @ [Some s]\<rparr>)
     (\<lambda>p. ''ramfs'') (\<lambda>_. NUL) True [''ramfs'', ''-osize=64m'', ''/mnt''] =
   Some (Inr (\<lparr>argc = 4, argv = [Some ''ramfs'', Some ''-osubtype=ramfs'', Some ''-odefault_permissions'',
       Some ''-oallow_other''], allocated = True\<rparr>,
     no_options\<lparr>capacity := 67108864, mountpoint := Some ''/mnt'', subtype := Some ''ramfs'', optstr := Some []\<rparr>,
     FuseRamFs_new 131072 0))"
proof -
  have "decimal ''64'' = 64" by (simp add: decimal_def digit_val_def)
  then show ?thesis
    using mount_with_size [where getopt = demo_getopt and ds = "''64''" and u = "CHR ''m''" and unit = 1048576
        and prog = "''ramfs''" and mp = "''/mnt''" and base = "\<lambda>_. ''ramfs''" and g = True and ga = False and gb = False and e = demo_env
        and junk = "\<lambda>_. NUL" and x = 67108864 and args = "[''ramfs'', ''-osize=64m'', ''/mnt'']"
        and add_arg = "\<lambda>a s. a\<lparr>argc := argc a + 1, argv := take (argc a) (argv a) @ [Some s]\<rparr>"]
    by (simp add: demo_getopt_def is_digit_def size_unit_def appends_arg_def OPTION_MAX_def)
qed


section \<open>What is left for libfuse\<close>

text \<open>
  An option that is not recognised is copied behind a comma even when only the switch precedes it, and
  a last letter \<^verbatim>\<open>o\<close> is erased whatever it belongs to: \<^verbatim>\<open>-oro\<close> becomes \<^verbatim>\<open>-o,r\<close>. The copy fills the buffer
  and no NUL is written behind it.
\<close>

lemma list_update_numeral: "(x # xs)[numeral n := v] = x # xs[pred_numeral n := v]"
  by (simp add: numeral_eq_Suc)

lemma option_ro_truncated:
  "ramfs_parse_options junk ''-oro'' no_options = Some (Inr (no_options, ''-o,r'' @ [NUL]))"
  by (simp add: ramfs_parse_options_def OPTION_MAX_def put_chars_def strtok_r_def parse_tokens.simps key_value_def
      parse_token_def no_options_def erase_o_def list_update_numeral)

lemma option_not_terminated:
  "ramfs_parse_options junk ''-ors'' no_options = Some (Inr (no_options, ''-o,rs''))"
  "cstring ''-o,rs'' = None"
  by (simp_all add: ramfs_parse_options_def OPTION_MAX_def put_chars_def strtok_r_def parse_tokens.simps key_value_def
      parse_token_def no_options_def erase_o_def cstring_def)

end
