(* ===== verification/Main_Program.thy ===== *)
theory Main_Program
  imports Machine_Props Util_Props
begin

text \<open>
  The entry point (\<^verbatim>\<open>main.cpp\<close>): after the command line and the construction of the file system,
  \<^verbatim>\<open>main\<close> mounts, makes a session, runs its loop and takes everything down again. libfuse is a
  parameter; what \<^verbatim>\<open>main\<close> asks of it is recorded as a list of calls with their results.
\<close>

section \<open>The library and the calls\<close>

text \<open>
  The calls of libfuse, on a world of its own. The argument vector may be changed by the two calls that
  are given its address. The session loop and the end of a session call back into the file system, whose
  state is static, and so carry it along.
\<close>

record ('se, 'ch, 'w) libfuse =
  fuse_mount :: "string \<Rightarrow> fuse_args \<Rightarrow> 'w \<Rightarrow> 'ch option \<times> fuse_args \<times> 'w"
  fuse_lowlevel_new :: "fuse_args \<Rightarrow> 'w \<Rightarrow> 'se option \<times> fuse_args \<times> 'w"
  fuse_daemonize :: "bool \<Rightarrow> 'w \<Rightarrow> 'w"
  fuse_set_signal_handlers :: "'se \<Rightarrow> 'w \<Rightarrow> int \<times> 'w"
  fuse_session_add_chan :: "'se \<Rightarrow> 'ch \<Rightarrow> 'w \<Rightarrow> 'w"
  fuse_session_loop :: "'se \<Rightarrow> fs \<times> 'w \<Rightarrow> int \<times> fs \<times> 'w"
  fuse_remove_signal_handlers :: "'se \<Rightarrow> 'w \<Rightarrow> 'w"
  fuse_session_remove_chan :: "'ch \<Rightarrow> 'w \<Rightarrow> 'w"
  fuse_session_destroy :: "'se \<Rightarrow> fs \<times> 'w \<Rightarrow> fs \<times> 'w"
  fuse_unmount :: "string \<Rightarrow> 'ch \<Rightarrow> 'w \<Rightarrow> 'w"
  fuse_opt_free_args :: "fuse_args \<Rightarrow> 'w \<Rightarrow> 'w"

datatype ('se, 'ch) call =
    Call_Mount string "'ch option"
  | Call_New "'se option"
  | Call_Daemonize bool
  | Call_Set_Handlers 'se int
  | Call_Add_Chan 'se 'ch
  | Call_Loop 'se int fs
  | Call_Remove_Handlers 'se
  | Call_Remove_Chan 'ch
  | Call_Destroy 'se
  | Call_Unmount string 'ch
  | Call_Free_Args

section \<open>The body of main\<close>

text \<open>The innermost block: with the signal handlers installed, the channel is attached and the loop runs.\<close>

definition serve_session ::
    "('se, 'ch, 'w) libfuse \<Rightarrow> 'se \<Rightarrow> 'ch \<Rightarrow> fs \<times> 'w \<Rightarrow> ('se, 'ch) call list \<times> int \<times> fs \<times> 'w" where
  "serve_session L se ch = (\<lambda>(s, w).
     let (r, w) = fuse_set_signal_handlers L se w in
     if r \<noteq> - 1 then
       let w = fuse_session_add_chan L se ch w;
           (err, s, w) = fuse_session_loop L se (s, w);
           w = fuse_remove_signal_handlers L se w;
           w = fuse_session_remove_chan L ch w
       in ([Call_Set_Handlers se r, Call_Add_Chan se ch, Call_Loop se err s, Call_Remove_Handlers se,
            Call_Remove_Chan ch], err, s, w)
     else ([Call_Set_Handlers se r], - 1, s, w))"

definition mount_session ::
    "('se, 'ch, 'w) libfuse \<Rightarrow> fuse_ramfs_options \<Rightarrow> 'ch \<Rightarrow> fuse_args \<Rightarrow> fs \<times> 'w
     \<Rightarrow> ('se, 'ch) call list \<times> int \<times> fuse_args \<times> fs \<times> 'w" where
  "mount_session L opt ch args = (\<lambda>(s, w).
     case fuse_lowlevel_new L args w of
       (None, args, w) \<Rightarrow> ([Call_New None], - 1, args, s, w)
     | (Some se, args, w) \<Rightarrow>
         let w = fuse_daemonize L (\<not> deamonize opt) w;
             (calls, err, s, w) = serve_session L se ch (s, w);
             (s, w) = fuse_session_destroy L se (s, w)
         in ([Call_New (Some se), Call_Daemonize (\<not> deamonize opt)] @ calls @ [Call_Destroy se], err, args, s, w))"

text \<open>From the test of the subtype to the exit status.\<close>

definition main_mount ::
    "('se, 'ch, 'w) libfuse \<Rightarrow> fuse_args \<Rightarrow> fuse_ramfs_options \<Rightarrow> fs \<times> 'w
     \<Rightarrow> ('se, 'ch) call list \<times> int \<times> fs \<times> 'w" where
  "main_mount L args opt = (\<lambda>(s, w).
     let (calls, err, args, s, w) =
       (case (subtype opt, mountpoint opt) of
          (Some _, Some mp) \<Rightarrow>
            (case fuse_mount L mp args w of
               (None, args, w) \<Rightarrow> ([Call_Mount mp None], - 1, args, s, w)
             | (Some ch, args, w) \<Rightarrow>
                 let (calls, err, args, s, w) = mount_session L opt ch args (s, w);
                     w = fuse_unmount L mp ch w
                 in ([Call_Mount mp (Some ch)] @ calls @ [Call_Unmount mp ch], err, args, s, w))
        | _ \<Rightarrow> ([], - 1, args, s, w));
       w = fuse_opt_free_args L args w
     in (calls @ [Call_Free_Args], if err \<noteq> 0 then 1 else 0, s, w))"

text \<open>
  The whole program: the calls, the exit status and what is left. The calls of \<^verbatim>\<open>exit\<close> in the parser make none.
\<close>

definition main_program ::
    "('se, 'ch, 'w) libfuse \<Rightarrow> env \<Rightarrow> 'g getopt \<Rightarrow> (fuse_args \<Rightarrow> string \<Rightarrow> fuse_args) \<Rightarrow> (string \<Rightarrow> string)
     \<Rightarrow> (nat \<Rightarrow> char) \<Rightarrow> 'g \<Rightarrow> string list \<Rightarrow> 'w \<Rightarrow> (('se, 'ch) call list \<times> int \<times> 'w) option" where
  "main_program L e getopt add_arg base junk g words w =
     map_option
       (\<lambda>r. case r of
          Inl code \<Rightarrow> ([], code, w)
        | Inr (args, opt, core) \<Rightarrow>
            (case main_mount L args opt (core, w) of (calls, code, s, w) \<Rightarrow> (calls, code, w)))
       (main_setup e getopt add_arg base junk g words)"

section \<open>Acquiring and releasing\<close>

text \<open>
  A monitor of the calls: what is held, or \<open>None\<close> when a call breaks the protocol of the library. The loop needs
  the mount, the handlers and an attached channel; a session is destroyed only without handlers and
  channel, and unmounting comes after the session is gone.
\<close>

datatype ('se, 'ch) resource = Res_Mount string 'ch | Res_Session 'se | Res_Handlers 'se | Res_Chan 'se 'ch

definition take_res :: "'r \<Rightarrow> 'r set \<Rightarrow> 'r set option" where
  "take_res r R = (if r \<in> R then None else Some (insert r R))"

definition drop_res :: "'r \<Rightarrow> 'r set \<Rightarrow> 'r set option" where
  "drop_res r R = (if r \<in> R then Some (R - {r}) else None)"

fun monitor :: "('se, 'ch) call \<Rightarrow> ('se, 'ch) resource set \<Rightarrow> ('se, 'ch) resource set option" where
  "monitor (Call_Mount mp None) R = Some R"
| "monitor (Call_Mount mp (Some ch)) R = take_res (Res_Mount mp ch) R"
| "monitor (Call_New None) R = Some R"
| "monitor (Call_New (Some se)) R = take_res (Res_Session se) R"
| "monitor (Call_Daemonize fg) R = Some R"
| "monitor (Call_Set_Handlers se r) R =
     (if Res_Session se \<notin> R then None else if r = - 1 then Some R else take_res (Res_Handlers se) R)"
| "monitor (Call_Add_Chan se ch) R =
     (if Res_Session se \<in> R \<and> (\<exists>mp. Res_Mount mp ch \<in> R) then take_res (Res_Chan se ch) R else None)"
| "monitor (Call_Loop se err s) R =
     (if Res_Session se \<in> R \<and> Res_Handlers se \<in> R \<and> (\<exists>ch mp. Res_Chan se ch \<in> R \<and> Res_Mount mp ch \<in> R) then Some R else None)"
| "monitor (Call_Remove_Handlers se) R = drop_res (Res_Handlers se) R"
| "monitor (Call_Remove_Chan ch) R =
     (if \<exists>se. Res_Chan se ch \<in> R then Some (R - {x. \<exists>se. x = Res_Chan se ch}) else None)"
| "monitor (Call_Destroy se) R =
     (if Res_Handlers se \<in> R \<or> (\<exists>ch. Res_Chan se ch \<in> R) then None else drop_res (Res_Session se) R)"
| "monitor (Call_Unmount mp ch) R =
     (if \<exists>se. Res_Session se \<in> R \<or> Res_Chan se ch \<in> R then None else drop_res (Res_Mount mp ch) R)"
| "monitor Call_Free_Args R = Some R"

primrec watch :: "('se, 'ch) call list \<Rightarrow> ('se, 'ch) resource set \<Rightarrow> ('se, 'ch) resource set option" where
  "watch [] R = Some R"
| "watch (c # cs) R = monitor c R \<bind> watch cs"

text \<open>The possible sequences of calls, by the outcomes of the library.\<close>

definition loop_calls :: "'se \<Rightarrow> 'ch \<Rightarrow> int \<Rightarrow> int \<Rightarrow> fs \<Rightarrow> ('se, 'ch) call list" where
  "loop_calls se ch r err s =
     (if r \<noteq> - 1 then [Call_Set_Handlers se r, Call_Add_Chan se ch, Call_Loop se err s, Call_Remove_Handlers se,
        Call_Remove_Chan ch] else [Call_Set_Handlers se r])"

lemma serve_session_calls:
  assumes "serve_session L se ch (s, w) = (calls, err, s', w')"
  obtains r err' w0 w1 where "calls = loop_calls se ch r err' s'" "err = (if r \<noteq> - 1 then err' else - 1)"
    "r \<noteq> - 1 \<longrightarrow> fuse_session_loop L se (s, w0) = (err', s', w1)"
proof -
  obtain r w1 where h: "fuse_set_signal_handlers L se w = (r, w1)" by fastforce
  show ?thesis
  proof (cases "r = - 1")
    case True
    with h assms that [of r err] show ?thesis by (auto simp: serve_session_def loop_calls_def)
  next
    case False
    obtain e s2 w2 where l: "fuse_session_loop L se (s, fuse_session_add_chan L se ch w1) = (e, s2, w2)" by (metis prod_cases3)
    with False h assms have "calls = loop_calls se ch r e s'" "err = e" "s2 = s'"
      by (auto simp: serve_session_def loop_calls_def Let_def)
    with l False show ?thesis by (intro that [of r e "fuse_session_add_chan L se ch w1" w2]) simp_all
  qed
qed

lemma mount_session_calls:
  assumes "mount_session L opt ch args (s, w) = (calls, err, args', s', w')"
  obtains "calls = [Call_New None]" "err = - 1"
  | se r err' s1 w0 w1 where
    "calls = [Call_New (Some se), Call_Daemonize (\<not> deamonize opt)] @ loop_calls se ch r err' s1 @ [Call_Destroy se]"
    "err = (if r \<noteq> - 1 then err' else - 1)" "r \<noteq> - 1 \<longrightarrow> fuse_session_loop L se (s, w0) = (err', s1, w1)"
proof (cases "fuse_lowlevel_new L args w")
  case (fields x args1 w1)
  show ?thesis
  proof (cases x)
    case None
    with fields assms that(1) show ?thesis by (simp add: mount_session_def)
  next
    case (Some se)
    obtain calls' err' s1 w2 where c: "serve_session L se ch (s, fuse_daemonize L (\<not> deamonize opt) w1) = (calls', err', s1, w2)"
      by (metis prod_cases4)
    from c obtain r e' v v' where "calls' = loop_calls se ch r e' s1" "err' = (if r \<noteq> - 1 then e' else - 1)"
      "r \<noteq> - 1 \<longrightarrow> fuse_session_loop L se (s, v) = (e', s1, v')" by (rule serve_session_calls)
    with fields Some c assms that(2) [of se r e' s1 v v'] show ?thesis
      by (simp add: mount_session_def Let_def split: prod.splits)
  qed
qed

lemma main_mount_calls:
  assumes "main_mount L args opt (s, w) = (calls, code, s', w')"
  obtains "calls = [Call_Free_Args]" "code = 1"
  | mp where "calls = [Call_Mount mp None, Call_Free_Args]" "code = 1"
  | mp ch where "calls = [Call_Mount mp (Some ch), Call_New None, Call_Unmount mp ch, Call_Free_Args]" "code = 1"
  | mp ch se r err s1 w0 w1 where
    "calls = [Call_Mount mp (Some ch), Call_New (Some se), Call_Daemonize (\<not> deamonize opt)] @ loop_calls se ch r err s1 @
      [Call_Destroy se, Call_Unmount mp ch, Call_Free_Args]"
    "code = (if r \<noteq> - 1 \<and> err = 0 then 0 else 1)" "r \<noteq> - 1 \<longrightarrow> fuse_session_loop L se (s, w0) = (err, s1, w1)"
proof -
  consider (bad) "subtype opt = None \<or> mountpoint opt = None" | (go) st mp where "subtype opt = Some st" "mountpoint opt = Some mp"
    by fastforce
  then show ?thesis
  proof cases
    case bad
    with assms that(1) show ?thesis by (auto simp: main_mount_def split: option.splits)
  next
    case (go st mp)
    obtain x args1 w1 where m: "fuse_mount L mp args w = (x, args1, w1)" by (metis prod_cases3)
    show ?thesis
    proof (cases x)
      case None
      with go m assms that(2) [of mp] show ?thesis by (simp add: main_mount_def Let_def)
    next
      case (Some ch)
      obtain calls1 err1 args2 s2 w2 where c: "mount_session L opt ch args1 (s, w1) = (calls1, err1, args2, s2, w2)"
        by (metis prod_cases5)
      have main: "calls = [Call_Mount mp (Some ch)] @ calls1 @ [Call_Unmount mp ch, Call_Free_Args]"
        "code = (if err1 \<noteq> 0 then 1 else 0)" using go m Some c assms by (simp_all add: main_mount_def Let_def)
      from c show ?thesis by (rule mount_session_calls) (use main that(3,4) in auto)
    qed
  qed
qed

lemma watch_loop_calls:
  "watch (loop_calls se ch r err s @ cs) {Res_Session se, Res_Mount mp ch} = watch cs {Res_Session se, Res_Mount mp ch}"
proof -
  have "insert (Res_Chan se ch) {Res_Session se, Res_Mount mp ch} - {x. \<exists>se. x = Res_Chan se ch} =
    {Res_Session se, Res_Mount mp ch}" by auto
  then show ?thesis by (simp add: loop_calls_def take_res_def drop_res_def insert_commute insert_Diff_if)
qed

lemma in_loop_calls: "Call_Loop se' err' s' \<in> set (loop_calls se ch r err s) \<longleftrightarrow> r \<noteq> - 1 \<and> se' = se \<and> err' = err \<and> s' = s"
  by (auto simp: loop_calls_def)

lemma main_mount_watch:
  assumes "main_mount L args opt (s, w) = (calls, code, s', w')"
  shows "watch calls {} = Some {}" "code = 0 \<longleftrightarrow> (\<exists>se s. Call_Loop se 0 s \<in> set calls)"
  using assms
  by (auto elim!: main_mount_calls simp: watch_loop_calls in_loop_calls take_res_def drop_res_def split: if_splits)

section \<open>The options of a command line\<close>

text \<open>The parser ends the program with 1 only, and lets no table of one inode through.\<close>

definition parsed_ok :: "int + fuse_ramfs_options \<Rightarrow> bool" where
  "parsed_ok r = (case r of Inl code \<Rightarrow> code = 1 | Inr opt \<Rightarrow> inodes opt = 0 \<or> 2 \<le> unat (inodes opt))"

lemma two_inodes: "\<not> (0 < n \<and> n < 2) \<longleftrightarrow> n = 0 \<or> 2 \<le> unat n" for n :: size_t
  by (auto simp: word_less_nat_alt unat_gt_0)

lemma parse_options_ok:
  "ramfs_parse_options junk str opt = Some r \<Longrightarrow> parsed_ok (map_sum id fst r)"
  by (auto simp: ramfs_parse_options_def parsed_ok_def Let_def simp flip: two_inodes
      split: Option.bind_splits if_splits)

lemma case_o_ok: "case_o junk optind cl = Some r \<Longrightarrow> parsed_ok (map_sum id cl_options r)"
  by (auto simp: case_o_def parsed_ok_def Let_def dest!: parse_options_ok
      split: Option.bind_splits if_splits option.splits sum.splits)


lemma getopt_loop_ok:
  assumes "getopt_loop getopt junk g optind cl = Some r" "parsed_ok (Inr (cl_options cl))"
  shows "parsed_ok (map_sum id (cl_options \<circ> snd) r)"
proof -
  have "parsed_ok (Inr (cl_options cl)) \<longrightarrow> parsed_ok (map_sum id (cl_options \<circ> snd) r)"
  proof (rule getopt_loop.raw_induct [OF _ assms(1)])
    fix f :: "'a getopt \<Rightarrow> (nat \<Rightarrow> char) \<Rightarrow> 'a \<Rightarrow> nat \<Rightarrow> cmdline \<Rightarrow> (int + nat \<times> cmdline) option"
      and getopt junk g optind cl r
    assume IH: "\<And>getopt junk g optind cl r. f getopt junk g optind cl = Some r \<Longrightarrow>
        parsed_ok (Inr (cl_options cl)) \<longrightarrow> parsed_ok (map_sum id (cl_options \<circ> snd) r)"
      and eq: "(case getopt g optind (argc (cl_args cl)) (argv (cl_args cl)) of (opt, g, optind, v) \<Rightarrow>
          (let cl = cl\<lparr>cl_args := (cl_args cl)\<lparr>argv := v\<rparr>\<rparr> in
           case opt of None \<Rightarrow> Some (Inr (optind, cl))
           | Some c \<Rightarrow>
               if c = CHR ''o'' then
                 case_o junk optind cl \<bind> case_sum (\<lambda>code. Some (Inl code)) (\<lambda>cl. f getopt junk g optind cl)
               else if c = CHR ''b'' then
                 f getopt junk g (optind - 1)
                   (cl\<lparr>cl_options := (cl_options cl)\<lparr>deamonize := True\<rparr>, cl_args := erase_arg (cl_args cl) (optind - 1)\<rparr>)
               else f getopt junk g optind cl)) = Some r"
    show "parsed_ok (Inr (cl_options cl)) \<longrightarrow> parsed_ok (map_sum id (cl_options \<circ> snd) r)"
      using eq
      by (auto simp: Let_def parsed_ok_def dest!: IH case_o_ok split: prod.splits option.splits if_splits Option.bind_splits sum.splits)
  qed
  with assms(2) show ?thesis by blast
qed

lemma main_setup_ok:
  assumes "main_setup e getopt add_arg base junk g words = Some r"
  shows "case r of Inl code \<Rightarrow> code = 1
    | Inr (args, opt, core) \<Rightarrow> (inodes opt = 0 \<or> 2 \<le> unat (inodes opt)) \<and> subtype opt \<noteq> None \<and> mountpoint opt \<noteq> None \<and>
        core = FuseRamFs_new (capacity opt div BufBlockSize) (inodes opt)"
proof -
  obtain fuse_argv r1 where c: "ramfs_parse_cmdline getopt add_arg base junk g
      \<lparr>argc = length words, argv = fuse_argv, allocated = True\<rparr> no_options = Some r1"
    "r = (case r1 of Inl code \<Rightarrow> Inl code
       | Inr (fargs, options) \<Rightarrow> Inr (fargs, options, FuseRamFs_new (capacity options div BufBlockSize) (inodes options)))"
    using assms by (auto simp: main_setup_def split: Option.bind_splits)
  obtain r2 where l: "getopt_loop getopt junk g 1 \<lparr>cl_args = \<lparr>argc = length words, argv = fuse_argv, allocated = True\<rparr>,
      cl_options = no_options, o_idx1 = 0, argo_idx = 0\<rparr> = Some r2"
    "Some r1 = (case r2 of Inl code \<Rightarrow> Some (Inl code) | Inr (optind, cl) \<Rightarrow> finish_cmdline add_arg base optind cl)"
    using c(1) by (auto simp: ramfs_parse_cmdline_def split: Option.bind_splits)
  from getopt_loop_ok [OF l(1)] have p: "parsed_ok (map_sum id (cl_options \<circ> snd) r2)"
    by (simp add: parsed_ok_def no_options_def)
  show ?thesis
  proof (cases r2)
    case (Inl code)
    with l(2) p c(2) show ?thesis by (simp add: parsed_ok_def)
  next
    case (Inr q)
    with l(2) p c(2) show ?thesis
      by (auto simp: finish_cmdline_def parsed_ok_def Let_def split: prod.splits if_splits Option.bind_splits)
  qed
qed

lemma main_program_cases:
  assumes "main_program L e getopt add_arg base junk g words w = Some (calls, code, w')"
  obtains "calls = []" "code = 1"
  | args opt s' where "inodes opt = 0 \<or> 2 \<le> unat (inodes opt)"
    "main_setup e getopt add_arg base junk g words =
      Some (Inr (args, opt, FuseRamFs_new (capacity opt div BufBlockSize) (inodes opt)))"
    "main_mount L args opt (FuseRamFs_new (capacity opt div BufBlockSize) (inodes opt), w) = (calls, code, s', w')"
proof -
  from assms obtain r where r: "main_setup e getopt add_arg base junk g words = Some r"
    "(calls, code, w') = (case r of Inl code \<Rightarrow> ([], code, w)
       | Inr (args, opt, core) \<Rightarrow> (case main_mount L args opt (core, w) of (calls, code, s, w) \<Rightarrow> (calls, code, w)))"
    by (auto simp: main_program_def)
  from main_setup_ok [OF r(1)] show ?thesis
  proof (cases r)
    case (Inl c)
    with r main_setup_ok [OF r(1)] that(1) show ?thesis by simp
  next
    case (Inr q)
    obtain args opt core where q: "q = (args, opt, core)" by (cases q)
    obtain calls1 code1 s1 w1 where "main_mount L args opt (core, w) = (calls1, code1, s1, w1)" by (metis prod_cases4)
    with r Inr q main_setup_ok [OF r(1)] that(2) [of opt args s1] show ?thesis by auto
  qed
qed

section \<open>What the session loop dispatches\<close>

text \<open>
  Requests dispatched to the operations of the file system, one after the other, each recorded with the state it
  met. Nothing is assumed of the requests, except that each handler returned.
\<close>

inductive dispatched :: "fs \<times> disk \<Rightarrow> (request \<times> fs) list \<Rightarrow> fs \<times> disk \<Rightarrow> bool" where
  idle: "dispatched st [] st"
| dispatch: "handle w r st = Some (rs, st') \<Longrightarrow> dispatched st' trace st'' \<Longrightarrow> dispatched st ((r, fst st) # trace) st''"

lemma dispatched_reachable:
  assumes "dispatched st trace st'" "reachable st" "list_all (\<lambda>(r, t). kernel_ok r t) trace"
  shows "reachable st'"
  using assms
proof (induction rule: dispatched.induct)
  case (dispatch w r st rs st' trace st'')
  then have "step st r rs st'" using step.serve [of r st w rs st'] by simp
  with dispatch show ?case by (auto intro: reachable.next_step)
qed simp

text \<open>
  What libfuse documents of the loop of a single-threaded session: it returns before the file system is
  initialised, or it calls the operation \<^verbatim>\<open>init\<close> first and then the operation of one request after the other, until the
  session has ended. The requests are whatever the kernel sends: \<open>sent\<close> is a parameter and nothing is said of it
  here. (The operation \<^verbatim>\<open>destroy\<close> is called at the end of the session, by \<^verbatim>\<open>fuse_session_destroy\<close>.)
\<close>

definition loop_contract :: "('se, 'ch, 'w) libfuse \<Rightarrow> ('se \<Rightarrow> fs \<times> 'w \<Rightarrow> (request \<times> fs) list) \<Rightarrow> bool" where
  "loop_contract L sent \<longleftrightarrow> (\<forall>se s w err s' w'. fuse_session_loop L se (s, w) = (err, s', w') \<longrightarrow>
     s' = s \<or> (\<exists>e umask gid uid s0 d d'. FuseInit e umask gid uid s = Some s0 \<and> dispatched (s0, d) (sent se (s, w)) (s', d')))"

section \<open>A run of the program\<close>

text \<open>A library that grants everything and whose loop serves the initialisation and one request and then ends.\<close>

definition demo_sent :: "nat \<Rightarrow> fs \<times> nat \<Rightarrow> (request \<times> fs) list" where
  "demo_sent se = (\<lambda>(s, w). case FuseInit demo_env 0x12 100 1000 s of None \<Rightarrow> [] | Some s0 \<Rightarrow> [(Req_GetAttr 1, s0)])"

definition demo_loop :: "nat \<Rightarrow> fs \<times> nat \<Rightarrow> int \<times> fs \<times> nat" where
  "demo_loop se = (\<lambda>(s, w). case FuseInit demo_env 0x12 100 1000 s of
     None \<Rightarrow> (- 1, s, w)
   | Some s0 \<Rightarrow> (case handle demo_world (Req_GetAttr 1) (s0, Map.empty) of
        None \<Rightarrow> (- 1, s, w)
      | Some (rs, s1, d) \<Rightarrow> (0, s1, w)))"

lemma handle_getattr: "\<exists>rs. handle w (Req_GetAttr i) (s, d) = Some (rs, s, d)"
  by (auto simp: handle_def FuseGetAttr_def Inode_ReplyAttr_def fuse_reply_err_def split: option.split)

definition demo_lib :: "(nat, nat, nat) libfuse" where
  "demo_lib = \<lparr>fuse_mount = (\<lambda>mp a w. (Some 3, a, w + 1)), fuse_lowlevel_new = (\<lambda>a w. (Some 7, a, w + 1)),
     fuse_daemonize = (\<lambda>fg w. w), fuse_set_signal_handlers = (\<lambda>se w. (0, w)), fuse_session_add_chan = (\<lambda>se ch w. w),
     fuse_session_loop = demo_loop, fuse_remove_signal_handlers = (\<lambda>se w. w), fuse_session_remove_chan = (\<lambda>ch w. w),
     fuse_session_destroy = (\<lambda>se st. st), fuse_unmount = (\<lambda>mp ch w. w - 1), fuse_opt_free_args = (\<lambda>a w. w)\<rparr>"

definition no_switches :: "unit getopt" where
  "no_switches g ind n v = (None, g, ind, v)"

definition append_arg :: "fuse_args \<Rightarrow> string \<Rightarrow> fuse_args" where
  "append_arg a s = a\<lparr>argc := argc a + 1, argv := take (argc a) (argv a) @ [Some s]\<rparr>"

lemma demo_setup:
  "\<exists>args opt. main_setup demo_env no_switches append_arg (\<lambda>_. ''ramfs'') (\<lambda>_. NUL) () [''ramfs'', ''/mnt''] =
     Some (Inr (args, opt, FuseRamFs_new 0 0)) \<and> subtype opt = Some ''ramfs'' \<and> mountpoint opt = Some ''/mnt'' \<and>
     inodes opt = 0 \<and> \<not> deamonize opt"
  by (simp add: main_setup_def copy_args_def ramfs_parse_cmdline_def getopt_loop.simps no_switches_def finish_cmdline_def no_options_def
      OPTION_MAX_def BufBlockSize_def Let_def)

lemma demo_loop_init:
  obtains s0 where "FuseInit demo_env 0x12 100 1000 (FuseRamFs_new 0 0) = Some s0"
    "demo_loop 7 (FuseRamFs_new 0 0, w) = (0, s0, w)"
proof -
  obtain s0 where "FuseInit demo_env 0x12 100 1000 (FuseRamFs_new 0 0) = Some s0"
    by (rule FuseInit_ok [where inodes = 0 and e = demo_env and umask = "0x12" and gid = 100 and uid = 1000 and blocks = 0]) auto
  moreover obtain rs where "handle demo_world (Req_GetAttr 1) (s0, Map.empty) = Some (rs, s0, Map.empty)"
    using handle_getattr by blast
  ultimately show ?thesis using that by (simp add: demo_loop_def)
qed

lemma demo_main:
  obtains s0 w' where "main_program demo_lib demo_env no_switches append_arg (\<lambda>_. ''ramfs'') (\<lambda>_. NUL) () [''ramfs'', ''/mnt''] 0 =
    Some ([Call_Mount ''/mnt'' (Some 3), Call_New (Some 7), Call_Daemonize True, Call_Set_Handlers 7 0, Call_Add_Chan 7 3,
      Call_Loop 7 0 s0, Call_Remove_Handlers 7, Call_Remove_Chan 3, Call_Destroy 7, Call_Unmount ''/mnt'' 3, Call_Free_Args], 0, w')"
    "FuseInit demo_env 0x12 100 1000 (FuseRamFs_new 0 0) = Some s0"
proof -
  obtain s0 where i: "FuseInit demo_env 0x12 100 1000 (FuseRamFs_new 0 0) = Some s0"
    "demo_loop 7 (FuseRamFs_new 0 0, 2) = (0, s0, 2)" by (rule demo_loop_init)
  from demo_setup i that show ?thesis
    by (auto simp: main_program_def main_mount_def mount_session_def serve_session_def demo_lib_def Let_def numeral_2_eq_2)
qed

lemma demo_contract: "loop_contract demo_lib demo_sent"
  unfolding loop_contract_def
proof (intro allI impI)
  fix se s w err s' w' assume l: "fuse_session_loop demo_lib se (s, w) = (err, s', w')"
  show "s' = s \<or>
    (\<exists>e umask gid uid s0 d d'. FuseInit e umask gid uid s = Some s0 \<and> dispatched (s0, d) (demo_sent se (s, w)) (s', d'))"
  proof (cases "FuseInit demo_env 0x12 100 1000 s")
    case (Some s0)
    obtain rs where h: "handle demo_world (Req_GetAttr 1) (s0, Map.empty) = Some (rs, s0, Map.empty)" using handle_getattr by blast
    with l Some have "s' = s0" by (simp add: demo_lib_def demo_loop_def)
    with Some dispatched.dispatch [OF h dispatched.idle] show ?thesis by (auto simp: demo_sent_def)
  qed (use l in \<open>simp add: demo_lib_def demo_loop_def\<close>)
qed

section \<open>Properties\<close>

text \<open>
  (C26) Whatever the library answers, \<^verbatim>\<open>main\<close> keeps to the order its calls require and holds nothing when it returns: a
  mount is undone by an unmount, a session destroyed, the handlers removed and the channel
  detached, each once and in an order that never takes away what is in use; and the exit status is 0
  exactly when the session loop ran and ended with 0.
\<close>

theorem main_releases:
  assumes "main_program L e getopt add_arg base junk g words w = Some (calls, code, w')"
  shows "watch calls {} = Some {} \<and> (code = 0 \<longleftrightarrow> (\<exists>se s. Call_Loop se 0 s \<in> set calls))"
  using assms
proof (rule main_program_cases)
  fix args opt s' assume "main_mount L args opt (FuseRamFs_new (capacity opt div BufBlockSize) (inodes opt), w) = (calls, code, s', w')"
  from main_mount_watch [OF this] show ?thesis by blast
qed simp

theorem main_releases_witness:
  "\<exists>calls w'. main_program demo_lib demo_env no_switches append_arg (\<lambda>_. ''ramfs'') (\<lambda>_. NUL) () [''ramfs'', ''/mnt''] 0 =
     Some (calls, 0, w') \<and> watch calls {} = Some {} \<and> (\<exists>se s. Call_Loop se 0 s \<in> set calls)"
proof -
  obtain calls w' where m: "main_program demo_lib demo_env no_switches append_arg (\<lambda>_. ''ramfs'') (\<lambda>_. NUL) ()
    [''ramfs'', ''/mnt''] 0 = Some (calls, 0, w')" by (rule demo_main)
  from main_releases [OF m] m show ?thesis by blast
qed

text \<open>
  (C11) The command line and the requests together. Suppose that the loop of libfuse dispatches the requests that it is
  sent, that each of these is as the kernel sends it (no load of a state file among them), and that the number of inodes
  on the command line is below \<open>2 ^ 63\<close>. Then the state in which the session loop leaves the file system is the one that
  the constructor made of the options or a reachable one, so that all invariants of reachable states hold of the
  running program. Nothing is asked of a small number of inodes: the check of the options rules out the
  table of one inode for which the invariants fail.
\<close>

theorem main_serves_reachable:
  assumes "main_program L e getopt add_arg base junk g words w = Some (calls, code, w')"
    and "loop_contract L sent"
    and "\<forall>se st. list_all (\<lambda>(r, t). kernel_ok r t) (sent se st)"
    and "\<forall>args opt core. main_setup e getopt add_arg base junk g words = Some (Inr (args, opt, core)) \<longrightarrow>
      unat (inodes opt) < 2 ^ 63"
    and "Call_Loop se err s \<in> set calls"
  shows "(\<exists>args opt. main_setup e getopt add_arg base junk g words = Some (Inr (args, opt, s))) \<or>
    (\<exists>d. reachable (s, d))"
  using assms(1)
proof (rule main_program_cases)
  fix args and opt :: fuse_ramfs_options and s'
  let ?core = "FuseRamFs_new (capacity opt div BufBlockSize) (inodes opt)"
  assume n: "inodes opt = 0 \<or> 2 \<le> unat (inodes opt)"
    and set: "main_setup e getopt add_arg base junk g words = Some (Inr (args, opt, ?core))"
    and mnt: "main_mount L args opt (?core, w) = (calls, code, s', w')"
  obtain w0 w1 where l: "fuse_session_loop L se (?core, w0) = (err, s, w1)"
    using mnt by (rule main_mount_calls) (use assms(5) in \<open>auto simp: in_loop_calls\<close>)
  show ?thesis
  proof (cases "s = ?core")
    case False
    then obtain e umask gid uid s0 d d' where i: "FuseInit e umask gid uid ?core = Some s0"
      and r: "dispatched (s0, d) (sent se (?core, w0)) (s, d')"
      using assms(2) [unfolded loop_contract_def, rule_format, OF l] by blast
    have "mounted s0" using mounted.mount [OF _ i] n assms(4) set by blast
    from dispatched_reachable [OF r reachable.init [OF this]] assms(3) show ?thesis by blast
  qed (use set in blast)
qed (use assms(5) in simp)

theorem main_serves_reachable_witness:
  "\<exists>s. FuseInit demo_env 0x12 100 1000 (FuseRamFs_new 0 0) = Some s \<and> (\<exists>d. reachable (s, d))"
proof -
  let ?parsed = "main_setup demo_env no_switches append_arg (\<lambda>_. ''ramfs'') (\<lambda>_. NUL) () [''ramfs'', ''/mnt'']"
  obtain s0 w' calls where m: "main_program demo_lib demo_env no_switches append_arg (\<lambda>_. ''ramfs'') (\<lambda>_. NUL) ()
    [''ramfs'', ''/mnt''] 0 = Some (calls, 0, w')" "Call_Loop 7 0 s0 \<in> set calls"
    "FuseInit demo_env 0x12 100 1000 (FuseRamFs_new 0 0) = Some s0" by (rule demo_main) auto
  obtain args opt where s: "?parsed = Some (Inr (args, opt, FuseRamFs_new 0 0))" "inodes opt = 0" using demo_setup by blast
  have "Inodes s0 \<noteq> []"
    by (rule FuseInit_ok [where inodes = 0 and e = demo_env and umask = "0x12" and gid = 100 and uid = 1000 and blocks = 0])
      (use m(3) in \<open>auto simp: GetInode_def\<close>)
  then have "s0 \<noteq> FuseRamFs_new 0 0" by (auto simp: FuseRamFs_new_def Let_def)
  with main_serves_reachable [OF m(1) demo_contract _ _ m(2)] s m(3) show ?thesis
    by (auto simp: demo_sent_def kernel_ok_def split: option.splits)
qed

end
