(* ===== verification/Testops.thy ===== *)
theory Testops
  imports Fuse_Types
begin

text \<open>
  The operations of \<^verbatim>\<open>testops.cpp\<close>, which the tools for checkpoint and restore are linked with: each is a short
  sequence of system calls on a path. The system calls, the printing functions and \<^verbatim>\<open>errno\<close> belong to the C library and
  are parameters on a world \<open>'w\<close>.
\<close>

section \<open>System calls\<close>

record 'w posix =
  px_creat :: "string \<Rightarrow> mode_t \<Rightarrow> 'w \<Rightarrow> int \<times> 'w"
  px_open :: "string \<Rightarrow> u32 \<Rightarrow> 'w \<Rightarrow> int \<times> 'w"
  px_lseek :: "int \<Rightarrow> off_t \<Rightarrow> u32 \<Rightarrow> 'w \<Rightarrow> int \<times> 'w"
  px_write :: "int \<Rightarrow> byte list \<Rightarrow> 'w \<Rightarrow> int \<times> 'w"
  px_close :: "int \<Rightarrow> 'w \<Rightarrow> int \<times> 'w"
  px_unlink :: "string \<Rightarrow> 'w \<Rightarrow> int \<times> 'w"
  px_mkdir :: "string \<Rightarrow> mode_t \<Rightarrow> 'w \<Rightarrow> int \<times> 'w"
  px_rmdir :: "string \<Rightarrow> 'w \<Rightarrow> int \<times> 'w"
  px_print :: "string \<Rightarrow> int \<Rightarrow> int \<Rightarrow> 'w \<Rightarrow> 'w"
  px_errno :: "'w \<Rightarrow> int"
  px_set_errno :: "int \<Rightarrow> 'w \<Rightarrow> 'w"

definition O_RDWR :: u32 where "O_RDWR = 2"
definition SEEK_SET :: u32 where "SEEK_SET = 0"

section \<open>The operations\<close>

definition create_file :: "'w posix \<Rightarrow> string \<Rightarrow> mode_t \<Rightarrow> 'w \<Rightarrow> int \<times> 'w" where
  "create_file P path mode w =
     (let (fd, w) = px_creat P path mode w;
          w = (if fd \<ge> 0 then snd (px_close P fd w) else w)
      in (if fd \<ge> 0 then 0 else - 1, w))"

text \<open>Closing a descriptor on an error path: the error number is saved over the call.\<close>

definition close_keeping_errno :: "'w posix \<Rightarrow> int \<Rightarrow> 'w \<Rightarrow> 'w" where
  "close_keeping_errno P fd w = (let err = px_errno P w in px_set_errno P err (snd (px_close P fd w)))"

text \<open>The message printed has the path, the result and the length or the error number.\<close>

definition write_file :: "'w posix \<Rightarrow> string \<Rightarrow> byte list \<Rightarrow> off_t \<Rightarrow> 'w \<Rightarrow> int \<times> 'w" where
  "write_file P path data offset w =
     (let (fd, w) = px_open P path O_RDWR w in
      if fd < 0 then (- 1, w)
      else
        let (res, w) = px_lseek P fd offset SEEK_SET w in
        if res = - 1 then (- 1, close_keeping_errno P fd w)
        else
          let (writesz, w) = px_write P fd data w in
          if writesz < 0 then (- 1, close_keeping_errno P fd w)
          else
            let w = (if nat writesz < length data then px_print P [] writesz (int (length data)) w
                     else px_print P path writesz (px_errno P w) w)
            in (writesz, snd (px_close P fd w)))"

definition unlink_file :: "'w posix \<Rightarrow> string \<Rightarrow> 'w \<Rightarrow> int \<times> 'w" where
  "unlink_file P path w =
     (let (ret, w) = px_unlink P path w; err = px_errno P w in (ret, px_print P path ret err w))"

definition create_dir :: "'w posix \<Rightarrow> string \<Rightarrow> mode_t \<Rightarrow> 'w \<Rightarrow> int \<times> 'w" where
  "create_dir P path mode w = px_mkdir P path mode w"

definition remove_dir :: "'w posix \<Rightarrow> string \<Rightarrow> 'w \<Rightarrow> int \<times> 'w" where
  "remove_dir P path w =
     (let (ret, w) = px_rmdir P path w; err = px_errno P w in (ret, px_print P path ret err w))"

section \<open>Descriptors and error numbers\<close>

text \<open>
  What POSIX says of the calls: a successful \<^verbatim>\<open>open\<close> or \<^verbatim>\<open>creat\<close> gives a descriptor that was not in use, a
  failing one gives -1, \<^verbatim>\<open>close\<close> frees its descriptor, and no other call changes the set of open ones; \<open>fds\<close>
  is that set.
\<close>

definition opens_one :: "('w \<Rightarrow> int set) \<Rightarrow> 'w \<Rightarrow> int \<times> 'w \<Rightarrow> bool" where
  "opens_one fds w r \<longleftrightarrow> (if fst r < 0 then fst r = - 1 \<and> fds (snd r) = fds w
     else fst r \<notin> fds w \<and> fds (snd r) = insert (fst r) (fds w))"

definition posix_ok :: "'w posix \<Rightarrow> ('w \<Rightarrow> int set) \<Rightarrow> bool" where
  "posix_ok P fds \<longleftrightarrow>
     (\<forall>path mode w. opens_one fds w (px_creat P path mode w)) \<and>
     (\<forall>path fl w. opens_one fds w (px_open P path fl w)) \<and>
     (\<forall>fd w. fds (snd (px_close P fd w)) = fds w - {fd}) \<and>
     (\<forall>fd off wh w. fds (snd (px_lseek P fd off wh w)) = fds w) \<and>
     (\<forall>fd d w. fds (snd (px_write P fd d w)) = fds w) \<and>
     (\<forall>path w. fds (snd (px_unlink P path w)) = fds w) \<and>
     (\<forall>path mode w. fds (snd (px_mkdir P path mode w)) = fds w) \<and>
     (\<forall>path w. fds (snd (px_rmdir P path w)) = fds w) \<and>
     (\<forall>m a b w. fds (px_print P m a b w) = fds w) \<and>
     (\<forall>e w. fds (px_set_errno P e w) = fds w \<and> px_errno P (px_set_errno P e w) = e)"

lemma posix_okD:
  assumes "posix_ok P fds"
  shows "opens_one fds w (px_creat P path mode w)" "opens_one fds w (px_open P path fl w)"
    "fds (snd (px_close P fd w)) = fds w - {fd}" "fds (snd (px_lseek P fd off wh w)) = fds w"
    "fds (snd (px_write P fd d w)) = fds w" "fds (snd (px_unlink P path w)) = fds w"
    "fds (snd (px_mkdir P path mode w)) = fds w" "fds (snd (px_rmdir P path w)) = fds w"
    "fds (px_print P m a b w) = fds w" "fds (px_set_errno P e w) = fds w" "px_errno P (px_set_errno P e w) = e"
  using assms by (simp_all add: posix_ok_def)

lemma close_keeping_errno_ok:
  assumes "posix_ok P fds"
  shows "fds (close_keeping_errno P fd w) = fds w - {fd}" "px_errno P (close_keeping_errno P fd w) = px_errno P w"
  by (simp_all add: close_keeping_errno_def Let_def posix_okD [OF assms])

lemma single_calls_keep:
  assumes "posix_ok P fds"
  shows "fds (snd (unlink_file P path w)) = fds w" "fds (snd (create_dir P path mode w)) = fds w"
    "fds (snd (remove_dir P path w)) = fds w"
  using posix_okD [OF assms] by (simp_all add: unlink_file_def create_dir_def remove_dir_def Let_def case_prod_beta)

lemma create_file_keeps: "posix_ok P fds \<Longrightarrow> fds (snd (create_file P path mode w)) = fds w"
  using posix_okD(1) [of P fds w path mode] posix_okD(3) [of P fds]
  by (auto simp: create_file_def opens_one_def Let_def case_prod_beta)

lemma write_file_keeps:
  assumes ok: "posix_ok P fds"
  shows "fds (snd (write_file P path data off w)) = fds w"
proof -
  obtain fd w1 where o: "px_open P path O_RDWR w = (fd, w1)" by fastforce
  obtain res w2 where l: "px_lseek P fd off SEEK_SET w1 = (res, w2)" by fastforce
  obtain n w3 where wr: "px_write P fd data w2 = (n, w3)" by fastforce
  have f: "fds w2 = fds w1" "fds w3 = fds w2"
    using posix_okD(4) [OF ok, of fd off SEEK_SET w1] posix_okD(5) [OF ok, of fd data w2] l wr by simp_all
  have "if fd < 0 then fds w1 = fds w else fd \<notin> fds w \<and> fds w1 = insert fd (fds w)"
    using posix_okD(2) [OF ok, of w path O_RDWR] o by (auto simp: opens_one_def)
  with f show ?thesis
    by (simp add: write_file_def o l wr Let_def close_keeping_errno_ok [OF ok] posix_okD [OF ok] split: if_splits)
qed

text \<open>
  (C38) No test operation leaves a descriptor open, on any path, and a failing \<^verbatim>\<open>write_file\<close> returns -1 with the
  error number of the call that failed, not the one of the \<^verbatim>\<open>close\<close> after it; a write that
  succeeds returns the number of bytes written, also when these are fewer than asked for.
\<close>

theorem testops_descriptors:
  assumes "posix_ok P fds"
  shows "fds (snd (create_file P path mode w)) = fds w \<and>
    fds (snd (write_file P path data off w)) = fds w \<and>
    fds (snd (unlink_file P path w)) = fds w \<and>
    fds (snd (create_dir P path mode w)) = fds w \<and>
    fds (snd (remove_dir P path w)) = fds w \<and>
    (case px_open P path O_RDWR w of (fd, w1) \<Rightarrow>
       if fd < 0 then write_file P path data off w = (- 1, w1)
       else (case px_lseek P fd off SEEK_SET w1 of (res, w2) \<Rightarrow>
         if res = - 1 then fst (write_file P path data off w) = - 1 \<and>
           px_errno P (snd (write_file P path data off w)) = px_errno P w2
         else (case px_write P fd data w2 of (n, w3) \<Rightarrow>
           if n < 0 then fst (write_file P path data off w) = - 1 \<and>
             px_errno P (snd (write_file P path data off w)) = px_errno P w3
           else fst (write_file P path data off w) = n)))"
  using create_file_keeps [OF assms] write_file_keeps [OF assms] single_calls_keep [OF assms]
  by (simp add: write_file_def Let_def close_keeping_errno_ok [OF assms] split: prod.split)

text \<open>A system with one file, whose world is the set of open descriptors, the position and the error number.\<close>

type_synonym demo_sys = "int set \<times> int"

definition demo_posix :: "demo_sys posix" where
  "demo_posix = \<lparr>px_creat = (\<lambda>p m (F, e). (- 1, F, 13)),
     px_open = (\<lambda>p fl (F, e). if 3 \<in> F then (- 1, F, 24) else (3, insert 3 F, e)),
     px_lseek = (\<lambda>fd off wh (F, e). (if fd \<in> F then sint off else - 1, F, if fd \<in> F then e else 9)),
     px_write = (\<lambda>fd d (F, e). (- 1, F, 28)), px_close = (\<lambda>fd (F, e). (0, F - {fd}, 0)),
     px_unlink = (\<lambda>p (F, e). (- 1, F, 2)), px_mkdir = (\<lambda>p m (F, e). (0, F, e)), px_rmdir = (\<lambda>p (F, e). (- 1, F, 2)),
     px_print = (\<lambda>m a b w. w), px_errno = snd, px_set_errno = (\<lambda>e (F, _). (F, e))\<rparr>"

theorem testops_descriptors_witness:
  "write_file demo_posix ''/f'' [1, 2] 5 ({}, 0) = (- 1, {}, 28)"
proof -
  have ok: "posix_ok demo_posix fst"
    by (simp add: posix_ok_def demo_posix_def opens_one_def)
  from testops_descriptors [OF ok, of "''/f''" 0 "({}, 0)" "[1, 2]" 5] show ?thesis
    by (auto simp: demo_posix_def prod_eq_iff)
qed

end
