(* ===== verification/Dump.thy ===== *)
theory Dump
  imports Machine_Props
begin

text \<open>
  The state dump that \<^verbatim>\<open>cr_util.cpp\<close> has when built with \<^verbatim>\<open>DUMP_TESTING\<close>. What a function prints is the list of
  values it sends to the output; headings and colours are left out. The result \<open>None\<close> is a null
  pointer followed or a buffer read past its end.
\<close>

section \<open>The dump\<close>

datatype dump_line =
    Dump_File "byte list"
  | Dump_Child string ino_t
  | Dump_Type SpecialInodeTypes
  | Dump_Link string
  | Dump_Deleted ino_t

text \<open>The buffer is printed as a C string: the bytes before the first NUL, which has to be in it.\<close>

definition dump_File :: "byte list \<Rightarrow> dump_line list option" where
  "dump_File buf = (if 0 \<in> set buf then Some [Dump_File (takeWhile (\<lambda>b. b \<noteq> 0) buf)] else None)"

definition dump_Directory :: "children \<Rightarrow> dump_line list" where
  "dump_Directory ch = map (\<lambda>(name, ino). Dump_Child name ino) ch"

definition dump_SpecialInode :: "SpecialInodeTypes \<Rightarrow> dump_line list" where
  "dump_SpecialInode t = [Dump_Type t]"

definition dump_SymLink :: "string \<Rightarrow> dump_line list" where
  "dump_SymLink l = [Dump_Link l]"

text \<open>The class follows from the mode; a cast to the wrong class gives the null pointer.\<close>

definition dump_each_inode_type :: "Inode option \<Rightarrow> (int \<times> dump_line list) option" where
  "dump_each_inode_type slot =
     (case slot of
        None \<Rightarrow> None
      | Some i \<Rightarrow>
          let mode = GetMode i in
          if S_ISREG mode then
            (case m_obj i of File buf \<Rightarrow> map_option (Pair 0) (dump_File buf) | _ \<Rightarrow> None)
          else if S_ISDIR mode then
            (case m_obj i of Directory ch \<Rightarrow> Some (0, dump_Directory ch) | _ \<Rightarrow> None)
          else if S_ISCHR mode \<or> S_ISBLK mode \<or> S_ISFIFO mode \<or> S_ISSOCK mode then
            (case m_obj i of SpecialInode t \<Rightarrow> Some (0, dump_SpecialInode t) | _ \<Rightarrow> None)
          else if S_ISLNK mode then
            (case m_obj i of SymLink l \<Rightarrow> Some (0, dump_SymLink l) | _ \<Rightarrow> None)
          else if mode = 0 then Some (0, [])
          else Some (- EINVAL, []))"

fun isExistInDeleted :: "ino_t \<Rightarrow> ino_t list \<Rightarrow> bool" where
  "isExistInDeleted curr_ino [] = False"
| "isExistInDeleted curr_ino (ino # rest) = (if ino = curr_ino then True else isExistInDeleted curr_ino rest)"

text \<open>The loop from slot \<open>dist\<close> on; \<open>ret\<close> is not initialised before the first object.\<close>

fun dump_inodes_from ::
    "nat \<Rightarrow> Inode option list \<Rightarrow> ino_t list \<Rightarrow> int \<Rightarrow> dump_line list \<Rightarrow> (int \<times> dump_line list) option" where
  "dump_inodes_from dist [] dels ret out = Some (ret, out)"
| "dump_inodes_from dist (slot # rest) dels ret out =
     (if \<not> isExistInDeleted (of_nat dist) dels then do {
        (ret, ls) \<leftarrow> dump_each_inode_type slot;
        if ret \<noteq> 0 then Some (ret, out @ ls) else dump_inodes_from (Suc dist) rest dels ret (out @ ls)
      }
      else dump_inodes_from (Suc dist) rest dels ret (out @ [Dump_Deleted (of_nat dist)]))"

text \<open>The queue is a copy, printed and popped from the front.\<close>

fun print_ino_queue :: "ino_t list \<Rightarrow> ino_t list \<Rightarrow> ino_t list" where
  "print_ino_queue [] out = out"
| "print_ino_queue (front # rest) out = print_ino_queue rest (out @ [front])"

text \<open>\<^verbatim>\<open>FuseRamFs::check_restored_inode_size\<close>: the slots with the sizes of their objects, from slot \<open>dist\<close> on.\<close>

fun check_restored_from :: "nat \<Rightarrow> Inode option list \<Rightarrow> (nat \<times> off_t) list option" where
  "check_restored_from dist [] = Some []"
| "check_restored_from dist (None # rest) = None"
| "check_restored_from dist (Some i # rest) =
     map_option (Cons (dist, st_size (i_attr i))) (check_restored_from (Suc dist) rest)"

definition check_restored_inode_size :: "fs \<Rightarrow> (nat \<times> off_t) list option" where
  "check_restored_inode_size s = check_restored_from 0 (Inodes s)"

definition dump_inodes_verifs2 :: "int \<Rightarrow> Inode option list \<Rightarrow> ino_t list \<Rightarrow> (int \<times> dump_line list) option" where
  "dump_inodes_verifs2 junk tab dels = dump_inodes_from 0 tab dels junk []"

text \<open>The dump of the pool, in the order \<open>sts\<close> of iteration, does not ask for empty slots.\<close>

fun dump_slots :: "Inode option list \<Rightarrow> int \<Rightarrow> dump_line list \<Rightarrow> (int \<times> dump_line list) option" where
  "dump_slots [] ret out = Some (ret, out)"
| "dump_slots (slot # rest) ret out = do {
     (ret, ls) \<leftarrow> dump_each_inode_type slot;
     if ret \<noteq> 0 then Some (ret, out @ ls) else dump_slots rest ret (out @ ls)
   }"

fun dump_states :: "pool \<Rightarrow> int \<Rightarrow> dump_line list \<Rightarrow> (int \<times> dump_line list) option" where
  "dump_states [] ret out = Some (ret, out)"
| "dump_states ((key, tab, dels, sb) # rest) ret out = do {
     (ret, out) \<leftarrow> dump_slots tab ret out;
     if ret \<noteq> 0 then Some (ret, out) else dump_states rest ret out
   }"

definition dump_state_pool :: "pool \<Rightarrow> (int \<times> dump_line list) option" where
  "dump_state_pool sts = dump_states sts 0 []"

section \<open>When it is safe\<close>

lemma isExistInDeleted_iff: "isExistInDeleted ino dels \<longleftrightarrow> ino \<in> set dels"
  by (induction ino dels rule: isExistInDeleted.induct) auto

text \<open>Objects whose dump stays within their memory: files whose buffer holds a NUL.\<close>

definition dumpable :: "Inode \<Rightarrow> bool" where
  "dumpable i = (case m_obj i of File buf \<Rightarrow> 0 \<in> set buf | _ \<Rightarrow> True)"

lemma dump_each_ok:
  assumes "inode_ok i" "dumpable i"
  shows "\<exists>r ls. dump_each_inode_type (Some i) = Some (r, ls)"
  using assms
  by (cases "m_obj i") (auto simp: inode_ok_def mode_matches_def dumpable_def dump_each_inode_type_def dump_File_def Let_def)

lemma dump_inodes_from_ok:
  assumes "\<And>k slot. k < length tab \<Longrightarrow> tab ! k = slot \<Longrightarrow> of_nat (dist + k) \<notin> set dels \<Longrightarrow>
    \<exists>i. slot = Some i \<and> inode_ok i \<and> dumpable i"
  shows "\<exists>r. dump_inodes_from dist tab dels ret out = Some r"
  using assms
proof (induction dist tab dels ret out rule: dump_inodes_from.induct)
  case (2 dist slot rest dels ret out)
  have rest: "\<exists>i. x = Some i \<and> inode_ok i \<and> dumpable i"
    if "k < length rest" "rest ! k = x" "of_nat (Suc dist + k) \<notin> set dels" for k x
    using "2.prems" [of "Suc k" x] that by simp
  show ?case
  proof (cases "of_nat dist \<in> set dels")
    case True
    then show ?thesis using "2.IH"(2) rest by (auto simp: isExistInDeleted_iff)
  next
    case False
    with "2.prems" [of 0 slot] obtain i where "slot = Some i" "inode_ok i" "dumpable i" by auto
    then obtain r ls where "dump_each_inode_type slot = Some (r, ls)" using dump_each_ok by blast
    then show ?thesis using "2.IH"(1) rest False by (auto simp: isExistInDeleted_iff)
  qed
qed simp

text \<open>
  In a state that satisfies the invariant, dumping the table does not follow a null pointer: the slots that are
  empty are those in the queue, which the loop skips. A file is dumped within its memory when its buffer
  holds a NUL.
\<close>

theorem dump_inodes_safe:
  assumes ok: "fs_ok s" and files: "\<And>ino i. GetInode ino s = Some i \<Longrightarrow> dumpable i"
  shows "\<exists>r out. dump_inodes_verifs2 junk (Inodes s) (DeletedInodes s) = Some (r, out)"
proof -
  have "\<exists>i. slot = Some i \<and> inode_ok i \<and> dumpable i"
    if k: "k < length (Inodes s)" "Inodes s ! k = slot" "of_nat (0 + k) \<notin> set (DeletedInodes s)" for k slot
  proof -
    have "length (Inodes s) < 2 ^ 64"
      using fs_okD(3) [OF ok] unat_less_64 [of "f_files (m_stbuf s)"] by (auto simp: counters_ok_def)
    then have u: "unat (of_nat k :: ino_t) = k" using k(1) by (simp add: unat_of_nat_64)
    have "slot \<noteq> None" using fs_okD(2) [OF ok] k u by (auto simp: queue_ok_def)
    then obtain i where i: "GetInode (of_nat k) s = Some i" "slot = Some i" using k u by (auto simp: GetInode_def)
    then show ?thesis using fs_ok_inode(1) [OF ok i(1)] files by blast
  qed
  then have "\<exists>r. dump_inodes_from 0 (Inodes s) (DeletedInodes s) junk [] = Some r"
    by (rule dump_inodes_from_ok)
  then show ?thesis by (auto simp: dump_inodes_verifs2_def)
qed

text \<open>The dump of the pool follows the null pointer of an empty slot.\<close>

lemma dump_pool_empty_slot: "dump_state_pool ((key, None # tab, dels, sb) # rest) = None"
  by (simp add: dump_state_pool_def dump_each_inode_type_def)

text \<open>Printing the queue shows it whole and in order.\<close>

lemma print_ino_queue_all: "print_ino_queue q out = out @ q"
  by (induction q out rule: print_ino_queue.induct) simp_all

text \<open>
  The check of the sizes lists every slot in order, and runs into a null pointer exactly when a
  number has been freed.
\<close>

lemma check_restored_from_Some:
  "check_restored_from k tab =
     (if None \<in> set tab then None else Some (zip [k..<k + length tab] (map (\<lambda>x. st_size (i_attr (the x))) tab)))"
  by (induction k tab rule: check_restored_from.induct) (simp_all add: upt_conv_Cons del: upt_Suc)

lemma check_restored_iff:
  assumes "fs_ok s"
  shows "check_restored_inode_size s = None \<longleftrightarrow> DeletedInodes s \<noteq> []"
proof -
  have q: "queue_ok (Inodes s) (DeletedInodes s)" and c: "counters_ok (Inodes s) (m_stbuf s)"
    using fs_okD [OF assms] by auto
  have "None \<in> set (Inodes s) \<longleftrightarrow> DeletedInodes s \<noteq> []"
  proof
    assume "None \<in> set (Inodes s)"
    then obtain k where k: "k < length (Inodes s)" "Inodes s ! k = None" by (auto simp: in_set_conv_nth)
    then have "unat (of_nat k :: ino_t) = k" using c by (intro unat_of_nat_64) (simp add: counters_ok_def)
    with q k show "DeletedInodes s \<noteq> []" by (metis empty_iff empty_set queue_ok_def)
  next
    assume "DeletedInodes s \<noteq> []"
    from queue_okD [OF q hd_in_set [OF this]] show "None \<in> set (Inodes s)" by (metis nth_mem)
  qed
  then show ?thesis by (simp add: check_restored_inode_size_def check_restored_from_Some)
qed

end
