(* ===== verification/Spec2Isabelle.thy ===== *)
theory Spec2Isabelle
  imports Refinement_Props Reply_Props Reuse_Props Sharing_Props Tools_Props Listing_Keys Xattr_Safety Locking_Props
    Main_Program Testops Dump
begin

text \<open>
  VeriFS2 is an in-memory file system behind the FUSE low-level interface, made for model checkers: a
  state can be checkpointed under a key, restored, and written to and read from a file.

  \<^bold>\<open>The program and its parts.\<close> All sources are under \<^verbatim>\<open>src/src/\<close>. The kernel sends requests; a single-threaded
  session loop (\<^verbatim>\<open>main.cpp\<close>) calls the handler registered for each in \<^verbatim>\<open>FuseRamFs::FuseOps\<close>, which works on
  static state: the vector of inodes, the queue of deleted inode numbers, the \<^verbatim>\<open>statvfs\<close> counters, the
  contexts of directory listings and the pool of saved states. Objects are of the classes \<^verbatim>\<open>File\<close>,
  \<^verbatim>\<open>Directory\<close>, \<^verbatim>\<open>SymLink\<close> and \<^verbatim>\<open>SpecialInode\<close> below \<^verbatim>\<open>Inode\<close>. A handler looks the inode up in the table, calls a
  method of its class, which may adjust the counters through \<^verbatim>\<open>UpdateUsedBlocks\<close>, and replies.

  \<^bold>\<open>The model.\<close> The static state is the record \<open>fs\<close>; an object is the record \<open>Inode\<close> with the attributes and a
  datatype for the payload of its class. A method is a function of the counters and the object, a
  handler a function from \<open>fs\<close> to the list of replies it sends and the new state. The result \<open>None\<close> is
  undefined behaviour of the C++ code (a null or stale pointer, an access outside a buffer), a failed
  assertion, an uncaught exception or a loop that does not end, so a theorem that a handler gives
  \<open>Some\<close> shows their absence. Machine integers are words of their width and wrap around. What comes from
  outside is an argument: \<open>env\<close> holds the clock, the success of each allocation and the bytes of fresh
  memory; \<open>os\<close> the results of system calls and SHA-256; \<^verbatim>\<open>rand()\<close>, the record size of libfuse's
  \<^verbatim>\<open>fuse_add_direntry\<close>, \<^verbatim>\<open>getopt\<close>, \<^verbatim>\<open>basename\<close> and \<^verbatim>\<open>fuse_opt_add_arg\<close> are functions; the calls by which \<^verbatim>\<open>main\<close> mounts and runs a session
  are the record \<open>libfuse\<close>, those of \<^verbatim>\<open>testops.cpp\<close> the record \<open>posix\<close>.

  \<^bold>\<open>The theories of the code.\<close>
  \<^item> \<^verbatim>\<open>Prelude\<close>: generic facts on lists, options and words, and memory blocks (\<^verbatim>\<open>memset\<close>, \<^verbatim>\<open>memcpy\<close>, \<^verbatim>\<open>realloc\<close>).
  \<^item> \<^verbatim>\<open>Fuse_Types\<close>: the structures of FUSE and POSIX the code uses (\<^verbatim>\<open>stat\<close>, \<^verbatim>\<open>statvfs\<close>, replies, modes).
  \<^item> \<^verbatim>\<open>Block_Account\<close>: \<^verbatim>\<open>round_up\<close>, \<^verbatim>\<open>get_nblocks\<close> (\<^verbatim>\<open>util.hpp\<close>), \<^verbatim>\<open>UpdateUsedBlocks\<close>, \<^verbatim>\<open>UpdateUsedInodes\<close>,
    \<^verbatim>\<open>CheckHasSpaceFor\<close> (\<^verbatim>\<open>fuse_cpp_ramfs.hpp\<close>).
  \<^item> \<^verbatim>\<open>Inode\<close>: \<^verbatim>\<open>inode.hpp\<close>, \<^verbatim>\<open>inode.cpp\<close> without pickling: counts, replies, extended attributes, whose values
    are pointers into a heap of blocks, the access check, initialisation.
  \<^item> \<^verbatim>\<open>File\<close>, \<^verbatim>\<open>Directory\<close>, \<^verbatim>\<open>Leaf_Inodes\<close>: \<^verbatim>\<open>file.*\<close>, \<^verbatim>\<open>directory.*\<close>, and \<^verbatim>\<open>symlink.*\<close> with \<^verbatim>\<open>special_inode.*\<close>.
  \<^item> \<^verbatim>\<open>Ram_Fs\<close>: the table, the queue, registration, construction and \<^verbatim>\<open>FuseInit\<close> (\<^verbatim>\<open>fuse_cpp_ramfs.*\<close>).
  \<^item> \<^verbatim>\<open>Handlers\<close>: every request handler of \<^verbatim>\<open>fuse_cpp_ramfs.cpp\<close> but listing and ioctl; \<^verbatim>\<open>Readdir\<close>: listing.
  \<^item> \<^verbatim>\<open>Checkpoint\<close>: \<^verbatim>\<open>checkpoint\<close>, \<^verbatim>\<open>restore\<close>, the kernel notifications and the state pool of \<^verbatim>\<open>cr_util.cpp\<close>.
  \<^item> \<^verbatim>\<open>Pickle\<close>, \<^verbatim>\<open>State_File\<close>: the pickling methods of all classes and \<^verbatim>\<open>pickle.cpp\<close>, in both builds
    (against OpenSSL 3 the hash context is never assigned, so only the error paths before it are defined).
  \<^item> \<^verbatim>\<open>Machine\<close>: the ioctl dispatch, the dispatch table, requests, steps and reachable states.
  \<^item> \<^verbatim>\<open>Locking\<close>: the mutexes of \<^verbatim>\<open>inode.hpp\<close>, \<^verbatim>\<open>directory.hpp\<close> and \<^verbatim>\<open>fuse_cpp_ramfs.hpp\<close> and, for every method and
    handler, a term of locks taken and data touched (\<open>lk_\<close> and its name), over the threads of \<^verbatim>\<open>Thread_Pool\<close>.
  \<^item> \<^verbatim>\<open>Util\<close>: the command line, \<^verbatim>\<open>util.cpp\<close> and \<^verbatim>\<open>main.cpp\<close> up to the mount.
  \<^item> \<^verbatim>\<open>Main_Program\<close>: the rest of \<^verbatim>\<open>main\<close>, over libfuse, as the list of calls it makes and its exit status.
  \<^item> \<^verbatim>\<open>Testops\<close>: the operations of \<^verbatim>\<open>testops.cpp\<close>, over the system calls.
  \<^item> \<^verbatim>\<open>Tools\<close>: the tools \<^verbatim>\<open>ckpt.cpp\<close>, \<^verbatim>\<open>restore.cpp\<close>, \<^verbatim>\<open>pkl.cpp\<close> and \<^verbatim>\<open>load.cpp\<close>, over the ioctl system call.
  \<^item> \<^verbatim>\<open>Dump\<close>: the state dump of \<^verbatim>\<open>cr_util.cpp\<close> (\<^verbatim>\<open>DUMP_TESTING\<close>), with the conditions under which it is safe.

  \<^bold>\<open>The interfaces.\<close> The locale \<open>byte_file\<close> in \<^verbatim>\<open>File\<close> is a file seen as a byte sequence, interpreted by the
  methods of \<^verbatim>\<open>File\<close> and again, in \<^verbatim>\<open>Data_Props\<close>, by the requests. The locale \<open>name_map\<close> in \<^verbatim>\<open>Directory\<close> is the map
  from names to numbers that a directory implements, \<open>keyed_store\<close> in \<^verbatim>\<open>Checkpoint\<close> the pool of saved states, and
  \<open>codec\<close> in \<^verbatim>\<open>Pickle\<close> a prefix-free encoding, interpreted by every structure of the state file. In \<^verbatim>\<open>Thread_Pool\<close>,
  \<open>lock_order\<close> is an order of locks along which threads acquire them, which excludes deadlock, and \<open>data_guard\<close> a
  protection of data by locks, which excludes races; \<^verbatim>\<open>Locking_Props\<close> interprets both by the locks of the program.

  \<^bold>\<open>The abstract specification.\<close> \<^verbatim>\<open>Abstract_Fs\<close> says what the file system promises, without table, queue, counters,
  block sizes or buffers: a map from numbers to nodes (a byte sequence, a map of names, a link
  target or a device, with mode, links and lookups), the saved maps, and for every request the relation
  \<open>spec\<close> between the answers, the map before and the map after, where running out of space or memory is
  an allowed answer that changes nothing (but for a rename, which then drops the old name without binding
  the new one, as the code does). \<^verbatim>\<open>Fs_Refinement\<close> has the abstraction and one lemma per
  handler; \<^verbatim>\<open>Refinement_Props\<close> puts them together: the locale \<open>refinement_map\<close> is a simulation of one labelled
  transition system by another and derives trace inclusion, and it is interpreted by the state machine of
  \<^verbatim>\<open>Machine\<close> and the steps \<open>astep\<close> of the specification.

  \<^bold>\<open>What the lemmas show.\<close>
  \<^item> \<^verbatim>\<open>Fs_Invariant\<close>, \<^verbatim>\<open>Node_Creation\<close>, \<^verbatim>\<open>Handler_Safety\<close>: the invariant \<open>fs_ok\<close> (objects, queue, counters,
    saved states) and that every handler keeps it and returns; \<^verbatim>\<open>Machine_Invariant\<close> lifts this to the dispatch
    table and \<^verbatim>\<open>Machine_Props\<close> to reachable states, with checkpoint and restore across arbitrary requests.
  \<^item> \<^verbatim>\<open>Refinement_Props\<close>: every sequence of requests and answers of a mounted file system is one of the specification.
  \<^item> \<^verbatim>\<open>Reply_Props\<close>: each request gets the answer of its kind; \<^verbatim>\<open>Reuse_Props\<close>: freed numbers are used again, in order.
  \<^item> \<^verbatim>\<open>Data_Props\<close>: write, read and truncation refine operations on byte lists, on every branch.
  \<^item> \<^verbatim>\<open>Name_Props\<close>, \<^verbatim>\<open>Rename_Props\<close>: lookup, creation, link, unlink, directory removal, forgetting and renaming, in
    terms of the entries of directories, the objects touched and the counters.
  \<^item> \<^verbatim>\<open>Attr_Props\<close>: extended attributes, access and symbolic links. \<^verbatim>\<open>Sharing_Props\<close>: that saved states share the
    values of extended attributes. \<^verbatim>\<open>Xattr_Frames\<close>, \<^verbatim>\<open>Xattr_Safety\<close>: that without a restore every value has a block
    of its own, so that the attribute requests are served too and a value stays until it is set again or
    removed. \<^verbatim>\<open>Readdir_Props\<close>: listing. \<^verbatim>\<open>Listing_Keys\<close>: the keys of listings in progress, over all requests.
  \<^item> \<^verbatim>\<open>Locking_Props\<close>: requests served by several threads neither block each other for ever, unless renames over
    directories cross, nor race on entries, table, counters and saved states; where the code takes the wrong lock or
    none, an interleaving that races.
  \<^item> \<^verbatim>\<open>Pickle_Roundtrip\<close>, \<^verbatim>\<open>State_File_Roundtrip\<close>, \<^verbatim>\<open>Pickle_Props\<close>: loading what was pickled, and refusing the rest.
  \<^item> \<^verbatim>\<open>Tools_Props\<close>: the tools run against a mounted file system, end to end.
  \<^item> \<^verbatim>\<open>Util_Props\<close>: sizes, options, arguments and the capacity they give.
  \<^item> \<^verbatim>\<open>Main_Program\<close>: that \<^verbatim>\<open>main\<close> releases what it acquires and, given what libfuse documents of its loop
    (\<open>loop_contract\<close>) and requests as the kernel sends them, serves reachable states only; \<^verbatim>\<open>Testops\<close>: descriptors and
    error numbers.
  \<^item> \<^verbatim>\<open>Demo\<close>: two small file systems on which the theorems are applied to concrete requests.

  \<^bold>\<open>Bounds.\<close> No loop is given fuel. The loops that may run forever (the search for a listing key, the
  option parser, the \<^verbatim>\<open>getopt\<close> loop) are partial functions, with theorems that say when they end. Requests are
  assumed to be as the kernel sends them (\<open>kernel_ok\<close>): offsets and sizes below 2 to the 63, a mode change that
  keeps the file type, an entry for which the size of the directory stays below 2 to the 63, a rename that does not
  replace one of its own directories (which would wait for a lock of its own,
  \<open>rename_onto_parent_locks_itself\<close>), for an unlink a name whose object is in the table, and no forget of
  the null inode, whose number the kernel is never given. Reachable states do not include a load of a state file, which
  renumbers the objects when the table has empty slots (\<open>pickle_load_drops_empty_slots\<close>).

  \<^bold>\<open>Threads.\<close> The session loop is single-threaded, so the state machine serves one request after the other and its
  handlers have no locks; the one handler that can ask for a lock it holds itself, the rename, has no result
  there. The locks are there for a loop with several threads and are modelled apart from the state:
  a handler is the set of its sequences of lock operations and accesses, with the numbers of the inodes it finds as
  parameters and tests on the state left open, so that every real execution is among them. \<^verbatim>\<open>std::lock\<close> takes its locks
  in one step, holding none while it waits. A lock of an inode is named by the inode's number; that no thread
  uses an object after another has deleted it is left to the lookup counts of the kernel. What the state is
  after handlers have been interleaved is not modelled.

  \<^bold>\<open>Not modelled.\<close> The effect of interleaved handlers on the state (above). Memory that is freed without being read again:
  leaks are not visible, and with them \<^verbatim>\<open>delete_args\<close> of \<^verbatim>\<open>main.cpp\<close>, which is never called. The headings of the state
  dump and diagnostic output elsewhere. libfuse, the C library and OpenSSL, which are parameters. The shell and
  Python scripts that build, mount and test the program.
\<close>

end
